(* ===== verification/Prelude.thy ===== *)
theory Prelude
  imports Main "HOL-Library.Word"
begin

text \<open>
  What the components share: the names of the machine types, Rust's outcomes (a value, an
  error returned with \<open>?\<close>, or a panic), the operations of Rust's standard library on
  options, results and vectors that the sources use, and two interfaces that several components
  provide: a transition system with an invariant, and a map whose entries never change.
\<close>

section \<open>Types and outcomes\<close>

type_synonym byte = "8 word"
type_synonym bytes = "byte list"
type_synonym u8 = "8 word"
type_synonym u32 = "32 word"
type_synonym u64 = "64 word"
type_synonym u128 = "128 word"

text \<open>Why a Rust thread stops: the panics the sources can raise.\<close>

datatype panic =
    Unwrap_None
  | Unwrap_Err
  | Expect string
  | Assert_Failed string
  | Index_Out_Of_Bounds

text \<open>
  The result of a fallible Rust computation: \<open>Ok\<close> and \<open>Err\<close> are the constructors of
  Rust's \<open>Result\<close>; \<open>Panic\<close> is the computation that does not return.
\<close>

datatype ('a, 'e) outcome = Ok 'a | Err 'e | Panic panic

named_theorems outcome_simps \<open>unfoldings of the combinators on outcomes\<close>

text \<open>Sequencing with \<open>?\<close>: the first error or panic is the result.\<close>

primrec and_then :: "('a, 'e) outcome \<Rightarrow> ('a \<Rightarrow> ('b, 'e) outcome) \<Rightarrow> ('b, 'e) outcome" where
  "and_then (Ok a) f = f a"
| "and_then (Err e) f = Err e"
| "and_then (Panic p) f = Panic p"

primrec map_err :: "('e \<Rightarrow> 'f) \<Rightarrow> ('a, 'e) outcome \<Rightarrow> ('a, 'f) outcome" where
  "map_err g (Ok a) = Ok a"
| "map_err g (Err e) = Err (g e)"
| "map_err g (Panic p) = Panic p"

text \<open>\<open>unwrap\<close> and \<open>expect\<close> turn an absent value or an error into a panic.\<close>

primrec unwrap_option :: "'a option \<Rightarrow> ('a, 'e) outcome" where
  "unwrap_option None = Panic Unwrap_None"
| "unwrap_option (Some a) = Ok a"

text \<open>
  A decoder of a library gives \<open>None\<close> for its error, whose text the sources never use: its \<open>Result\<close>
  unwrapped.
\<close>

primrec unwrap_decoded :: "'a option \<Rightarrow> ('a, 'e) outcome" where
  "unwrap_decoded None = Panic Unwrap_Err"
| "unwrap_decoded (Some a) = Ok a"

primrec expect_option :: "string \<Rightarrow> 'a option \<Rightarrow> ('a, 'e) outcome" where
  "expect_option msg None = Panic (Expect msg)"
| "expect_option msg (Some a) = Ok a"

primrec ok_or :: "'e \<Rightarrow> 'a option \<Rightarrow> ('a, 'e) outcome" where
  "ok_or e None = Err e"
| "ok_or e (Some a) = Ok a"

primrec unwrap_result :: "('a, 'e) outcome \<Rightarrow> ('a, 'f) outcome" where
  "unwrap_result (Ok a) = Ok a"
| "unwrap_result (Err e) = Panic Unwrap_Err"
| "unwrap_result (Panic p) = Panic p"

primrec expect_result :: "string \<Rightarrow> ('a, 'e) outcome \<Rightarrow> ('a, 'f) outcome" where
  "expect_result msg (Ok a) = Ok a"
| "expect_result msg (Err e) = Panic (Expect msg)"
| "expect_result msg (Panic p) = Panic p"

lemma and_then_Ok_iff [outcome_simps]:
  "and_then m f = Ok b \<longleftrightarrow> (\<exists>a. m = Ok a \<and> f a = Ok b)"
  by (cases m) auto

lemma and_then_Err_iff [outcome_simps]:
  "and_then m f = Err e \<longleftrightarrow> m = Err e \<or> (\<exists>a. m = Ok a \<and> f a = Err e)"
  by (cases m) auto

lemma and_then_Panic_iff [outcome_simps]:
  "and_then m f = Panic p \<longleftrightarrow> m = Panic p \<or> (\<exists>a. m = Ok a \<and> f a = Panic p)"
  by (cases m) auto

lemma ok_or_Err_iff [outcome_simps]: "ok_or e m = Err e' \<longleftrightarrow> m = None \<and> e = e'"
  by (cases m) auto

lemma ok_or_not_Panic [simp]: "ok_or e m \<noteq> Panic p"
  by (cases m) auto

lemma map_err_Panic_iff [outcome_simps]: "map_err g m = Panic p \<longleftrightarrow> m = Panic p"
  by (cases m) auto

lemma map_err_Err_iff [outcome_simps]: "map_err g m = Err e \<longleftrightarrow> (\<exists>e'. m = Err e' \<and> e = g e')"
  by (cases m) auto

lemma unwrap_option_Panic_iff [outcome_simps]:
  "unwrap_option m = Panic p \<longleftrightarrow> m = None \<and> p = Unwrap_None"
  by (cases m) auto

lemma unwrap_option_not_Err [simp]: "unwrap_option m \<noteq> Err e"
  by (cases m) auto

lemma unwrap_decoded_Panic_iff [outcome_simps]:
  "unwrap_decoded m = Panic p \<longleftrightarrow> m = None \<and> p = Unwrap_Err"
  by (cases m) auto

lemma unwrap_decoded_not_Err [simp]: "unwrap_decoded m \<noteq> Err e"
  by (cases m) auto

lemma unwrap_decoded_Ok_iff [outcome_simps]: "unwrap_decoded m = Ok a \<longleftrightarrow> m = Some a"
  by (cases m) auto

lemma and_then_assoc: "and_then (and_then m f) g = and_then m (\<lambda>a. and_then (f a) g)"
  by (cases m) auto

lemma map_err_Ok_iff [outcome_simps]: "map_err g m = Ok a \<longleftrightarrow> m = Ok a"
  by (cases m) auto

lemma unwrap_option_Ok_iff [outcome_simps]: "unwrap_option m = Ok a \<longleftrightarrow> m = Some a"
  by (cases m) auto

lemma expect_option_Ok_iff [outcome_simps]: "expect_option msg m = Ok a \<longleftrightarrow> m = Some a"
  by (cases m) auto

lemma ok_or_Ok_iff [outcome_simps]: "ok_or e m = Ok a \<longleftrightarrow> m = Some a"
  by (cases m) auto

lemma unwrap_result_Ok_iff [outcome_simps]: "unwrap_result m = Ok a \<longleftrightarrow> m = Ok a"
  by (cases m) auto

lemma expect_result_Ok_iff [outcome_simps]: "expect_result msg m = Ok a \<longleftrightarrow> m = Ok a"
  by (cases m) auto

text \<open>Congruence for recursive definitions under \<^const>\<open>and_then\<close>.\<close>

lemma and_then_cong [fundef_cong]:
  assumes "m = m'" and "\<And>a. m' = Ok a \<Longrightarrow> f a = f' a"
  shows "and_then m f = and_then m' f'"
  using assms by (cases m') auto


section \<open>Computations with state\<close>

text \<open>
  A handler takes the state and returns its outcome with the state it leaves: what was written
  before an error or a panic stays written.
\<close>

type_synonym ('s, 'a, 'e) action = "'s \<Rightarrow> ('a, 'e) outcome \<times> 's"

definition bind_action :: "('s, 'a, 'e) action \<Rightarrow> ('a \<Rightarrow> ('s, 'b, 'e) action) \<Rightarrow> ('s, 'b, 'e) action" where
  "bind_action m f s =
     (case m s of
        (Ok a, s') \<Rightarrow> f a s'
      | (Err e, s') \<Rightarrow> (Err e, s')
      | (Panic p, s') \<Rightarrow> (Panic p, s'))"

text \<open>A step that only reads: the state is unchanged.\<close>

definition pure_action :: "('a, 'e) outcome \<Rightarrow> ('s, 'a, 'e) action" where
  "pure_action r s = (r, s)"

lemma bind_action_Ok [simp]: "m s = (Ok a, s') \<Longrightarrow> bind_action m f s = f a s'"
  by (simp add: bind_action_def)

lemma bind_action_Err [simp]: "m s = (Err e, s') \<Longrightarrow> bind_action m f s = (Err e, s')"
  by (simp add: bind_action_def)

lemma bind_action_Panic [simp]: "m s = (Panic p, s') \<Longrightarrow> bind_action m f s = (Panic p, s')"
  by (simp add: bind_action_def)

lemma bind_action_Ok_iff [outcome_simps]:
  "bind_action m f s = (Ok b, t) \<longleftrightarrow> (\<exists>a s'. m s = (Ok a, s') \<and> f a s' = (Ok b, t))"
  by (auto simp: bind_action_def split: prod.splits outcome.splits)

lemma pure_action_apply [simp]: "pure_action r s = (r, s)"
  by (simp add: pure_action_def)


section \<open>Integers at their width\<close>

text \<open>\<open>saturating_add\<close>: the sum, or the greatest value of the type.\<close>

definition saturating_add :: "'w::len word \<Rightarrow> 'w word \<Rightarrow> 'w word" where
  "saturating_add a b = (if unat a + unat b < 2 ^ LENGTH('w) then a + b else - 1)"

lemma unat_saturating_add:
  fixes a b :: "'w::len word"
  shows "unat (saturating_add a b) = min (unat a + unat b) (2 ^ LENGTH('w) - 1)"
proof (cases "unat a + unat b < 2 ^ LENGTH('w)")
  case True
  then show ?thesis
    by (simp add: saturating_add_def unat_word_ariths)
next
  case False
  have "(0::nat) < 2 ^ LENGTH('w)" by simp
  with False have "min (unat a + unat b) (2 ^ LENGTH('w) - 1) = 2 ^ LENGTH('w) - 1"
    by linarith
  with False show ?thesis
    by (simp only: saturating_add_def if_False unsigned_minus_1_eq_mask mask_eq_exp_minus_1)
qed


section \<open>Vectors\<close>

text \<open>\<open>iter().position(p)\<close>: the first index where \<open>p\<close> holds.\<close>

fun position :: "('a \<Rightarrow> bool) \<Rightarrow> 'a list \<Rightarrow> nat option" where
  "position p [] = None"
| "position p (x # xs) = (if p x then Some 0 else map_option Suc (position p xs))"

lemma position_None_iff: "position p xs = None \<longleftrightarrow> (\<forall>x \<in> set xs. \<not> p x)"
  by (induction xs) auto

lemma position_SomeD: "position p xs = Some i \<Longrightarrow> i < length xs \<and> p (xs ! i)"
  by (induction xs arbitrary: i) (auto split: if_splits)

text \<open>
  \<open>swap_remove(i)\<close>: the last element takes the place of the removed one. The sources call it
  with an index that \<^const>\<open>position\<close> returned, so Rust's panic for an index out of range is
  not reached (\<open>position_SomeD\<close>).
\<close>

definition swap_remove :: "nat \<Rightarrow> 'a list \<Rightarrow> 'a list" where
  "swap_remove i xs = butlast (xs[i := last xs])"

lemma set_distinct_take_drop:
  assumes "i < length xs" and "distinct xs"
  shows "set (take i xs) \<union> set (drop (Suc i) xs) = set xs - {xs ! i}"
proof -
  have "xs = take i xs @ xs ! i # drop (Suc i) xs"
    using assms(1) by (rule id_take_nth_drop)
  then have "set xs = set (take i xs @ xs ! i # drop (Suc i) xs)"
    and "distinct (take i xs @ xs ! i # drop (Suc i) xs)"
    using assms(2) by simp_all
  then show ?thesis
    by (auto simp del: append_take_drop_id)
qed

lemma swap_remove_snoc_less:
  "i < length ys \<Longrightarrow> swap_remove i (ys @ [y]) = ys[i := y]"
  by (simp add: swap_remove_def list_update_append)

lemma swap_remove_snoc_last: "swap_remove (length ys) (ys @ [y]) = ys"
  by (simp add: swap_remove_def)

lemma swap_remove_distinct_set:
  assumes "i < length xs" and "distinct xs"
  shows "distinct (swap_remove i xs) \<and> set (swap_remove i xs) = set xs - {xs ! i}"
proof (cases xs rule: rev_cases)
  case Nil
  with assms show ?thesis by simp
next
  case (snoc ys y)
  show ?thesis
  proof (cases "i < length ys")
    case True
    have "distinct ys" and "y \<notin> set ys" using assms snoc by auto
    have "ys[i := y] = take i ys @ y # drop (Suc i) ys"
      using True by (rule upd_conv_take_nth_drop)
    moreover have "set (take i ys) \<union> set (drop (Suc i) ys) = set ys - {ys ! i}"
      using True \<open>distinct ys\<close> by (rule set_distinct_take_drop)
    moreover have "ys ! i \<in> set ys" using True by simp
    ultimately have "set (ys[i := y]) = insert y (set ys) - {ys ! i}"
      using \<open>y \<notin> set ys\<close> by auto
    moreover have "distinct (ys[i := y])"
      using \<open>distinct ys\<close> \<open>y \<notin> set ys\<close> by (simp add: distinct_list_update)
    ultimately show ?thesis
      using True snoc by (simp add: swap_remove_snoc_less nth_append)
  next
    case False
    then have "i = length ys" using assms snoc by simp
    with assms snoc show ?thesis by (auto simp: swap_remove_snoc_last)
  qed
qed

lemma map_filter_agree:
  "(\<And>x. x \<in> set xs \<Longrightarrow> f x = g x) \<Longrightarrow> List.map_filter f xs = List.map_filter g xs"
  by (induction xs) (auto simp: List.map_filter_def)

lemma length_map_filter_total:
  "(\<And>x. x \<in> set xs \<Longrightarrow> f x \<noteq> None) \<Longrightarrow> length (List.map_filter f xs) = length xs"
  by (induction xs) (auto simp: List.map_filter_def)

lemma set_map_filter: "r \<in> set (List.map_filter f xs) \<longleftrightarrow> (\<exists>x \<in> set xs. f x = Some r)"
  by (force simp: List.map_filter_def)

lemma map_eq_map_nth:
  "map f xs = map g ys \<longleftrightarrow> length xs = length ys \<and> (\<forall>j < length ys. f (xs ! j) = g (ys ! j))"
  by (auto simp: list_eq_iff_nth_eq)

lemma count_list_distinct: "distinct xs \<Longrightarrow> x \<in> set xs \<Longrightarrow> count_list xs x = 1"
  by (induction xs) auto


section \<open>Interfaces shared by the components\<close>

text \<open>
  A component with state: where it starts, its steps, and an invariant that the start has and
  every step keeps. The client's fact is that every reachable state has it.
\<close>

locale transition_system =
  fixes start :: "'s \<Rightarrow> bool"
    and step :: "'s \<Rightarrow> 's \<Rightarrow> bool"
    and inv :: "'s \<Rightarrow> bool"
  assumes start_inv: "start s \<Longrightarrow> inv s"
    and step_inv: "inv s \<Longrightarrow> step s t \<Longrightarrow> inv t"
begin

lemma steps_inv: "step\<^sup>*\<^sup>* s t \<Longrightarrow> inv s \<Longrightarrow> inv t"
  by (induction rule: rtranclp_induct) (auto intro: step_inv)

lemma reachable_inv: "start s \<Longrightarrow> step\<^sup>*\<^sup>* s t \<Longrightarrow> inv t"
  using steps_inv start_inv by blast

end

text \<open>A map held by the state whose entries are written once and never change after that.\<close>

locale write_once_map =
  fixes lookup :: "'s \<Rightarrow> 'k \<Rightarrow> 'v option"
    and step :: "'s \<Rightarrow> 's \<Rightarrow> bool"
  assumes step_keeps: "step s t \<Longrightarrow> lookup s k = Some v \<Longrightarrow> lookup t k = Some v"
begin

lemma steps_keep: "step\<^sup>*\<^sup>* s t \<Longrightarrow> lookup s k = Some v \<Longrightarrow> lookup t k = Some v"
  by (induction rule: rtranclp_induct) (auto intro: step_keeps)

lemma steps_agree:
  "step\<^sup>*\<^sup>* s t \<Longrightarrow> lookup s k = Some v \<Longrightarrow> lookup t k = Some w \<Longrightarrow> v = w"
  using steps_keep by fastforce

lemma dom_mono: "step\<^sup>*\<^sup>* s t \<Longrightarrow> dom (lookup s) \<subseteq> dom (lookup t)"
  using steps_keep by (auto simp: dom_def)

end

text \<open>
  A component that publishes a list which only grows at its end, which is what a client that polls
  the list relies on.
\<close>

locale growing_log = transition_system +
  fixes log :: "'a \<Rightarrow> 'b list"
  assumes step_grows: "inv s \<Longrightarrow> step s t \<Longrightarrow> \<exists>new. log t = log s @ new"
begin

lemma steps_grow: "step\<^sup>*\<^sup>* s t \<Longrightarrow> inv s \<Longrightarrow> \<exists>new. log t = log s @ new"
proof (induction rule: rtranclp_induct)
  case base
  then show ?case by simp
next
  case (step t u)
  then obtain new1 where "log t = log s @ new1" by blast
  moreover obtain new2 where "log u = log t @ new2"
    using step step_grows steps_inv by blast
  ultimately show ?case by simp
qed

lemma steps_keep_position:
  assumes "step\<^sup>*\<^sup>* s t" and "inv s" and "i < length (log s)"
  shows "i < length (log t)" and "log t ! i = log s ! i"
  using steps_grow [OF assms(1,2)] assms(3) by (auto simp: nth_append)

end

text \<open>
  A component whose operations are calls with replies: a run answers a list of calls one after the
  other. It refines an abstract machine when, on states with the invariant, each call keeps the
  invariant and commutes with the abstraction of replies and states; then so does every run.
\<close>

fun run_calls :: "('c \<Rightarrow> 's \<Rightarrow> 'r \<times> 's) \<Rightarrow> 'c list \<Rightarrow> 's \<Rightarrow> 'r list \<times> 's" where
  "run_calls exec [] s = ([], s)"
| "run_calls exec (c # cs) s =
     (case exec c s of (r, s') \<Rightarrow> (case run_calls exec cs s' of (rs, s'') \<Rightarrow> (r # rs, s'')))"

locale machine_refinement =
  fixes exec :: "'c \<Rightarrow> 's \<Rightarrow> 'r \<times> 's"
    and spec :: "'c \<Rightarrow> 'a \<Rightarrow> 'q \<times> 'a"
    and inv :: "'s \<Rightarrow> bool"
    and abs_reply :: "'r \<Rightarrow> 'q"
    and abs_state :: "'s \<Rightarrow> 'a"
  assumes exec_inv: "inv s \<Longrightarrow> inv (snd (exec c s))"
    and exec_refines: "inv s \<Longrightarrow> map_prod abs_reply abs_state (exec c s) = spec c (abs_state s)"
begin

lemma run_inv: "inv s \<Longrightarrow> inv (snd (run_calls exec cs s))"
proof (induction cs arbitrary: s)
  case (Cons c cs)
  obtain r s' where step: "exec c s = (r, s')" by fastforce
  with exec_inv [OF Cons.prems, of c] have "inv (snd (run_calls exec cs s'))"
    by (intro Cons.IH) simp
  then show ?case by (simp add: step split: prod.split) (metis snd_conv)
qed simp

lemma run_refines:
  "inv s \<Longrightarrow> map_prod (map abs_reply) abs_state (run_calls exec cs s) = run_calls spec cs (abs_state s)"
proof (induction cs arbitrary: s)
  case (Cons c cs)
  obtain r s' where step: "exec c s = (r, s')" by fastforce
  have "map_prod (map abs_reply) abs_state (run_calls exec cs s') = run_calls spec cs (abs_state s')"
    using exec_inv [OF Cons.prems, of c] step by (intro Cons.IH) simp
  moreover have "spec c (abs_state s) = (abs_reply r, abs_state s')"
    using exec_refines [OF Cons.prems, of c] step by simp
  ultimately show ?case
    using step by (auto split: prod.splits)
qed simp

end

end
