(* ===== verification/Request_Pool.thy ===== *)
theory Request_Pool
  imports Prelude
begin

text \<open>
  The decryption request pool contract, \<open>contract/pool/lib.rs\<close>: requests are added by anyone
  under the hash of their bytes, authorized workers submit attestations, and a request is
  fulfilled when \<open>THRESHOLD\<close> of them have. The chain's BLAKE2 hash, the caller and the block
  timestamp are arguments. The event log is the events emitted so far, in order.
\<close>

section \<open>Storage\<close>

type_synonym account_id = bytes

datatype generic_data = GenericData bytes

primrec data_bytes :: "generic_data \<Rightarrow> bytes" where
  "data_bytes (GenericData b) = b"

record pool_request =
  rq_filename :: generic_data
  rq_witness_hex :: generic_data
  rq_location :: generic_data

definition THRESHOLD :: u32 where
  "THRESHOLD = 1"

definition TOTAL_WORKERS :: u32 where
  "TOTAL_WORKERS = 2"

datatype pool_event =
    RequestAdded bytes u64
  | RequestFulfilled bytes bytes
  | PartialAttestationSubmitted bytes account_id u32

datatype pool_error =
    RequestAlreadyExists
  | RequestNotFound
  | AlreadyFulfilled
  | Pool_Unauthorized
  | AlreadyAttested

record request_pool =
  requests :: "bytes \<rightharpoonup> pool_request"
  request_ids :: "bytes list"
  partial_attestations :: "bytes \<times> account_id \<rightharpoonup> bytes"
  attestation_counts :: "bytes \<rightharpoonup> u32"
  fulfilled_attestations :: "bytes \<rightharpoonup> bytes"
  authorized_workers :: "account_id list"
  pool_count :: u64
  pool_events :: "pool_event list"


section \<open>Messages\<close>

definition pool_new :: "account_id list \<Rightarrow> (request_pool, pool_error) outcome" where
  "pool_new workers =
     (if length workers \<noteq> unat TOTAL_WORKERS
      then Panic (Assert_Failed ''workers.len() == TOTAL_WORKERS'')
      else Ok \<lparr>requests = Map.empty, request_ids = [], partial_attestations = Map.empty,
              attestation_counts = Map.empty, fulfilled_attestations = Map.empty,
              authorized_workers = workers, pool_count = 0, pool_events = []\<rparr>)"

definition hash_request :: "(bytes \<Rightarrow> bytes) \<Rightarrow> bytes \<Rightarrow> bytes" where
  "hash_request blake2x256 data = blake2x256 data"

definition hash_attestation :: "(bytes \<Rightarrow> bytes) \<Rightarrow> bytes \<Rightarrow> bytes" where
  "hash_attestation blake2x256 attestation = blake2x256 attestation"

definition pool_add ::
  "(bytes \<Rightarrow> bytes) \<Rightarrow> u64 \<Rightarrow> generic_data \<Rightarrow> generic_data \<Rightarrow> generic_data
   \<Rightarrow> (request_pool, unit, pool_error) action" where
  "pool_add H now filename witness_hex location s =
     (let input = data_bytes filename @ data_bytes witness_hex @ data_bytes location;
          rid = hash_request H input
      in if requests s rid \<noteq> None then (Err RequestAlreadyExists, s)
         else let request = \<lparr>rq_filename = filename, rq_witness_hex = witness_hex,
                             rq_location = location\<rparr>
              in (Ok (), s\<lparr>requests := (requests s)(rid \<mapsto> request),
                          request_ids := request_ids s @ [rid],
                          pool_count := saturating_add (pool_count s) 1,
                          pool_events := pool_events s @ [RequestAdded rid now]\<rparr>))"

definition pool_read_all :: "request_pool \<Rightarrow> pool_request list" where
  "pool_read_all s = List.map_filter (requests s) (request_ids s)"

definition finalize_request ::
  "(bytes \<Rightarrow> bytes) \<Rightarrow> bytes \<Rightarrow> (request_pool, unit, pool_error) action" where
  "finalize_request H request_id s =
     (let partials = List.map_filter (\<lambda>worker. partial_attestations s (request_id, worker))
                       (authorized_workers s);
          combined = concat partials
      in (Ok (), s\<lparr>fulfilled_attestations := (fulfilled_attestations s)(request_id \<mapsto> combined),
                  pool_events := pool_events s
                    @ [RequestFulfilled request_id (hash_attestation H combined)]\<rparr>))"

definition submit_partial_attestation ::
  "(bytes \<Rightarrow> bytes) \<Rightarrow> account_id \<Rightarrow> bytes \<Rightarrow> bytes \<Rightarrow> (request_pool, unit, pool_error) action" where
  "submit_partial_attestation H caller request_id attestation s =
     (if caller \<notin> set (authorized_workers s) then (Err Pool_Unauthorized, s)
      else if requests s request_id = None then (Err RequestNotFound, s)
      else if fulfilled_attestations s request_id \<noteq> None then (Err AlreadyFulfilled, s)
      else if partial_attestations s (request_id, caller) \<noteq> None then (Err AlreadyAttested, s)
      else
        let count = (case attestation_counts s request_id of None \<Rightarrow> 0 | Some c \<Rightarrow> c);
            new_count = saturating_add count 1;
            s' = s\<lparr>partial_attestations :=
                     (partial_attestations s)((request_id, caller) \<mapsto> attestation),
                   attestation_counts := (attestation_counts s)(request_id \<mapsto> new_count),
                   pool_events := pool_events s
                     @ [PartialAttestationSubmitted request_id caller new_count]\<rparr>
        in if new_count \<ge> THRESHOLD
           then bind_action (finalize_request H request_id) (\<lambda>_. pure_action (Ok ())) s'
           else (Ok (), s'))"

definition get_attestation :: "bytes \<Rightarrow> request_pool \<Rightarrow> bytes option" where
  "get_attestation rid s = fulfilled_attestations s rid"

definition get_attestation_count :: "bytes \<Rightarrow> request_pool \<Rightarrow> u32" where
  "get_attestation_count rid s =
     (case attestation_counts s rid of None \<Rightarrow> 0 | Some c \<Rightarrow> c)"

lemmas pool_defs = pool_add_def finalize_request_def submit_partial_attestation_def
  bind_action_def Let_def


section \<open>Invariant\<close>

definition request_bytes :: "pool_request \<Rightarrow> bytes" where
  "request_bytes r =
     data_bytes (rq_filename r) @ data_bytes (rq_witness_hex r) @ data_bytes (rq_location r)"

text \<open>
  What the fields say about each other: ids and requests agree and an id is the hash of its
  request; the count is the number of requests, saturated; a request is fulfilled exactly when
  one worker has attested, that worker is authorized, its attestation (once per occurrence of
  the worker in the list given to the constructor) is the final one, and the count is one.
\<close>

definition ids_inv :: "(bytes \<Rightarrow> bytes) \<Rightarrow> request_pool \<Rightarrow> bool" where
  "ids_inv H s \<longleftrightarrow>
     distinct (request_ids s) \<and> set (request_ids s) = dom (requests s)
     \<and> (\<forall>rid r. requests s rid = Some r \<longrightarrow> rid = hash_request H (request_bytes r))
     \<and> unat (pool_count s) = min (length (request_ids s)) (2 ^ 64 - 1)"

definition attested_by :: "request_pool \<Rightarrow> bytes \<Rightarrow> account_id \<Rightarrow> bytes \<Rightarrow> bool" where
  "attested_by s rid w a \<longleftrightarrow>
     requests s rid \<noteq> None \<and> w \<in> set (authorized_workers s)
     \<and> (\<forall>w'. partial_attestations s (rid, w') = (if w' = w then Some a else None))
     \<and> fulfilled_attestations s rid =
         Some (concat (replicate (count_list (authorized_workers s) w) a))
     \<and> attestation_counts s rid = Some 1"

definition unattested :: "request_pool \<Rightarrow> bytes \<Rightarrow> bool" where
  "unattested s rid \<longleftrightarrow>
     (\<forall>w. partial_attestations s (rid, w) = None)
     \<and> fulfilled_attestations s rid = None \<and> attestation_counts s rid = None"

definition attest_inv :: "request_pool \<Rightarrow> bool" where
  "attest_inv s \<longleftrightarrow> (\<forall>rid. unattested s rid \<or> (\<exists>w a. attested_by s rid w a))"

definition pool_inv :: "(bytes \<Rightarrow> bytes) \<Rightarrow> request_pool \<Rightarrow> bool" where
  "pool_inv H s \<longleftrightarrow> ids_inv H s \<and> attest_inv s"

lemma pool_inv_new: "pool_new ws = Ok s \<Longrightarrow> pool_inv H s"
  by (auto simp: pool_new_def pool_inv_def ids_inv_def attest_inv_def unattested_def
      split: if_splits)

lemma unat_saturating_incr:
  fixes c :: u64
  assumes "unat c = min n (2 ^ 64 - 1)"
  shows "unat (saturating_add c 1) = min (Suc n) (2 ^ 64 - 1)"
  using assms by (simp add: unat_saturating_add min_def)

lemma ids_inv_add:
  assumes "ids_inv H s"
  shows "ids_inv H (snd (pool_add H now f w l s))"
  using assms unat_saturating_incr [of "pool_count s" "length (request_ids s)"]
  by (auto simp: ids_inv_def pool_add_def request_bytes_def Let_def)

lemma attest_inv_add: "attest_inv s \<Longrightarrow> attest_inv (snd (pool_add H now f w l s))"
  unfolding attest_inv_def
proof (intro allI)
  fix rid
  assume "\<forall>rid. unattested s rid \<or> (\<exists>w a. attested_by s rid w a)"
  then have "unattested s rid \<or> (\<exists>w a. attested_by s rid w a)" by blast
  then show "unattested (snd (pool_add H now f w l s)) rid
      \<or> (\<exists>w' a. attested_by (snd (pool_add H now f w l s)) rid w' a)"
    by (auto simp: pool_add_def unattested_def attested_by_def Let_def)
qed

lemma pool_inv_add: "pool_inv H s \<Longrightarrow> pool_inv H (snd (pool_add H now f w l s))"
  by (simp add: pool_inv_def ids_inv_add attest_inv_add)

lemma map_filter_single:
  "List.map_filter (\<lambda>x. if x = w then Some a else None) xs = replicate (count_list xs w) a"
  by (induction xs) (auto simp: List.map_filter_def)

lemma saturating_first: "saturating_add (0 :: u32) 1 = 1"
  by (simp add: saturating_add_def)

text \<open>
  The accepted submission, in one equation: with no attestation yet, the partial attestation is
  stored, the count becomes one and the threshold finalizes the request at once.
\<close>

lemma submit_accepted:
  fixes s :: request_pool and att :: bytes and caller :: account_id
  assumes "caller \<in> set (authorized_workers s)" and "requests s rid \<noteq> None"
    and "unattested s rid"
  defines "combined \<equiv> concat (replicate (count_list (authorized_workers s) caller) att)"
  shows "submit_partial_attestation H caller rid att s =
    (Ok (), s\<lparr>partial_attestations := (partial_attestations s)((rid, caller) \<mapsto> att),
             attestation_counts := (attestation_counts s)(rid \<mapsto> 1),
             fulfilled_attestations := (fulfilled_attestations s)(rid \<mapsto> combined),
             pool_events := pool_events s
               @ [PartialAttestationSubmitted rid caller 1,
                  RequestFulfilled rid (hash_attestation H combined)]\<rparr>)"
proof -
  have none: "\<And>w. partial_attestations s (rid, w) = None"
      "fulfilled_attestations s rid = None" "attestation_counts s rid = None"
    using assms(3) by (auto simp: unattested_def)
  have "(\<lambda>worker. ((partial_attestations s)((rid, caller) \<mapsto> att)) (rid, worker))
      = (\<lambda>x. if x = caller then Some att else None)"
    by (auto simp: none)
  then have "List.map_filter (\<lambda>worker. ((partial_attestations s)((rid, caller) \<mapsto> att)) (rid, worker))
      (authorized_workers s) = replicate (count_list (authorized_workers s) caller) att"
    by (simp only: map_filter_single)
  then show ?thesis
    using assms(1,2) none
    by (simp add: pool_defs combined_def THRESHOLD_def saturating_first)
qed

lemma submit_rejected:
  assumes "attested_by s rid w a"
  shows "submit_partial_attestation H caller rid att s =
    (Err (if caller \<in> set (authorized_workers s) then AlreadyFulfilled else Pool_Unauthorized), s)"
  using assms by (auto simp: submit_partial_attestation_def attested_by_def)

lemma pool_inv_submit:
  assumes "pool_inv H s"
  shows "pool_inv H (snd (submit_partial_attestation H caller rid att s))"
proof (cases "caller \<in> set (authorized_workers s) \<and> requests s rid \<noteq> None \<and> unattested s rid")
  case True
  with assms show ?thesis
    by (fastforce simp: submit_accepted pool_inv_def ids_inv_def attest_inv_def unattested_def
        attested_by_def)
next
  case False
  with assms have "snd (submit_partial_attestation H caller rid att s) = s"
    by (auto simp: submit_partial_attestation_def pool_inv_def attest_inv_def
        dest!: spec [of _ rid] dest: submit_rejected simp: attested_by_def)
  with assms show ?thesis by simp
qed

text \<open>An error leaves the storage and the events as they were.\<close>

lemma pool_add_Err_unchanged: "pool_add H now f w l s = (Err e, t) \<Longrightarrow> t = s"
  by (auto simp: pool_add_def Let_def split: if_splits)

lemma submit_Err_unchanged: "submit_partial_attestation H c rid att s = (Err e, t) \<Longrightarrow> t = s"
  by (auto simp: pool_defs pure_action_def split: if_splits)


section \<open>Reachable pools\<close>

text \<open>One step is one message that may write, with any caller, arguments and time.\<close>

inductive pool_step :: "(bytes \<Rightarrow> bytes) \<Rightarrow> request_pool \<Rightarrow> request_pool \<Rightarrow> bool" for H where
  add_step: "pool_add H now f w l s = (r, t) \<Longrightarrow> pool_step H s t"
| submit_step: "submit_partial_attestation H caller rid att s = (r, t) \<Longrightarrow> pool_step H s t"

lemma pool_step_inv: "pool_step H s t \<Longrightarrow> pool_inv H s \<Longrightarrow> pool_inv H t"
  by (induction rule: pool_step.induct) (metis pool_inv_add pool_inv_submit snd_conv)+

lemma pool_add_step: "pool_step H s (snd (pool_add H now f w l s))"
  by (rule add_step) (rule surjective_pairing)

lemma pool_submit_step: "pool_step H s (snd (submit_partial_attestation H caller rid att s))"
  by (rule submit_step) (rule surjective_pairing)

text \<open>What each message does to a request, a final attestation and the listing.\<close>

lemma add_keeps_request:
  "requests s rid = Some r \<Longrightarrow> requests (snd (pool_add H now f w l s)) rid = Some r"
  by (auto simp: pool_add_def Let_def)

lemma submit_requests [simp]:
  "requests (snd (submit_partial_attestation H c rid att s)) = requests s"
  "request_ids (snd (submit_partial_attestation H c rid att s)) = request_ids s"
  "authorized_workers (snd (submit_partial_attestation H c rid att s)) = authorized_workers s"
  by (simp_all add: pool_defs pure_action_def)

lemma add_attestations [simp]:
  "fulfilled_attestations (snd (pool_add H now f w l s)) = fulfilled_attestations s"
  "partial_attestations (snd (pool_add H now f w l s)) = partial_attestations s"
  "authorized_workers (snd (pool_add H now f w l s)) = authorized_workers s"
  by (simp_all add: pool_add_def Let_def)

lemma submit_keeps_fulfilled:
  "fulfilled_attestations s rid = Some a \<Longrightarrow>
   fulfilled_attestations (snd (submit_partial_attestation H c rid' att s)) rid = Some a"
  by (auto simp: pool_defs pure_action_def)

lemma submit_keeps_partial:
  "partial_attestations s k = Some a \<Longrightarrow>
   partial_attestations (snd (submit_partial_attestation H c rid' att s)) k = Some a"
  by (auto simp: pool_defs pure_action_def)

lemma read_all_add:
  assumes "ids_inv H s"
  shows "pool_read_all (snd (pool_add H now f w l s)) = pool_read_all s @
    (if fst (pool_add H now f w l s) = Ok ()
     then [\<lparr>rq_filename = f, rq_witness_hex = w, rq_location = l\<rparr>] else [])"
proof (cases "requests s (hash_request H (data_bytes f @ data_bytes w @ data_bytes l))")
  case None
  let ?rid = "hash_request H (data_bytes f @ data_bytes w @ data_bytes l)"
  let ?r = "\<lparr>rq_filename = f, rq_witness_hex = w, rq_location = l\<rparr>"
  have "?rid \<notin> set (request_ids s)" using None assms by (auto simp: ids_inv_def)
  then have "List.map_filter ((requests s)(?rid \<mapsto> ?r)) (request_ids s)
      = List.map_filter (requests s) (request_ids s)"
    by (intro map_filter_agree) auto
  with None show ?thesis
    by (simp add: pool_read_all_def pool_add_def Let_def List.map_filter_def)
next
  case (Some r)
  then show ?thesis by (simp add: pool_read_all_def pool_add_def Let_def)
qed

lemma read_all_submit:
  "pool_read_all (snd (submit_partial_attestation H c rid att s)) = pool_read_all s"
  by (simp add: pool_read_all_def)

lemma pool_step_cases:
  assumes "pool_step H s t"
  obtains (add) now f w l where "t = snd (pool_add H now f w l s)"
    | (submit) c rid att where "t = snd (submit_partial_attestation H c rid att s)"
  using assms by (cases rule: pool_step.cases) (metis snd_conv)+

lemma pool_step_grows:
  "pool_inv H s \<Longrightarrow> pool_step H s t \<Longrightarrow> \<exists>new. pool_read_all t = pool_read_all s @ new"
  by (erule pool_step_cases) (auto simp: pool_inv_def read_all_add read_all_submit)

interpretation pool_log: growing_log "\<lambda>s. \<exists>ws. pool_new ws = Ok s" "pool_step H" "pool_inv H"
  pool_read_all for H
  by unfold_locales (auto intro: pool_inv_new pool_step_inv pool_step_grows)

interpretation pool_requests: write_once_map requests "pool_step H" for H
  by unfold_locales (auto elim!: pool_step_cases simp: add_keeps_request)

interpretation pool_final: write_once_map "\<lambda>s rid. get_attestation rid s" "pool_step H" for H
  by unfold_locales
    (auto elim!: pool_step_cases simp: get_attestation_def submit_keeps_fulfilled)

interpretation pool_partial: write_once_map partial_attestations "pool_step H" for H
  by unfold_locales (auto elim!: pool_step_cases simp: submit_keeps_partial)

lemma pool_reachable_inv: "pool_new ws = Ok s0 \<Longrightarrow> (pool_step H)\<^sup>*\<^sup>* s0 s \<Longrightarrow> pool_inv H s"
  using pool_log.reachable_inv by blast


text \<open>
  The listing and the identifiers go together, so a request's bytes occur in it once, and the
  contract refuses every request with the bytes of one it lists.
\<close>

lemma read_all_hashed:
  assumes "ids_inv H s"
  shows "map (\<lambda>r. hash_request H (request_bytes r)) (pool_read_all s) = request_ids s"
proof -
  have "map (\<lambda>r. hash_request H (request_bytes r)) (List.map_filter (requests s) ids) = ids"
    if "set ids \<subseteq> dom (requests s)" for ids
    using that assms
    by (induction ids) (auto simp: ids_inv_def List.map_filter_def dom_def)
  then show ?thesis using assms by (simp add: pool_read_all_def ids_inv_def)
qed

lemma read_all_unique:
  assumes "ids_inv H s" and "r \<in> set (pool_read_all s)"
  shows "filter (\<lambda>x. request_bytes x = request_bytes r) (pool_read_all s) = [r]"
proof -
  have "distinct (map (\<lambda>r. hash_request H (request_bytes r)) (pool_read_all s))"
    using assms(1) by (simp add: read_all_hashed ids_inv_def)
  then have "distinct (map (\<lambda>r. hash_request H (request_bytes r)) xs) \<Longrightarrow> r \<in> set xs \<Longrightarrow>
      filter (\<lambda>x. request_bytes x = request_bytes r) xs = [r]" for xs
    by (induction xs) (auto simp: filter_empty_conv, metis imageI)
  with assms show ?thesis by (simp add: read_all_hashed ids_inv_def)
qed

lemma add_refused:
  assumes "ids_inv H s" and "r \<in> set (pool_read_all s)"
    and "data_bytes f @ data_bytes x @ data_bytes l = request_bytes r"
  shows "pool_add H now f x l s = (Err RequestAlreadyExists, s)"
proof -
  have "hash_request H (request_bytes r) \<in> set (request_ids s)"
    using assms(2) unfolding read_all_hashed [OF assms(1), symmetric] by auto
  then show ?thesis
    using assms(1,3) by (auto simp: pool_add_def Let_def ids_inv_def)
qed


section \<open>A run\<close>

text \<open>
  A pool with two workers, one request and one accepted attestation, on the identity as hash:
  the inputs of the witnesses.
\<close>

definition demo_pool0 :: request_pool where
  "demo_pool0 = \<lparr>requests = Map.empty, request_ids = [], partial_attestations = Map.empty,
     attestation_counts = Map.empty, fulfilled_attestations = Map.empty,
     authorized_workers = [[1], [2]], pool_count = 0, pool_events = []\<rparr>"

definition demo_pool1 :: request_pool where
  "demo_pool1 = snd (pool_add (\<lambda>b. b) 5 (GenericData [10]) (GenericData [11]) (GenericData [12])
     demo_pool0)"

definition demo_pool2 :: request_pool where
  "demo_pool2 = snd (submit_partial_attestation (\<lambda>b. b) [1] [10, 11, 12] [42] demo_pool1)"

lemmas demo_defs = demo_pool0_def demo_pool1_def demo_pool2_def

lemma demo_new: "pool_new [[1], [2]] = Ok demo_pool0"
  by (simp add: pool_new_def TOTAL_WORKERS_def demo_pool0_def)

lemma demo_step1: "pool_step (\<lambda>b. b) demo_pool0 demo_pool1"
  unfolding demo_pool1_def by (rule pool_add_step)

lemma demo_step2: "pool_step (\<lambda>b. b) demo_pool1 demo_pool2"
  unfolding demo_pool2_def by (rule pool_submit_step)

lemma demo_reach1: "(pool_step (\<lambda>b. b))\<^sup>*\<^sup>* demo_pool0 demo_pool1"
  using demo_step1 by blast

lemma demo_reach2: "(pool_step (\<lambda>b. b))\<^sup>*\<^sup>* demo_pool0 demo_pool2"
  using demo_reach1 demo_step2 by (rule rtranclp.rtrancl_into_rtrancl)

lemma demo_submit:
  "submit_partial_attestation (\<lambda>b. b) [1] [10, 11, 12] [42] demo_pool1 = (Ok (), demo_pool2)"
  by (simp add: demo_defs pool_add_def hash_request_def pool_defs pure_action_def
      THRESHOLD_def saturating_first)


section \<open>Properties\<close>

text \<open>
  C12. Nothing accepted is ever rewritten: whatever messages follow, a stored request, a stored
  partial attestation and a final attestation keep their values, and the listing keeps every
  request at its position.
\<close>

theorem pool_is_append_only:
  assumes "pool_new ws = Ok s0" and "(pool_step H)\<^sup>*\<^sup>* s0 s" and "(pool_step H)\<^sup>*\<^sup>* s t"
  shows "requests s \<subseteq>\<^sub>m requests t
    \<and> partial_attestations s \<subseteq>\<^sub>m partial_attestations t
    \<and> (\<lambda>rid. get_attestation rid s) \<subseteq>\<^sub>m (\<lambda>rid. get_attestation rid t)
    \<and> (\<exists>new. pool_read_all t = pool_read_all s @ new)"
  using pool_requests.steps_keep [OF assms(3)] pool_partial.steps_keep [OF assms(3)]
    pool_final.steps_keep [OF assms(3)]
    pool_log.steps_grow [OF assms(3) pool_reachable_inv [OF assms(1,2)]]
  by (force simp: map_le_def dom_def)

theorem pool_is_append_only_witness:
  "requests demo_pool1 \<subseteq>\<^sub>m requests demo_pool2
   \<and> (\<exists>new. pool_read_all demo_pool2 = pool_read_all demo_pool1 @ new)"
  using pool_is_append_only [OF demo_new demo_reach1, of demo_pool2] demo_step2 by blast

text \<open>
  C9. What a submission returns in a reachable pool: the checks in the code's order, and never
  \<open>AlreadyAttested\<close>, because with \<open>THRESHOLD\<close> one the first attestation fulfils the request.
\<close>

theorem submit_outcome_exact:
  assumes "pool_new ws = Ok s0" and "(pool_step H)\<^sup>*\<^sup>* s0 s"
  shows "fst (submit_partial_attestation H caller rid att s) =
    (if caller \<notin> set (authorized_workers s) then Err Pool_Unauthorized
     else if requests s rid = None then Err RequestNotFound
     else if get_attestation rid s \<noteq> None then Err AlreadyFulfilled
     else Ok ())"
proof (cases "unattested s rid")
  case True
  then have "get_attestation rid s = None" by (simp add: get_attestation_def unattested_def)
  with True show ?thesis
    by (cases "caller \<in> set (authorized_workers s) \<and> requests s rid \<noteq> None")
      (simp_all add: submit_accepted, auto simp: submit_partial_attestation_def)
next
  case False
  then obtain w a where w: "attested_by s rid w a"
    using pool_reachable_inv [OF assms] by (auto simp: pool_inv_def attest_inv_def)
  from submit_rejected [OF this] w show ?thesis
    by (auto simp: get_attestation_def attested_by_def)
qed

theorem submit_outcome_exact_witness:
  "fst (submit_partial_attestation (\<lambda>b. b) [2] [10, 11, 12] [7] demo_pool2) = Err AlreadyFulfilled"
  using submit_outcome_exact [OF demo_new demo_reach2, of "[2]" "[10, 11, 12]" "[7]"]
  by (simp add: demo_defs pool_add_def hash_request_def pool_defs pure_action_def
      THRESHOLD_def saturating_first get_attestation_def)

text \<open>
  An accepted submission is the final attestation: when the constructor was given distinct
  workers, \<open>get_attestation\<close> returns exactly the submitted bytes and the count is one; every
  other request keeps its attestation.
\<close>

lemma submit_fulfils:
  assumes "pool_new ws = Ok s0" and "(pool_step H)\<^sup>*\<^sup>* s0 s" and "distinct (authorized_workers s)"
    and "submit_partial_attestation H caller rid att s = (Ok (), t)"
  shows "get_attestation rid t = Some att \<and> get_attestation_count rid t = 1
    \<and> (\<forall>rid'. rid' \<noteq> rid \<longrightarrow> get_attestation rid' t = get_attestation rid' s
              \<and> get_attestation_count rid' t = get_attestation_count rid' s)"
proof -
  have guards: "caller \<in> set (authorized_workers s)" "requests s rid \<noteq> None"
      "fulfilled_attestations s rid = None"
    using assms(4) by (auto simp: submit_partial_attestation_def split: if_splits)
  moreover have "unattested s rid"
    using pool_reachable_inv [OF assms(1,2)] guards(3)
    by (auto simp: pool_inv_def attest_inv_def attested_by_def)
  moreover have "count_list (authorized_workers s) caller = 1"
    using guards(1) assms(3) by (simp add: count_list_distinct)
  ultimately show ?thesis
    using assms(4)
    by (auto simp: submit_accepted get_attestation_def get_attestation_count_def)
qed

lemma submit_fulfils_witness:
  "get_attestation [10, 11, 12] demo_pool2 = Some [42]
   \<and> get_attestation_count [10, 11, 12] demo_pool2 = 1"
proof -
  have "distinct (authorized_workers demo_pool1)"
    by (simp add: demo_pool1_def demo_pool0_def)
  from submit_fulfils [OF demo_new demo_reach1 this demo_submit] show ?thesis by simp
qed

text \<open>
  The bookkeeping of a reachable pool: \<open>read_all\<close> has one entry per id, \<open>count\<close> is their
  number (at the greatest \<open>u64\<close> it stays there), every request is stored under the hash of
  its bytes, and no request ever has more than one attestation.
\<close>

lemma pool_bookkeeping:
  assumes "pool_new ws = Ok s0" and "(pool_step H)\<^sup>*\<^sup>* s0 s"
  shows "length (pool_read_all s) = card (dom (requests s))
    \<and> unat (pool_count s) = min (length (pool_read_all s)) (2 ^ 64 - 1)
    \<and> (\<forall>rid r. requests s rid = Some r \<longrightarrow> rid = hash_request H (request_bytes r))
    \<and> (\<forall>rid. unat (get_attestation_count rid s) \<le> 1)"
proof -
  have inv: "ids_inv H s" "attest_inv s"
    using pool_reachable_inv [OF assms] by (auto simp: pool_inv_def)
  have "length (pool_read_all s) = length (request_ids s)"
    unfolding pool_read_all_def using inv(1)
    by (intro length_map_filter_total) (auto simp: ids_inv_def)
  moreover have "length (request_ids s) = card (dom (requests s))"
    using inv(1) by (metis distinct_card ids_inv_def)
  moreover have "unat (get_attestation_count rid s) \<le> 1" for rid
    using inv(2) by (auto simp: attest_inv_def get_attestation_count_def unattested_def
        attested_by_def split: option.splits dest!: spec [of _ rid])
  ultimately show ?thesis
    using inv(1) by (simp add: ids_inv_def)
qed

lemma pool_bookkeeping_witness:
  "length (pool_read_all demo_pool2) = card (dom (requests demo_pool2))
   \<and> unat (get_attestation_count [10, 11, 12] demo_pool2) \<le> 1"
  using pool_bookkeeping [OF demo_new demo_reach2] by blast

text \<open>
  The id of a request is the hash of its three fields joined without their lengths: a second
  request whose fields are cut differently but join to the same bytes is taken for the first one
  and refused, for every hash function.
\<close>

lemma add_ambiguous_boundary:
  assumes "data_bytes f @ data_bytes w @ data_bytes l = data_bytes f' @ data_bytes w' @ data_bytes l'"
  shows "pool_add H now' f' w' l' (snd (pool_add H now f w l s))
    = (Err RequestAlreadyExists, snd (pool_add H now f w l s))"
  using assms by (simp add: pool_add_def Let_def)

lemma add_ambiguous_boundary_witness:
  "fst (pool_add (\<lambda>b. b) 6 (GenericData [1]) (GenericData [2, 3]) (GenericData [])
     (snd (pool_add (\<lambda>b. b) 5 (GenericData [1, 2]) (GenericData [3]) (GenericData []) demo_pool0)))
   = Err RequestAlreadyExists"
  using add_ambiguous_boundary [of "GenericData [1, 2]" "GenericData [3]" "GenericData []"
      "GenericData [1]" "GenericData [2, 3]" "GenericData []" "\<lambda>b. b" 6 5 demo_pool0]
  by simp

end
