(* ===== verification/Pool_Table.thy ===== *)
theory Pool_Table
  imports Request_Pool
begin

text \<open>
  What the pool contract is, seen from outside: with a threshold of one, a table of requests in the
  order of their arrival, each with the first attestation that an authorized worker gave it. The
  contract's five mappings, its list of identifiers and its counter implement this table.
\<close>

section \<open>Calls and replies\<close>

datatype pool_call =
    Call_add u64 generic_data generic_data generic_data
  | Call_list
  | Call_count
  | Call_submit account_id bytes bytes
  | Call_attestation bytes
  | Call_attestation_count bytes

datatype pool_reply =
    Reply_done "(unit, pool_error) outcome"
  | Reply_list "pool_request list"
  | Reply_count nat
  | Reply_attestation "bytes option"

fun pool_exec :: "(bytes \<Rightarrow> bytes) \<Rightarrow> pool_call \<Rightarrow> request_pool \<Rightarrow> pool_reply \<times> request_pool" where
  "pool_exec H (Call_add now f w l) s = map_prod Reply_done id (pool_add H now f w l s)"
| "pool_exec H Call_list s = (Reply_list (pool_read_all s), s)"
| "pool_exec H Call_count s = (Reply_count (unat (pool_count s)), s)"
| "pool_exec H (Call_submit caller rid att) s = map_prod Reply_done id (submit_partial_attestation H caller rid att s)"
| "pool_exec H (Call_attestation rid) s = (Reply_attestation (get_attestation rid s), s)"
| "pool_exec H (Call_attestation_count rid) s = (Reply_count (unat (get_attestation_count rid s)), s)"


section \<open>The table\<close>

record pool_table =
  pt_workers :: "account_id set"
  pt_rows :: "(bytes \<times> pool_request \<times> bytes option) list"

definition table_row :: "pool_table \<Rightarrow> bytes \<Rightarrow> (pool_request \<times> bytes option) option" where
  "table_row t = map_of (pt_rows t)"

definition table_add :: "(bytes \<Rightarrow> bytes) \<Rightarrow> pool_request \<Rightarrow> (pool_table, unit, pool_error) action" where
  "table_add H r t =
     (if table_row t (H (request_bytes r)) \<noteq> None then (Err RequestAlreadyExists, t)
      else (Ok (), t\<lparr>pt_rows := pt_rows t @ [(H (request_bytes r), r, None)]\<rparr>))"

definition table_attest :: "account_id \<Rightarrow> bytes \<Rightarrow> bytes \<Rightarrow> (pool_table, unit, pool_error) action" where
  "table_attest caller rid att t =
     (if caller \<notin> pt_workers t then (Err Pool_Unauthorized, t)
      else (case table_row t rid of
              None \<Rightarrow> (Err RequestNotFound, t)
            | Some (_, Some _) \<Rightarrow> (Err AlreadyFulfilled, t)
            | Some (_, None) \<Rightarrow>
                (Ok (), t\<lparr>pt_rows := map (\<lambda>(i, r, a). if i = rid then (i, r, Some att) else (i, r, a)) (pt_rows t)\<rparr>)))"

definition table_attestation :: "pool_table \<Rightarrow> bytes \<Rightarrow> bytes option" where
  "table_attestation t rid = Option.bind (table_row t rid) snd"

fun table_exec :: "(bytes \<Rightarrow> bytes) \<Rightarrow> pool_call \<Rightarrow> pool_table \<Rightarrow> pool_reply \<times> pool_table" where
  "table_exec H (Call_add now f w l) t =
     map_prod Reply_done id (table_add H \<lparr>rq_filename = f, rq_witness_hex = w, rq_location = l\<rparr> t)"
| "table_exec H Call_list t = (Reply_list (map (fst \<circ> snd) (pt_rows t)), t)"
| "table_exec H Call_count t = (Reply_count (min (length (pt_rows t)) (2 ^ 64 - 1)), t)"
| "table_exec H (Call_submit caller rid att) t = map_prod Reply_done id (table_attest caller rid att t)"
| "table_exec H (Call_attestation rid) t = (Reply_attestation (table_attestation t rid), t)"
| "table_exec H (Call_attestation_count rid) t =
     (Reply_count (if table_attestation t rid = None then 0 else 1), t)"


section \<open>The abstraction\<close>

definition pool_abs :: "request_pool \<Rightarrow> pool_table" where
  "pool_abs s = \<lparr>pt_workers = set (authorized_workers s),
     pt_rows = map (\<lambda>rid. (rid, the (requests s rid), fulfilled_attestations s rid)) (request_ids s)\<rparr>"

text \<open>The constructor does not check that the workers differ; the table supposes it.\<close>

definition table_inv :: "(bytes \<Rightarrow> bytes) \<Rightarrow> request_pool \<Rightarrow> bool" where
  "table_inv H s \<longleftrightarrow> pool_inv H s \<and> distinct (authorized_workers s)"

lemma table_row_abs:
  assumes "ids_inv H s"
  shows "table_row (pool_abs s) rid = map_option (\<lambda>r. (r, fulfilled_attestations s rid)) (requests s rid)"
proof (cases "requests s rid")
  case (Some r)
  then have "rid \<in> set (request_ids s)" using assms by (auto simp: ids_inv_def)
  then show ?thesis
    by (simp add: table_row_def pool_abs_def map_of_map_restrict Some)
next
  case None
  then have "rid \<notin> set (request_ids s)" using assms by (auto simp: ids_inv_def)
  then show ?thesis
    by (simp add: table_row_def pool_abs_def map_of_map_restrict None)
qed

lemma fulfilled_requested:
  assumes "attest_inv s" and "requests s rid = None"
  shows "fulfilled_attestations s rid = None \<and> attestation_counts s rid = None"
  using assms by (auto simp: attest_inv_def unattested_def attested_by_def dest!: spec [of _ rid])

lemma table_attestation_abs:
  assumes "pool_inv H s"
  shows "table_attestation (pool_abs s) rid = get_attestation rid s"
  using assms table_row_abs [of H s rid] fulfilled_requested [of s rid]
  by (cases "requests s rid") (auto simp: table_attestation_def get_attestation_def pool_inv_def)

lemma pool_add_abs:
  assumes "pool_inv H s"
  shows "map_prod id pool_abs (pool_add H now f w l s)
    = table_add H \<lparr>rq_filename = f, rq_witness_hex = w, rq_location = l\<rparr> (pool_abs s)"
proof (cases "requests s (hash_request H (data_bytes f @ data_bytes w @ data_bytes l))")
  case None
  let ?rid = "hash_request H (data_bytes f @ data_bytes w @ data_bytes l)"
  have "?rid \<notin> set (request_ids s)" using None assms by (auto simp: ids_inv_def pool_inv_def)
  moreover have "fulfilled_attestations s ?rid = None"
    using fulfilled_requested [of s ?rid] None assms by (simp add: pool_inv_def)
  ultimately show ?thesis
    using None assms table_row_abs [of H s ?rid]
    by (auto simp: pool_add_def table_add_def pool_inv_def request_bytes_def hash_request_def pool_abs_def Let_def)
next
  case (Some r)
  then show ?thesis
    using assms table_row_abs [of H s "hash_request H (data_bytes f @ data_bytes w @ data_bytes l)"]
    by (simp add: pool_add_def table_add_def pool_inv_def request_bytes_def hash_request_def Let_def)
qed

lemma pool_submit_abs:
  assumes "table_inv H s"
  shows "map_prod id pool_abs (submit_partial_attestation H caller rid att s) = table_attest caller rid att (pool_abs s)"
proof -
  have inv: "ids_inv H s" "attest_inv s" "distinct (authorized_workers s)"
    using assms by (auto simp: table_inv_def pool_inv_def)
  have w: "pt_workers (pool_abs s) = set (authorized_workers s)" by (simp add: pool_abs_def)
  show ?thesis
  proof (cases "caller \<in> set (authorized_workers s)")
    case caller: True
    show ?thesis
    proof (cases "requests s rid")
      case None
      then show ?thesis
        using caller by (simp add: submit_partial_attestation_def table_attest_def w table_row_abs [OF inv(1)])
    next
      case (Some r)
      show ?thesis
      proof (cases "unattested s rid")
        case True
        have c: "concat (replicate (count_list (authorized_workers s) caller) att) = att"
          using count_list_distinct [OF inv(3) caller] by simp
        have "submit_partial_attestation H caller rid att s =
            (Ok (), s\<lparr>partial_attestations := (partial_attestations s)((rid, caller) \<mapsto> att),
               attestation_counts := (attestation_counts s)(rid \<mapsto> 1),
               fulfilled_attestations := (fulfilled_attestations s)(rid \<mapsto> att),
               pool_events := pool_events s
                 @ [PartialAttestationSubmitted rid caller 1, RequestFulfilled rid (hash_attestation H att)]\<rparr>)"
          using submit_accepted [OF caller _ True, of H att] Some unfolding c by simp
        moreover have "table_row (pool_abs s) rid = Some (r, None)"
          using True by (simp add: table_row_abs [OF inv(1)] Some unattested_def)
        ultimately show ?thesis
          using caller by (simp add: table_attest_def w) (simp add: pool_abs_def)
      next
        case False
        then obtain v a where a: "attested_by s rid v a"
          using inv(2) by (auto simp: attest_inv_def)
        then obtain b where b: "fulfilled_attestations s rid = Some b" by (auto simp: attested_by_def)
        show ?thesis
          using submit_rejected [OF a, of H caller att] caller
          by (simp add: table_attest_def w table_row_abs [OF inv(1)] Some b)
      qed
    qed
  qed (simp add: submit_partial_attestation_def table_attest_def w)
qed

lemma count_abs:
  assumes "pool_inv H s"
  shows "unat (get_attestation_count rid s) = (if get_attestation rid s = None then 0 else 1)"
proof -
  have "unattested s rid \<or> (\<exists>w a. attested_by s rid w a)"
    using assms by (simp add: pool_inv_def attest_inv_def)
  then show ?thesis
    by (auto simp: get_attestation_count_def get_attestation_def unattested_def attested_by_def)
qed

lemma listing_abs:
  assumes "ids_inv H s"
  shows "pool_read_all s = map (fst \<circ> snd) (pt_rows (pool_abs s))"
proof -
  have "List.map_filter (requests s) rids = map (\<lambda>rid. the (requests s rid)) rids"
    if "set rids \<subseteq> dom (requests s)" for rids
    using that by (induction rids) (auto simp: List.map_filter_def)
  then show ?thesis
    using assms by (simp add: pool_read_all_def pool_abs_def ids_inv_def comp_def)
qed

lemma table_inv_exec: "table_inv H s \<Longrightarrow> table_inv H (snd (pool_exec H c s))"
  by (cases c) (simp_all add: table_inv_def pool_inv_add pool_inv_submit)

lemma pool_exec_refines:
  assumes "table_inv H s"
  shows "map_prod id pool_abs (pool_exec H c s) = table_exec H c (pool_abs s)"
proof -
  have inv: "pool_inv H s" "ids_inv H s" using assms by (auto simp: table_inv_def pool_inv_def)
  show ?thesis
  proof (cases c)
    case (Call_add now f w l)
    then show ?thesis
      using pool_add_abs [OF inv(1), of now f w l, symmetric]
      by (cases "pool_add H now f w l s") simp
  next
    case (Call_submit caller rid att)
    then show ?thesis
      using pool_submit_abs [OF assms, of caller rid att, symmetric]
      by (cases "submit_partial_attestation H caller rid att s") simp
  next
    case Call_count
    then show ?thesis using inv(2) by (simp add: ids_inv_def pool_abs_def)
  qed (simp_all add: listing_abs [OF inv(2)] table_attestation_abs [OF inv(1)] count_abs [OF inv(1)])
qed

interpretation pool_machine: machine_refinement "pool_exec H" "table_exec H" "table_inv H" id pool_abs for H
  by unfold_locales (rule table_inv_exec, assumption, rule pool_exec_refines)


section \<open>Properties\<close>

text \<open>
  C6. The pool contract refines the table: for every sequence of messages to a new pool of different
  workers, whoever calls and in whatever order, the replies are those of the table, errors
  included, and so is the final state.
\<close>

theorem pool_refines_table:
  assumes "pool_new workers = Ok s0" and "distinct workers"
  shows "map_prod id pool_abs (run_calls (pool_exec H) cs s0)
    = run_calls (table_exec H) cs \<lparr>pt_workers = set workers, pt_rows = []\<rparr>"
proof -
  have "authorized_workers s0 = workers" and a: "pool_abs s0 = \<lparr>pt_workers = set workers, pt_rows = []\<rparr>"
    using assms(1) by (auto simp: pool_new_def pool_abs_def split: if_splits)
  then have "table_inv H s0"
    using pool_inv_new [OF assms(1)] assms(2) by (simp add: table_inv_def)
  from pool_machine.run_refines [OF this, of cs] show ?thesis by (simp add: a list.map_id0)
qed

theorem pool_refines_table_witness:
  "fst (run_calls (pool_exec (\<lambda>b. b)) [Call_add 5 (GenericData [1]) (GenericData [2]) (GenericData [3]),
      Call_submit [1] [1, 2, 3] [42], Call_submit [2] [1, 2, 3] [43], Call_attestation [1, 2, 3]] demo_pool0)
   = [Reply_done (Ok ()), Reply_done (Ok ()), Reply_done (Err AlreadyFulfilled), Reply_attestation (Some [42])]"
proof -
  let ?cs = "[Call_add 5 (GenericData [1]) (GenericData [2]) (GenericData [3]),
      Call_submit [1] [1, 2, 3] [42], Call_submit [2] [1, 2, 3] [43], Call_attestation [1, 2, 3]]"
  have "map_prod id pool_abs (run_calls (pool_exec (\<lambda>b. b)) ?cs demo_pool0)
      = run_calls (table_exec (\<lambda>b. b)) ?cs \<lparr>pt_workers = set [[1], [2]], pt_rows = []\<rparr>"
    by (rule pool_refines_table [OF demo_new]) simp
  then have "fst (run_calls (pool_exec (\<lambda>b. b)) ?cs demo_pool0)
      = fst (run_calls (table_exec (\<lambda>b. b)) ?cs \<lparr>pt_workers = set [[1], [2]], pt_rows = []\<rparr>)"
    by (metis fst_map_prod id_apply)
  then show ?thesis
    by (simp add: table_add_def table_row_def table_attest_def table_attestation_def request_bytes_def)
qed

end
