(* ===== verification/Rust_Str.thy ===== *)
theory Rust_Str
  imports Prelude
begin

text \<open>
  Rust's strings and the operations of the standard library on them that the sources use. A
  \<open>&str\<close> is its UTF-8 bytes, one HOL \<open>char\<close> per byte; lengths and indices are byte counts, as
  in Rust. Little-endian bytes and decimal text of integers are here too.
\<close>

section \<open>Bytes and strings\<close>

definition byte_of_char :: "char \<Rightarrow> byte" where
  "byte_of_char c = of_nat (of_char c)"

definition char_of_byte :: "byte \<Rightarrow> char" where
  "char_of_byte b = char_of (unat b)"

text \<open>\<open>as_bytes\<close>\<close>

definition as_bytes :: "string \<Rightarrow> bytes" where
  "as_bytes s = map byte_of_char s"

lemma of_char_less: "(of_char c :: nat) < 256"
  by (simp add: of_char_def)

lemma char_of_byte_of_char [simp]: "char_of_byte (byte_of_char c) = c"
  by (simp add: char_of_byte_def byte_of_char_def unat_of_nat of_char_less)

lemma byte_of_char_of_byte [simp]: "byte_of_char (char_of_byte b) = b"
proof -
  have "unat b < 2 ^ LENGTH(8)" by (rule unsigned_less)
  then show ?thesis by (simp add: char_of_byte_def byte_of_char_def)
qed

lemma map_char_of_byte_as_bytes [simp]: "map char_of_byte (as_bytes s) = s"
  by (simp add: as_bytes_def comp_def)

lemma as_bytes_map_char_of_byte [simp]: "as_bytes (map char_of_byte bs) = bs"
  by (simp add: as_bytes_def comp_def)

lemma length_as_bytes [simp]: "length (as_bytes s) = length s"
  by (simp add: as_bytes_def)

lemma as_bytes_inject [simp]: "as_bytes s = as_bytes t \<longleftrightarrow> s = t"
  by (metis map_char_of_byte_as_bytes)

lemma as_bytes_append: "as_bytes (s @ t) = as_bytes s @ as_bytes t"
  by (simp add: as_bytes_def)

text \<open>
  \<open>String::from_utf8\<close>: the well-formed UTF-8 byte sequences. \<open>cont\<close> is a continuation byte; the
  ranges after \<open>E0\<close>, \<open>ED\<close>, \<open>F0\<close> and \<open>F4\<close> exclude overlong forms, surrogates and values above
  the last code point.
\<close>

definition cont :: "byte \<Rightarrow> bool" where
  "cont b \<longleftrightarrow> 0x80 \<le> b \<and> b \<le> 0xBF"

fun valid_utf8 :: "bytes \<Rightarrow> bool" where
  "valid_utf8 [] = True"
| "valid_utf8 (a # bs) =
     (if a \<le> 0x7F then valid_utf8 bs
      else case bs of
        [] \<Rightarrow> False
      | b # cs \<Rightarrow>
          if 0xC2 \<le> a \<and> a \<le> 0xDF then cont b \<and> valid_utf8 cs
          else case cs of
            [] \<Rightarrow> False
          | c # ds \<Rightarrow>
              if 0xE0 \<le> a \<and> a \<le> 0xEF
              then cont b \<and> (a = 0xE0 \<longrightarrow> 0xA0 \<le> b) \<and> (a = 0xED \<longrightarrow> b \<le> 0x9F)
                   \<and> cont c \<and> valid_utf8 ds
              else case ds of
                [] \<Rightarrow> False
              | d # es \<Rightarrow>
                  0xF0 \<le> a \<and> a \<le> 0xF4 \<and> cont b
                  \<and> (a = 0xF0 \<longrightarrow> 0x90 \<le> b) \<and> (a = 0xF4 \<longrightarrow> b \<le> 0x8F)
                  \<and> cont c \<and> cont d \<and> valid_utf8 es)"

definition from_utf8 :: "bytes \<Rightarrow> string option" where
  "from_utf8 bs = (if valid_utf8 bs then Some (map char_of_byte bs) else None)"

lemma valid_utf8_ascii: "\<forall>b \<in> set bs. b \<le> 0x7F \<Longrightarrow> valid_utf8 bs"
  by (induction bs) auto

lemma from_utf8_as_bytes: "valid_utf8 (as_bytes s) \<Longrightarrow> from_utf8 (as_bytes s) = Some s"
  by (simp add: from_utf8_def)


section \<open>Splitting and trimming\<close>

text \<open>\<open>split\<close> with a string pattern: the pieces between its non-overlapping occurrences.\<close>

definition starts_with :: "string \<Rightarrow> string \<Rightarrow> bool" where
  "starts_with p s \<longleftrightarrow> take (length p) s = p"

fun onto_first :: "char \<Rightarrow> string list \<Rightarrow> string list" where
  "onto_first c [] = [[c]]"
| "onto_first c (w # ws) = (c # w) # ws"

function split_str :: "string \<Rightarrow> string \<Rightarrow> string list" where
  "split_str d [] = [[]]"
| "split_str d (c # cs) =
     (if d \<noteq> [] \<and> starts_with d (c # cs)
      then [] # split_str d (drop (length d) (c # cs))
      else onto_first c (split_str d cs))"
  by pat_completeness auto
termination by (relation "measure (\<lambda>(d, s). length s)") auto

text \<open>\<open>split\<close> with a character.\<close>

fun split_char :: "char \<Rightarrow> string \<Rightarrow> string list" where
  "split_char d [] = [[]]"
| "split_char d (c # cs) =
     (if c = d then [] # split_char d cs else onto_first c (split_char d cs))"

lemma split_char_no: "d \<notin> set s \<Longrightarrow> split_char d s = [s]"
  by (induction s) auto

lemma split_char_append: "d \<notin> set s \<Longrightarrow> split_char d (s @ d # t) = s # split_char d t"
  by (induction s) auto

text \<open>
  \<open>trim\<close> removes Unicode white space at both ends: the UTF-8 sequences of the characters with
  property \<open>White_Space\<close>. A sequence starts with a lead byte, so a match at either end of a
  well-formed string is a whole character.
\<close>

definition ascii_ws :: "string list" where
  "ascii_ws = [[CHR 0x09], [CHR 0x0A], [CHR 0x0B], [CHR 0x0C], [CHR 0x0D], [CHR '' '']]"

definition multibyte_ws :: "string list" where
  "multibyte_ws =
     [[CHR 0xC2, CHR 0x85], [CHR 0xC2, CHR 0xA0], [CHR 0xE1, CHR 0x9A, CHR 0x80],
      [CHR 0xE2, CHR 0x80, CHR 0x80], [CHR 0xE2, CHR 0x80, CHR 0x81], [CHR 0xE2, CHR 0x80, CHR 0x82],
      [CHR 0xE2, CHR 0x80, CHR 0x83], [CHR 0xE2, CHR 0x80, CHR 0x84], [CHR 0xE2, CHR 0x80, CHR 0x85],
      [CHR 0xE2, CHR 0x80, CHR 0x86], [CHR 0xE2, CHR 0x80, CHR 0x87], [CHR 0xE2, CHR 0x80, CHR 0x88],
      [CHR 0xE2, CHR 0x80, CHR 0x89], [CHR 0xE2, CHR 0x80, CHR 0x8A], [CHR 0xE2, CHR 0x80, CHR 0xA8],
      [CHR 0xE2, CHR 0x80, CHR 0xA9], [CHR 0xE2, CHR 0x80, CHR 0xAF], [CHR 0xE2, CHR 0x81, CHR 0x9F],
      [CHR 0xE3, CHR 0x80, CHR 0x80]]"

definition white_space :: "string list" where
  "white_space = ascii_ws @ multibyte_ws"

function trim_with :: "string list \<Rightarrow> string \<Rightarrow> string" where
  "trim_with ws s =
     (case find (\<lambda>w. w \<noteq> [] \<and> starts_with w s) ws of
        None \<Rightarrow> s
      | Some w \<Rightarrow> trim_with ws (drop (length w) s))"
  by pat_completeness auto
termination
proof (relation "measure (\<lambda>(ws, s). length s)")
  fix ws :: "string list" and s w
  assume "find (\<lambda>w. w \<noteq> [] \<and> starts_with w s) ws = Some w"
  then have "w \<noteq> [] \<and> starts_with w s" by (auto simp: find_Some_iff)
  then have "0 < length w" and "s \<noteq> []" by (auto simp: starts_with_def)
  then show "((ws, drop (length w) s), ws, s) \<in> measure (\<lambda>(ws, s). length s)"
    by simp
qed simp

declare trim_with.simps [simp del]

definition trim :: "string \<Rightarrow> string" where
  "trim s = rev (trim_with (map rev white_space) (rev (trim_with white_space s)))"

text \<open>A string that starts with no first byte of a white space character is not trimmed there.\<close>

definition ws_free_start :: "string list \<Rightarrow> string \<Rightarrow> bool" where
  "ws_free_start ws s \<longleftrightarrow> s = [] \<or> hd s \<notin> hd ` set (filter (\<lambda>w. w \<noteq> []) ws)"

lemma trim_with_stable: "ws_free_start ws s \<Longrightarrow> trim_with ws s = s"
proof -
  assume free: "ws_free_start ws s"
  have "\<not> (w \<noteq> [] \<and> starts_with w s)" if "w \<in> set ws" for w
  proof
    assume w: "w \<noteq> [] \<and> starts_with w s"
    then have "s \<noteq> []" by (auto simp: starts_with_def)
    moreover have "hd s = hd w"
      using w by (cases w; cases s) (auto simp: starts_with_def)
    ultimately show False using free that w by (auto simp: ws_free_start_def)
  qed
  then have "find (\<lambda>w. w \<noteq> [] \<and> starts_with w s) ws = None"
    by (auto simp: find_None_iff)
  then show "trim_with ws s = s" by (simp add: trim_with.simps [of ws s])
qed

lemma trim_with_space:
  assumes "[CHR '' ''] \<in> set ws" and "\<forall>w \<in> set ws. w \<noteq> [] \<and> hd w = CHR '' '' \<longrightarrow> w = [CHR '' '']"
  shows "trim_with ws (CHR '' '' # s) = trim_with ws s"
proof -
  let ?p = "\<lambda>w. w \<noteq> [] \<and> starts_with w (CHR '' '' # s)"
  have "?p [CHR '' '']" by (simp add: starts_with_def)
  then obtain w where w: "find ?p ws = Some w"
    using assms(1) by (cases "find ?p ws") (auto simp: find_None_iff)
  then have "w \<in> set ws" and "?p w" by (auto simp: find_Some_iff in_set_conv_nth)
  from \<open>?p w\<close> have "hd w = CHR '' ''" by (induct w) (simp_all add: starts_with_def)
  with assms(2) \<open>w \<in> set ws\<close> \<open>?p w\<close> have "w = [CHR '' '']" by blast
  with w show ?thesis by (simp add: trim_with.simps [of ws "CHR '' '' # s"])
qed


section \<open>Integers as text and as bytes\<close>

text \<open>\<open>to_le_bytes\<close> and \<open>from_le_bytes\<close>\<close>

fun le_of_nat :: "nat \<Rightarrow> nat \<Rightarrow> bytes" where
  "le_of_nat 0 v = []"
| "le_of_nat (Suc n) v = of_nat (v mod 256) # le_of_nat n (v div 256)"

fun nat_of_le :: "bytes \<Rightarrow> nat" where
  "nat_of_le [] = 0"
| "nat_of_le (b # bs) = unat b + 256 * nat_of_le bs"

lemma length_le_of_nat [simp]: "length (le_of_nat n v) = n"
  by (induction n arbitrary: v) auto

lemma nat_of_le_of_nat: "nat_of_le (le_of_nat n v) = v mod 256 ^ n"
proof (induction n arbitrary: v)
  case (Suc n)
  have "unat (of_nat (v mod 256) :: byte) = v mod 256"
    by (simp add: unat_of_nat)
  moreover have "v mod 256 + 256 * (v div 256 mod 256 ^ n) = v mod (256 * 256 ^ n)"
    by (simp add: mod_mult2_eq)
  ultimately show ?case using Suc.IH [of "v div 256"] by simp
qed simp

definition u128_to_le_bytes :: "u128 \<Rightarrow> bytes" where
  "u128_to_le_bytes w = le_of_nat 16 (unat w)"

definition u128_from_le_bytes :: "bytes \<Rightarrow> u128" where
  "u128_from_le_bytes bs = of_nat (nat_of_le bs)"

definition u32_to_le_bytes :: "u32 \<Rightarrow> bytes" where
  "u32_to_le_bytes w = le_of_nat 4 (unat w)"

lemma u128_le_roundtrip [simp]: "u128_from_le_bytes (u128_to_le_bytes w) = w"
proof -
  have "unat w < 2 ^ LENGTH(128)" by (rule unsigned_less)
  then show ?thesis
    by (simp add: u128_from_le_bytes_def u128_to_le_bytes_def nat_of_le_of_nat)
qed

lemma length_u128_to_le_bytes [simp]: "length (u128_to_le_bytes w) = 16"
  by (simp add: u128_to_le_bytes_def)

lemma length_u32_to_le_bytes [simp]: "length (u32_to_le_bytes w) = 4"
  by (simp add: u32_to_le_bytes_def)

text \<open>
  \<open>parse::<u128>\<close>: an optional plus sign and one or more decimal digits whose value fits; every
  other text is an error.
\<close>

definition digit_value :: "char \<Rightarrow> nat option" where
  "digit_value c =
     (let n = (of_char c :: nat) in if 48 \<le> n \<and> n \<le> 57 then Some (n - 48) else None)"

fun digits_value :: "nat \<Rightarrow> string \<Rightarrow> nat option" where
  "digits_value acc [] = Some acc"
| "digits_value acc (c # cs) =
     (case digit_value c of None \<Rightarrow> None | Some d \<Rightarrow> digits_value (10 * acc + d) cs)"

definition parse_u128 :: "string \<Rightarrow> u128 option" where
  "parse_u128 s =
     (let ds = (case s of c # cs \<Rightarrow> if c = CHR ''+'' then cs else s | [] \<Rightarrow> s)
      in if ds = [] then None
         else case digits_value 0 ds of
                None \<Rightarrow> None
              | Some v \<Rightarrow> if v < 2 ^ 128 then Some (of_nat v) else None)"

text \<open>Decimal display of an unsigned integer.\<close>

fun show_nat :: "nat \<Rightarrow> string" where
  "show_nat n =
     (if n < 10 then [char_of (48 + n)] else show_nat (n div 10) @ [char_of (48 + n mod 10)])"

declare show_nat.simps [simp del]

lemma digit_value_char: "d < 10 \<Longrightarrow> digit_value (char_of (48 + d)) = Some d"
  by (simp add: digit_value_def)

lemma digits_value_append:
  "digits_value a (s @ t) =
     (case digits_value a s of None \<Rightarrow> None | Some b \<Rightarrow> digits_value b t)"
  by (induction s arbitrary: a) (auto split: option.splits)

lemma digits_value_show: "digits_value 0 (show_nat n) = Some n"
proof (induction n rule: show_nat.induct)
  case (1 n)
  show ?case
  proof (cases "n < 10")
    case True
    then show ?thesis by (simp add: show_nat.simps [of n] digit_value_char)
  next
    case False
    with 1 have "digits_value 0 (show_nat (n div 10)) = Some (n div 10)" by simp
    with False show ?thesis
      by (simp add: show_nat.simps [of n] digits_value_append digit_value_char)
  qed
qed

lemma show_nat_inject: "show_nat m = show_nat n \<longleftrightarrow> m = n"
  by (metis digits_value_show option.inject)

lemma show_nat_digits: "set (show_nat n) \<subseteq> {c. digit_value c \<noteq> None}"
proof (induction n rule: show_nat.induct)
  case (1 n)
  then show ?case
    by (cases "n < 10") (auto simp: show_nat.simps [of n] digit_value_char)
qed

lemma show_nat_nonempty: "show_nat n \<noteq> []"
  by (subst show_nat.simps) simp

lemma parse_u128_show: "parse_u128 (show_nat (unat (w :: u128))) = Some w"
proof -
  have "CHR ''+'' \<notin> set (show_nat (unat w))"
    using show_nat_digits [of "unat w"] by (auto simp: digit_value_def)
  moreover have "unat w < 2 ^ LENGTH(128)" by (rule unsigned_less)
  ultimately show ?thesis
    using show_nat_nonempty [of "unat w"] digits_value_show [of "unat w"]
    by (cases "show_nat (unat w)") (auto simp: parse_u128_def Let_def)
qed


text \<open>No white space starts or ends with a digit, so \<open>trim\<close> keeps a number as it is.\<close>

lemma white_space_digit:
  assumes "digit_value c \<noteq> None"
  shows "ws_free_start white_space (c # s)" and "ws_free_start (map rev white_space) (c # s)"
proof -
  have "\<forall>d \<in> hd ` set (filter (\<lambda>w. w \<noteq> []) white_space). digit_value d = None"
    by (simp add: white_space_def ascii_ws_def multibyte_ws_def digit_value_def)
  with assms show "ws_free_start white_space (c # s)" by (auto simp: ws_free_start_def)
  have "\<forall>d \<in> hd ` set (filter (\<lambda>w. w \<noteq> []) (map rev white_space)). digit_value d = None"
    by (simp add: white_space_def ascii_ws_def multibyte_ws_def digit_value_def)
  with assms show "ws_free_start (map rev white_space) (c # s)" by (auto simp: ws_free_start_def)
qed

lemma trim_show_nat: "trim (show_nat n) = show_nat n"
proof -
  have "\<forall>c \<in> set (show_nat n). digit_value c \<noteq> None"
    using show_nat_digits [of n] by auto
  moreover have "trim s = s" if dig: "\<forall>c \<in> set s. digit_value c \<noteq> None" and ne: "s \<noteq> []" for s
  proof -
    obtain c cs where s: "s = c # cs" using ne by (cases s) auto
    obtain d ds where r: "rev s = d # ds" using ne by (cases "rev s") auto
    have "c \<in> set s" and "d \<in> set (rev s)" by (simp add: s, simp only: r list.set_intros)
    with dig have "digit_value c \<noteq> None" and "digit_value d \<noteq> None" by auto
    then have "trim_with white_space s = s" and "trim_with (map rev white_space) (rev s) = rev s"
      unfolding s [symmetric] using trim_with_stable white_space_digit s r by metis+
    then show ?thesis by (simp add: trim_def)
  qed
  ultimately show ?thesis using show_nat_nonempty by blast
qed

end
