(* ===== verification/Libraries.thy ===== *)
theory Libraries
  imports Rust_Str
begin

text \<open>
  The third-party crates the program calls, as parameters: a record of functions per crate, and a
  predicate with the documented behaviour that the program relies on. Nothing here defines what a
  crate computes. The instances at the end of each section exist to show that the predicates can
  hold; witnesses use them as concrete arguments.
\<close>

section \<open>\<open>nom\<close>: parser combinators\<close>

text \<open>
  \<open>take_until p s\<close> returns the rest (from the first occurrence of \<open>p\<close>) and the text before it;
  \<open>tag p s\<close> returns the rest after \<open>p\<close> and \<open>p\<close>. \<open>None\<close> is nom's error. \<open>nom_debug\<close> is the debug
  text of the error raised at an input.
\<close>

record nom_lib =
  take_until :: "string \<Rightarrow> string \<Rightarrow> (string \<times> string) option"
  nom_tag :: "string \<Rightarrow> string \<Rightarrow> (string \<times> string) option"
  nom_debug :: "string \<Rightarrow> string"

definition nom_ok :: "nom_lib \<Rightarrow> bool" where
  "nom_ok N \<longleftrightarrow>
     (\<forall>c pre post. c \<notin> set pre \<longrightarrow> take_until N [c] (pre @ c # post) = Some (c # post, pre))
     \<and> (\<forall>c s. c \<notin> set s \<longrightarrow> take_until N [c] s = None)
     \<and> (\<forall>p s. nom_tag N p (p @ s) = Some (s, p))"

lemma nom_okD:
  assumes "nom_ok N"
  shows "c \<notin> set pre \<Longrightarrow> take_until N [c] (pre @ c # post) = Some (c # post, pre)"
    and "c \<notin> set s \<Longrightarrow> take_until N [c] s = None"
    and "nom_tag N p (p @ s) = Some (s, p)"
  using assms by (auto simp: nom_ok_def)

definition demo_nom :: nom_lib where
  "demo_nom = \<lparr>
     take_until = (\<lambda>p s. case p of
         [c] \<Rightarrow> if c \<in> set s then Some (dropWhile (\<lambda>x. x \<noteq> c) s, takeWhile (\<lambda>x. x \<noteq> c) s) else None
       | _ \<Rightarrow> None),
     nom_tag = (\<lambda>p s. if starts_with p s then Some (drop (length p) s, p) else None),
     nom_debug = (\<lambda>s. s)\<rparr>"

lemma takeWhile_until: "c \<notin> set pre \<Longrightarrow> takeWhile (\<lambda>x. x \<noteq> c) (pre @ c # post) = pre"
  by (induction pre) auto

lemma dropWhile_until: "c \<notin> set pre \<Longrightarrow> dropWhile (\<lambda>x. x \<noteq> c) (pre @ c # post) = c # post"
  by (induction pre) auto

lemma demo_nom_ok: "nom_ok demo_nom"
  by (simp add: nom_ok_def demo_nom_def takeWhile_until dropWhile_until starts_with_def)


section \<open>\<open>parity-scale-codec\<close>: SCALE encoding\<close>

text \<open>
  A codec of a type: \<open>encode\<close> gives bytes, \<open>decode\<close> reads one value from the front of an input and
  returns it with the rest. The documented law: decoding what was encoded gives the value back and
  leaves what follows it.
\<close>

record 'a codec =
  enc :: "'a \<Rightarrow> bytes"
  dec :: "bytes \<Rightarrow> ('a \<times> bytes) option"

definition codec_ok :: "'a codec \<Rightarrow> bool" where
  "codec_ok c \<longleftrightarrow> (\<forall>x rest. dec c (enc c x @ rest) = Some (x, rest))"

lemma codec_okD: "codec_ok c \<Longrightarrow> dec c (enc c x @ rest) = Some (x, rest)"
  by (simp add: codec_ok_def)

lemma codec_ok_exact: "codec_ok c \<Longrightarrow> dec c (enc c x) = Some (x, [])"
  using codec_okD [of c x "[]"] by simp

lemma codec_inject: "codec_ok c \<Longrightarrow> enc c x = enc c y \<longleftrightarrow> x = y"
  by (metis codec_ok_exact option.inject prod.inject)

text \<open>
  \<open>#[derive(Encode, Decode)]\<close> on a struct encodes its fields one after the other in the order of
  their declaration: the codec of a pair, mapped to the struct.
\<close>

definition pair_codec :: "'a codec \<Rightarrow> 'b codec \<Rightarrow> ('a \<times> 'b) codec" where
  "pair_codec c d =
     \<lparr>enc = (\<lambda>(x, y). enc c x @ enc d y),
      dec = (\<lambda>bs. case dec c bs of None \<Rightarrow> None
               | Some (x, bs') \<Rightarrow> (case dec d bs' of None \<Rightarrow> None
                   | Some (y, rest) \<Rightarrow> Some ((x, y), rest)))\<rparr>"

definition map_codec :: "('b \<Rightarrow> 'a) \<Rightarrow> ('a \<Rightarrow> 'b) \<Rightarrow> 'a codec \<Rightarrow> 'b codec" where
  "map_codec f g c =
     \<lparr>enc = (\<lambda>y. enc c (f y)), dec = (\<lambda>bs. map_option (map_prod g id) (dec c bs))\<rparr>"

lemma pair_codec_ok: "codec_ok c \<Longrightarrow> codec_ok d \<Longrightarrow> codec_ok (pair_codec c d)"
  by (simp add: codec_ok_def pair_codec_def)

lemma map_codec_ok: "(\<And>y. g (f y) = y) \<Longrightarrow> codec_ok c \<Longrightarrow> codec_ok (map_codec f g c)"
  by (simp add: codec_ok_def map_codec_def)

text \<open>An instance: each element after a one, a zero at the end.\<close>

fun demo_enc_bytes :: "bytes \<Rightarrow> bytes" where
  "demo_enc_bytes [] = [0]"
| "demo_enc_bytes (b # bs) = 1 # b # demo_enc_bytes bs"

fun demo_dec_bytes :: "bytes \<Rightarrow> (bytes \<times> bytes) option" where
  "demo_dec_bytes [] = None"
| "demo_dec_bytes (t # bs) =
     (if t = 0 then Some ([], bs)
      else case bs of [] \<Rightarrow> None
        | b # bs' \<Rightarrow> map_option (map_prod (Cons b) id) (demo_dec_bytes bs'))"

definition demo_bytes_codec :: "bytes codec" where
  "demo_bytes_codec = \<lparr>enc = demo_enc_bytes, dec = demo_dec_bytes\<rparr>"

lemma demo_bytes_codec_ok: "codec_ok demo_bytes_codec"
proof -
  have "demo_dec_bytes (demo_enc_bytes x @ rest) = Some (x, rest)" for x rest
    by (induction x) auto
  then show ?thesis by (simp add: codec_ok_def demo_bytes_codec_def)
qed

text \<open>The same for a list of values of any codec; the fuel is the input's length.\<close>

fun demo_enc_list :: "'a codec \<Rightarrow> 'a list \<Rightarrow> bytes" where
  "demo_enc_list c [] = [0]"
| "demo_enc_list c (x # xs) = 1 # enc c x @ demo_enc_list c xs"

fun demo_dec_list :: "'a codec \<Rightarrow> nat \<Rightarrow> bytes \<Rightarrow> ('a list \<times> bytes) option" where
  "demo_dec_list c 0 bs = None"
| "demo_dec_list c (Suc n) [] = None"
| "demo_dec_list c (Suc n) (t # bs) =
     (if t = 0 then Some ([], bs)
      else case dec c bs of None \<Rightarrow> None
        | Some (x, bs') \<Rightarrow> map_option (map_prod (Cons x) id) (demo_dec_list c n bs'))"

definition demo_list_codec :: "'a codec \<Rightarrow> 'a list codec" where
  "demo_list_codec c = \<lparr>enc = demo_enc_list c, dec = (\<lambda>bs. demo_dec_list c (length bs) bs)\<rparr>"

lemma demo_list_codec_ok:
  assumes "codec_ok c"
  shows "codec_ok (demo_list_codec c)"
proof -
  have enough: "length xs < n \<Longrightarrow> demo_dec_list c n (demo_enc_list c xs @ rest) = Some (xs, rest)"
    for xs n rest
  proof (induction xs arbitrary: n)
    case Nil
    then show ?case by (cases n) auto
  next
    case (Cons x xs)
    then obtain m where "n = Suc m" and "length xs < m" by (cases n) auto
    with Cons.IH [of m] show ?case using codec_okD [OF assms, of x] by simp
  qed
  have "length xs < length (demo_enc_list c xs @ rest)" for xs rest
    by (induction xs) auto
  then show ?thesis using enough by (simp add: codec_ok_def demo_list_codec_def)
qed


section \<open>\<open>hex\<close>, \<open>sha2\<close> and SS58\<close>

record hex_lib =
  hex_encode :: "bytes \<Rightarrow> bytes"
  hex_decode :: "bytes \<Rightarrow> bytes option"

definition hex_ok :: "hex_lib \<Rightarrow> bool" where
  "hex_ok X \<longleftrightarrow>
     (\<forall>bs. hex_decode X (hex_encode X bs) = Some bs \<and> (\<forall>b \<in> set (hex_encode X bs). b \<le> 0x7F))"

lemma hex_okD: "hex_ok X \<Longrightarrow> hex_decode X (hex_encode X bs) = Some bs"
  by (simp add: hex_ok_def)

lemma hex_utf8: "hex_ok X \<Longrightarrow> from_utf8 (hex_encode X bs) = Some (map char_of_byte (hex_encode X bs))"
  by (simp add: hex_ok_def from_utf8_def valid_utf8_ascii)

text \<open>An instance: two hexadecimal digits per byte, most significant first.\<close>

definition demo_digit :: "nat \<Rightarrow> byte" where
  "demo_digit n = (if n < 10 then of_nat (48 + n) else of_nat (87 + n))"

definition demo_undigit :: "byte \<Rightarrow> nat option" where
  "demo_undigit b =
     (let n = unat b in if 48 \<le> n \<and> n \<le> 57 then Some (n - 48)
      else if 97 \<le> n \<and> n \<le> 102 then Some (n - 87) else None)"

fun demo_hex_enc :: "bytes \<Rightarrow> bytes" where
  "demo_hex_enc [] = []"
| "demo_hex_enc (b # bs) =
     demo_digit (unat b div 16) # demo_digit (unat b mod 16) # demo_hex_enc bs"

fun demo_hex_dec :: "bytes \<Rightarrow> bytes option" where
  "demo_hex_dec [] = Some []"
| "demo_hex_dec [x] = None"
| "demo_hex_dec (h # l # bs) =
     (case demo_undigit h of None \<Rightarrow> None
      | Some m \<Rightarrow> (case demo_undigit l of None \<Rightarrow> None
          | Some n \<Rightarrow> map_option (Cons (of_nat (16 * m + n))) (demo_hex_dec bs)))"

definition demo_hex :: hex_lib where
  "demo_hex = \<lparr>hex_encode = demo_hex_enc, hex_decode = demo_hex_dec\<rparr>"

lemma demo_undigit_digit: "n < 16 \<Longrightarrow> demo_undigit (demo_digit n) = Some n"
proof -
  assume "n < 16"
  then have "unat (demo_digit n) = (if n < 10 then 48 + n else 87 + n)"
    by (simp add: demo_digit_def unat_of_nat del: of_nat_add)
  with \<open>n < 16\<close> show ?thesis by (simp add: demo_undigit_def)
qed

lemma demo_digit_ascii: "n < 16 \<Longrightarrow> demo_digit n \<le> 0x7F"
  by (simp add: demo_digit_def word_le_nat_alt unat_of_nat del: of_nat_add)

lemma demo_hex_ok: "hex_ok demo_hex"
proof -
  have "demo_hex_dec (demo_hex_enc bs) = Some bs" for bs
  proof (induction bs)
    case (Cons b bs)
    have "unat b < 2 ^ LENGTH(8)" by (rule unsigned_less)
    then have "unat b div 16 < 16" by simp
    with Cons show ?case
      by (simp add: demo_undigit_digit mult.commute [of 16])
  qed simp
  moreover have "\<forall>b \<in> set (demo_hex_enc bs). b \<le> 0x7F" for bs
  proof (induction bs)
    case (Cons b bs)
    have "unat b < 2 ^ LENGTH(8)" by (rule unsigned_less)
    then have "unat b div 16 < 16" by simp
    then show ?case using Cons by (simp add: demo_digit_ascii)
  qed simp
  ultimately show ?thesis by (simp add: hex_ok_def demo_hex_def)
qed

text \<open>
  The SS58 decoders of \<open>sp_core\<close>: an address gives a 32-byte key or fails.
\<close>

record ss58_lib =
  account_from_ss58 :: "string \<Rightarrow> bytes option"
  public_from_ss58 :: "string \<Rightarrow> bytes option"

definition ss58_ok :: "ss58_lib \<Rightarrow> bool" where
  "ss58_ok A \<longleftrightarrow>
     (\<forall>s k. account_from_ss58 A s = Some k \<longrightarrow> length k = 32)
     \<and> (\<forall>s k. public_from_ss58 A s = Some k \<longrightarrow> length k = 32)"

definition demo_ss58 :: ss58_lib where
  "demo_ss58 = \<lparr>
     account_from_ss58 = (\<lambda>s. if length s = 48 then Some (replicate 32 (byte_of_char (hd s))) else None),
     public_from_ss58 = (\<lambda>s. if length s = 48 then Some (replicate 32 (byte_of_char (hd s))) else None)\<rparr>"

lemma demo_ss58_ok: "ss58_ok demo_ss58"
  by (simp add: ss58_ok_def demo_ss58_def)


section \<open>\<open>cid\<close> and \<open>multihash\<close>\<close>

text \<open>
  \<open>Code::Sha2_256.digest\<close>, the content identifiers, their text and their bytes. The text of an
  identifier is not empty and has no slash; different identifiers have different texts.
\<close>

record 'c cid_lib =
  sha2_256_digest :: "bytes \<Rightarrow> bytes"
  cid_new_v1 :: "u64 \<Rightarrow> bytes \<Rightarrow> 'c"
  cid_to_string :: "'c \<Rightarrow> string"
  cid_to_bytes :: "'c \<Rightarrow> bytes"
  cid_try_from :: "bytes \<Rightarrow> 'c option"

definition cid_ok :: "'c cid_lib \<Rightarrow> bool" where
  "cid_ok C \<longleftrightarrow>
     (\<forall>c d. cid_to_string C c = cid_to_string C d \<longrightarrow> c = d)
     \<and> (\<forall>c. cid_to_string C c \<noteq> [] \<and> CHR ''/'' \<notin> set (cid_to_string C c))
     \<and> (\<forall>c. cid_try_from C (cid_to_bytes C c) = Some c)"

lemma cid_okD:
  assumes "cid_ok C"
  shows "cid_to_string C c = cid_to_string C d \<longleftrightarrow> c = d"
    and "cid_to_string C c \<noteq> []" and "CHR ''/'' \<notin> set (cid_to_string C c)"
    and "cid_try_from C (cid_to_bytes C c) = Some c"
  using assms by (auto simp: cid_ok_def)

definition demo_cid :: "bytes cid_lib" where
  "demo_cid = \<lparr>sha2_256_digest = (\<lambda>bs. bs), cid_new_v1 = (\<lambda>codec h. h),
     cid_to_string = (\<lambda>c. CHR ''b'' # map char_of_byte (hex_encode demo_hex c)),
     cid_to_bytes = (\<lambda>c. c), cid_try_from = Some\<rparr>"

lemma char_of_byte_inject: "char_of_byte a = char_of_byte b \<longleftrightarrow> a = b"
  by (metis byte_of_char_of_byte)

lemma demo_hex_no_slash: "0x2F \<notin> set (demo_hex_enc bs)"
proof (induction bs)
  case (Cons b bs)
  have "demo_digit n \<noteq> 0x2F" if "n < 16" for n
  proof
    assume "demo_digit n = 0x2F"
    then have "demo_undigit (0x2F) = Some n" using demo_undigit_digit [OF that] by simp
    then show False by (simp add: demo_undigit_def)
  qed
  moreover have "unat b < 2 ^ LENGTH(8)" by (rule unsigned_less)
  then have "unat b div 16 < 16" by simp
  ultimately show ?case using Cons by force
qed simp

lemma demo_cid_ok: "cid_ok demo_cid"
proof -
  have "char_of_byte 0x2F = CHR ''/''" by (simp add: char_of_byte_def char_of_eq_iff take_bit_eq_mod)
  then have "CHR ''/'' \<notin> set (map char_of_byte (demo_hex_enc bs))" for bs
    using demo_hex_no_slash [of bs] by (metis (no_types, lifting) char_of_byte_inject imageE list.set_map)
  moreover have "demo_hex_enc x = demo_hex_enc y \<Longrightarrow> x = y" for x y
    using hex_okD [OF demo_hex_ok, of x] hex_okD [OF demo_hex_ok, of y] by (simp add: demo_hex_def)
  moreover have "inj char_of_byte" by (simp add: inj_def char_of_byte_inject)
  ultimately show ?thesis
    by (auto simp: cid_ok_def demo_cid_def demo_hex_def inj_map_eq_map)
qed


section \<open>\<open>iroh\<close>: the shared document\<close>

text \<open>
  A document of \<open>iroh_docs\<close> with its blobs, as this node's replica has it: \<open>'d\<close>. \<open>get_one\<close> is the
  query for one exact key, which gives the content hash of the entry; \<open>get_bytes\<close> reads a blob;
  \<open>set_bytes\<close> writes a key as an author. \<open>docs_create\<close> creates a document and shares it, which
  gives its ticket; \<open>docs_import\<close> imports the document of a ticket.
\<close>

record 'd iroh_lib =
  author_default :: "'d \<Rightarrow> (bytes, string) outcome"
  get_one :: "'d \<Rightarrow> bytes \<Rightarrow> (bytes option, string) outcome"
  get_bytes :: "'d \<Rightarrow> bytes \<Rightarrow> (bytes, string) outcome"
  set_bytes :: "bytes \<Rightarrow> bytes \<Rightarrow> bytes \<Rightarrow> ('d, bytes, string) action"
  docs_create :: "('d, string, string) action"
  docs_import :: "string \<Rightarrow> ('d, unit, string) action"

text \<open>The replica has a value for a key.\<close>

definition reads_as :: "'d iroh_lib \<Rightarrow> 'd \<Rightarrow> string \<Rightarrow> bytes \<Rightarrow> bool" where
  "reads_as I d key v \<longleftrightarrow>
     (\<exists>h. get_one I d (as_bytes key) = Ok (Some h) \<and> get_bytes I d h = Ok v)"

text \<open>
  What a document with one author per key promises: a write is read back, and it does not touch the
  values of other keys.
\<close>

definition iroh_ok :: "'d iroh_lib \<Rightarrow> bool" where
  "iroh_ok I \<longleftrightarrow>
     (\<forall>a key v d r d'. set_bytes I a (as_bytes key) v d = (Ok r, d') \<longrightarrow>
        reads_as I d' key v \<and> (\<forall>k u. k \<noteq> key \<longrightarrow> reads_as I d k u \<longrightarrow> reads_as I d' k u))"

lemma iroh_okD:
  assumes "iroh_ok I" and "set_bytes I a (as_bytes key) v d = (Ok r, d')"
  shows "reads_as I d' key v" and "k \<noteq> key \<Longrightarrow> reads_as I d k u \<Longrightarrow> reads_as I d' k u"
  using assms unfolding iroh_ok_def by blast+

definition demo_iroh :: "(bytes \<rightharpoonup> bytes) iroh_lib" where
  "demo_iroh = \<lparr>author_default = (\<lambda>d. Ok [1]), get_one = (\<lambda>d k. Ok (d k)), get_bytes = (\<lambda>d h. Ok h),
     set_bytes = (\<lambda>a k v d. (Ok v, d(k \<mapsto> v))), docs_create = (\<lambda>d. (Ok ''doc'', d)),
     docs_import = (\<lambda>t d. (Ok (), d))\<rparr>"

lemma demo_iroh_ok: "iroh_ok demo_iroh"
  by (simp add: iroh_ok_def demo_iroh_def reads_as_def)

end
