(* ===== verification/Substrate_Backend.thy ===== *)
theory Substrate_Backend
  imports Libraries
begin

text \<open>
  The contract backend, \<open>fangorn/src/backend/mod.rs\<close> and \<open>fangorn/src/backend/substrate.rs\<close>: how
  a contract message becomes call data, and how its result comes back. The chain client (subxt)
  is a parameter over an abstract chain state \<open>'w\<close>.
\<close>

section \<open>The chain client\<close>

text \<open>What one contract call carries: both the dry run and the transaction are built from it.\<close>

record contract_call =
  call_origin :: bytes
  call_dest :: bytes
  call_value :: u128
  call_gas :: "(u64 \<times> u64) option"
  call_deposit :: "u128 option"
  call_data :: bytes

text \<open>
  \<open>api_call\<close> is the runtime API at the latest block: an \<open>Err\<close> is a transport error, \<open>Ok None\<close> an
  execution that failed, \<open>Ok (Some data)\<close> the output. \<open>submit_call\<close> signs, submits and waits for
  finalized success; it gives the extrinsic hash. \<open>fetch_nonce\<close> reads system account storage.
\<close>

record 'w substrate_client =
  api_call :: "'w \<Rightarrow> contract_call \<Rightarrow> (bytes option, string) outcome"
  submit_call :: "contract_call \<Rightarrow> ('w, bytes, string) action"
  fetch_nonce :: "'w \<Rightarrow> bytes \<Rightarrow> (u32 option, string) outcome"
  blake2_256 :: "bytes \<Rightarrow> bytes"

record 'w substrate_backend =
  client :: "'w substrate_client"
  signer_account :: bytes


section \<open>Operations\<close>

text \<open>The first four bytes of the hash of the name.\<close>

definition selector :: "'w substrate_backend \<Rightarrow> string \<Rightarrow> bytes" where
  "selector B name = (let hash = blake2_256 (client B) (as_bytes name)
     in [hash ! 0, hash ! 1, hash ! 2, hash ! 3])"

text \<open>
  The nonce of an account: a missing account is an \<open>unwrap\<close> of \<open>None\<close>. The stored nonce is a
  \<open>u32\<close>, so its conversion to \<open>u32\<close> always succeeds.
\<close>

definition nonce :: "'w substrate_backend \<Rightarrow> 'w \<Rightarrow> bytes \<Rightarrow> (u32, string) outcome" where
  "nonce B w pubkey = and_then (fetch_nonce (client B) w pubkey) unwrap_option"

definition backend_read ::
  "'w substrate_backend \<Rightarrow> 'w \<Rightarrow> bytes \<Rightarrow> string \<Rightarrow> bytes option \<Rightarrow> (bytes option, string) outcome" where
  "backend_read B w contract_address method data =
     (let cd = selector B method @ (case data of None \<Rightarrow> [] | Some d \<Rightarrow> d);
          call = \<lparr>call_origin = signer_account B, call_dest = contract_address, call_value = 0,
                  call_gas = None, call_deposit = None, call_data = cd\<rparr>
      in and_then (api_call (client B) w call) (\<lambda>result.
           case result of
             Some d \<Rightarrow> Ok (Some d)
           | None \<Rightarrow> Err ''Contract query failed''))"

definition backend_write ::
  "'w substrate_backend \<Rightarrow> bytes \<Rightarrow> string \<Rightarrow> bytes \<Rightarrow> ('w, bytes, string) action" where
  "backend_write B contract_address method data =
     (let call = \<lparr>call_origin = signer_account B, call_dest = contract_address, call_value = 0,
                  call_gas = Some (10000000000, 500000), call_deposit = None,
                  call_data = selector B method @ data\<rparr>
      in submit_call (client B) call)"

text \<open>
  A successful read has a payload: the \<open>unwrap\<close> that every caller applies to it does not panic.
\<close>

lemma backend_read_payload: "backend_read B w a m d = Ok r \<Longrightarrow> r \<noteq> None"
  by (auto simp: backend_read_def Let_def outcome_simps split: option.splits)

text \<open>What a caller of \<open>read\<close> does first: \<open>unwrap\<close>, then drop the status byte if there is one.\<close>

definition strip_status :: "bytes option \<Rightarrow> (bytes, 'e) outcome" where
  "strip_status result = and_then (unwrap_option result) (\<lambda>data.
     Ok (if data \<noteq> [] then tl data else data))"

lemma strip_status_Some [simp]: "strip_status (Some data) = Ok (tl data)"
  by (simp add: strip_status_def)


section \<open>Addresses\<close>

text \<open>
  \<open>fangorn/src/utils.rs\<close>: an address that does not decode becomes the zero key.
\<close>

definition decode_public_key :: "ss58_lib \<Rightarrow> string \<Rightarrow> bytes" where
  "decode_public_key A address =
     (case account_from_ss58 A address of Some account_id \<Rightarrow> account_id | None \<Rightarrow> replicate 32 0)"

definition decode_contract_addr :: "ss58_lib \<Rightarrow> string \<Rightarrow> bytes" where
  "decode_contract_addr A address =
     (case public_from_ss58 A address of Some k \<Rightarrow> k | None \<Rightarrow> replicate 32 0)"

lemma length_decode_public_key: "ss58_ok A \<Longrightarrow> length (decode_public_key A s) = 32"
  by (auto simp: decode_public_key_def ss58_ok_def split: option.splits)

lemma length_decode_contract_addr: "ss58_ok A \<Longrightarrow> length (decode_contract_addr A s) = 32"
  by (auto simp: decode_contract_addr_def ss58_ok_def split: option.splits)


section \<open>The calls of a contract\<close>

text \<open>The dry run and the transaction that call a message with encoded arguments.\<close>

definition query :: "'w substrate_backend \<Rightarrow> bytes \<Rightarrow> string \<Rightarrow> bytes \<Rightarrow> contract_call" where
  "query B a method data =
     \<lparr>call_origin = signer_account B, call_dest = a, call_value = 0, call_gas = None,
      call_deposit = None, call_data = selector B method @ data\<rparr>"

definition transact :: "'w substrate_backend \<Rightarrow> bytes \<Rightarrow> string \<Rightarrow> bytes \<Rightarrow> contract_call" where
  "transact B a method data =
     \<lparr>call_origin = signer_account B, call_dest = a, call_value = 0,
      call_gas = Some (10000000000, 500000), call_deposit = None, call_data = selector B method @ data\<rparr>"

lemma backend_query: "backend_read B w a m (Some d) =
    and_then (api_call (client B) w (query B a m d)) (\<lambda>r.
      case r of Some x \<Rightarrow> Ok (Some x) | None \<Rightarrow> Err ''Contract query failed'')"
  by (simp add: backend_read_def query_def Let_def)

lemma backend_transact: "backend_write B a m d = submit_call (client B) (transact B a m d)"
  by (simp add: backend_write_def transact_def)

end
