(* ===== verification/Pool_Client.thy ===== *)
theory Pool_Client
  imports Substrate_Backend Request_Pool
begin

text \<open>
  The node's and the client's side of the request pool: the messages of \<open>fangorn/src/pool/pool.rs\<close>,
  \<open>InkContractPool\<close> of \<open>pool/contract_pool.rs\<close> and the polling watcher of \<open>pool/watcher.rs\<close>, with the
  contract of \<open>contract/pool/lib.rs\<close> that they call.
\<close>

section \<open>Messages\<close>

datatype opaque_endpoint_addr = OpaqueEndpointAddr bytes

primrec addr_bytes :: "opaque_endpoint_addr \<Rightarrow> bytes" where
  "addr_bytes (OpaqueEndpointAddr b) = b"

record decryption_request =
  dr_filename :: bytes
  dr_witness_hex :: bytes
  dr_location :: opaque_endpoint_addr

record partial_decryption_message =
  pd_filename :: bytes
  pd_index :: u8
  pd_bytes :: bytes

record 'pd raw_partial_decryption_message =
  raw_filename :: bytes
  raw_index :: u8
  raw_partial_decryption :: 'pd

text \<open>
  \<open>#[derive(Encode, Decode)]\<close> encodes the fields in the order of their declaration; a struct around
  one field is encoded as the field.
\<close>

definition request_codec :: "bytes codec \<Rightarrow> decryption_request codec" where
  "request_codec VB = map_codec
     (\<lambda>r. (dr_filename r, (dr_witness_hex r, addr_bytes (dr_location r))))
     (\<lambda>(f, (x, l)). \<lparr>dr_filename = f, dr_witness_hex = x, dr_location = OpaqueEndpointAddr l\<rparr>)
     (pair_codec VB (pair_codec VB VB))"

definition pd_message_codec :: "bytes codec \<Rightarrow> u8 codec \<Rightarrow> partial_decryption_message codec" where
  "pd_message_codec VB UC = map_codec
     (\<lambda>m. (pd_filename m, (pd_index m, pd_bytes m)))
     (\<lambda>(f, (i, b)). \<lparr>pd_filename = f, pd_index = i, pd_bytes = b\<rparr>)
     (pair_codec VB (pair_codec UC VB))"

lemma addr_bytes_inverse [simp]: "OpaqueEndpointAddr (addr_bytes a) = a"
  by (cases a) simp

lemma request_codec_ok: "codec_ok VB \<Longrightarrow> codec_ok (request_codec VB)"
  unfolding request_codec_def by (rule map_codec_ok) (auto intro: pair_codec_ok)

lemma pd_message_codec_ok: "codec_ok VB \<Longrightarrow> codec_ok UC \<Longrightarrow> codec_ok (pd_message_codec VB UC)"
  unfolding pd_message_codec_def by (rule map_codec_ok) (auto intro: pair_codec_ok)

lemma enc_request:
  "enc (request_codec VB) r = enc VB (dr_filename r) @ enc VB (dr_witness_hex r) @ enc VB (addr_bytes (dr_location r))"
  by (simp add: request_codec_def map_codec_def pair_codec_def)

definition request_id :: "(bytes \<Rightarrow> bytes) \<Rightarrow> bytes codec \<Rightarrow> decryption_request \<Rightarrow> bytes" where
  "request_id sha256 VB r = sha256 (enc (request_codec VB) r)"

text \<open>The endpoint address of \<open>iroh\<close> and its JSON text are a parameter.\<close>

definition opaque_from_addr :: "('a \<Rightarrow> bytes option) \<Rightarrow> 'a \<Rightarrow> (opaque_endpoint_addr, 'e) outcome" where
  "opaque_from_addr to_json a = and_then (unwrap_decoded (to_json a)) (\<lambda>b. Ok (OpaqueEndpointAddr b))"

definition opaque_into_addr :: "(bytes \<Rightarrow> 'a option) \<Rightarrow> opaque_endpoint_addr \<Rightarrow> ('a, 'e) outcome" where
  "opaque_into_addr from_json l = unwrap_decoded (from_json (addr_bytes l))"


section \<open>\<open>InkContractPool\<close>\<close>

record 'w ink_pool =
  pool_address :: string
  pool_backend :: "'w substrate_backend"
  pool_ss58 :: ss58_lib
  pool_bytes :: "bytes codec"
  pool_slice :: "bytes codec"
  pool_list :: "decryption_request list codec"
  pool_u64 :: "u64 codec"

definition ink_add :: "'w ink_pool \<Rightarrow> decryption_request \<Rightarrow> ('w, unit, string) action" where
  "ink_add P req =
     (let contract_addr_bytes = decode_contract_addr (pool_ss58 P) (pool_address P)
      in bind_action (backend_write (pool_backend P) contract_addr_bytes ''add''
           (enc (request_codec (pool_bytes P)) req)) (\<lambda>_. pure_action (Ok ())))"

definition ink_read_all :: "'w ink_pool \<Rightarrow> 'w \<Rightarrow> (decryption_request list, string) outcome" where
  "ink_read_all P w =
     (let contract_addr_bytes = decode_contract_addr (pool_ss58 P) (pool_address P)
      in and_then (backend_read (pool_backend P) w contract_addr_bytes ''read_all'' None) (\<lambda>result.
         and_then (strip_status result) (\<lambda>data.
         and_then (ok_or ''decode'' (dec (pool_list P) data)) (\<lambda>(decoded, _). Ok decoded))))"

definition ink_count :: "'w ink_pool \<Rightarrow> 'w \<Rightarrow> (nat, string) outcome" where
  "ink_count P w =
     (let contract_addr_bytes = decode_contract_addr (pool_ss58 P) (pool_address P)
      in and_then (backend_read (pool_backend P) w contract_addr_bytes ''count'' None) (\<lambda>result.
         and_then (strip_status result) (\<lambda>data.
         and_then (ok_or ''decode'' (dec (pool_u64 P) data)) (\<lambda>(decoded, _). Ok (unat decoded)))))"

text \<open>A slice \<open>&[u8]\<close> is encoded by \<open>pool_slice\<close>; the selector is the one the source names.\<close>

definition ink_submit_partial_attestation :: "'w ink_pool \<Rightarrow> bytes \<Rightarrow> bytes \<Rightarrow> ('w, unit, string) action" where
  "ink_submit_partial_attestation P rid attestation =
     (let data = enc (pool_slice P) rid @ enc (pool_slice P) attestation;
          contract_addr_bytes = decode_contract_addr (pool_ss58 P) (pool_address P)
      in bind_action (backend_write (pool_backend P) contract_addr_bytes ''submit_partial_decryption'' data)
           (\<lambda>_. pure_action (Ok ())))"


section \<open>The contract on the chain\<close>

text \<open>The messages of the contract, by the names ink! derives their selectors from.\<close>

definition pool_messages :: "string list" where
  "pool_messages = [''add'', ''read_all'', ''count'', ''submit_partial_attestation'', ''get_attestation'',
     ''get_attestation_count'']"

definition from_contract :: "pool_request \<Rightarrow> decryption_request" where
  "from_contract r = \<lparr>dr_filename = data_bytes (rq_filename r), dr_witness_hex = data_bytes (rq_witness_hex r),
     dr_location = OpaqueEndpointAddr (data_bytes (rq_location r))\<rparr>"

text \<open>
  A deployed contract, as ink! documents it: a query of \<open>read_all\<close> or \<open>count\<close> returns a status byte
  and the encoded result, a finalized successful \<open>add\<close> ran the message and it returned \<open>Ok\<close>, and a
  call whose first four bytes are the selector of no message does not succeed.
\<close>

definition hosts_pool ::
  "'w ink_pool \<Rightarrow> (bytes \<Rightarrow> bytes) \<Rightarrow> ('w \<Rightarrow> request_pool) \<Rightarrow> bool" where
  "hosts_pool P H view \<longleftrightarrow>
     (let B = pool_backend P; a = decode_contract_addr (pool_ss58 P) (pool_address P); VB = pool_bytes P in
     (\<forall>w. api_call (client B) w (query B a ''read_all'' []) =
        Ok (Some (0 # enc (pool_list P) (map from_contract (pool_read_all (view w))))))
     \<and> (\<forall>w. api_call (client B) w (query B a ''count'' []) = Ok (Some (0 # enc (pool_u64 P) (pool_count (view w)))))
     \<and> (\<forall>f x l w h w'. submit_call (client B) (transact B a ''add'' (enc VB f @ enc VB x @ enc VB l)) w = (Ok h, w') \<longrightarrow>
          (\<exists>now. pool_add H now (GenericData f) (GenericData x) (GenericData l) (view w) = (Ok (), view w')))
     \<and> (\<forall>m d w. selector B m \<notin> selector B ` set pool_messages \<longrightarrow>
          (\<exists>e w'. submit_call (client B) (transact B a m d) w = (Err e, w'))))"

text \<open>What the contract hashes to the identifier of a request.\<close>

definition hashed_bytes :: "decryption_request \<Rightarrow> bytes" where
  "hashed_bytes r = dr_filename r @ dr_witness_hex r @ addr_bytes (dr_location r)"

lemma hashed_bytes_contract [simp]: "hashed_bytes (from_contract r) = request_bytes r"
  by (simp add: hashed_bytes_def from_contract_def request_bytes_def)

lemma from_contract_inject: "from_contract r = from_contract r' \<longleftrightarrow> r = r'"
proof
  have data: "data_bytes a = data_bytes b \<Longrightarrow> a = b" for a b by (cases a; cases b) simp
  assume "from_contract r = from_contract r'"
  then show "r = r'" by (cases r; cases r') (auto simp: from_contract_def dest: data)
qed simp

lemma backend_read_None: "backend_read B w a m None =
    and_then (api_call (client B) w (query B a m [])) (\<lambda>r.
      case r of Some x \<Rightarrow> Ok (Some x) | None \<Rightarrow> Err ''Contract query failed'')"
  by (simp add: backend_read_def query_def Let_def)

lemma ink_read_all_hosted:
  assumes "hosts_pool P H view" and "codec_ok (pool_list P)"
  shows "ink_read_all P w = Ok (map from_contract (pool_read_all (view w)))"
  using assms(1)
  by (simp add: ink_read_all_def hosts_pool_def Let_def backend_read_None codec_ok_exact [OF assms(2)])

lemma ink_count_hosted:
  assumes "hosts_pool P H view" and "codec_ok (pool_u64 P)"
  shows "ink_count P w = Ok (unat (pool_count (view w)))"
  using assms(1)
  by (simp add: ink_count_def hosts_pool_def Let_def backend_read_None codec_ok_exact [OF assms(2)])

lemma ink_add_hosted:
  assumes "hosts_pool P H view" and "ink_add P req w = (Ok (), w')"
  shows "\<exists>now. pool_add H now (GenericData (dr_filename req)) (GenericData (dr_witness_hex req))
    (GenericData (addr_bytes (dr_location req))) (view w) = (Ok (), view w')"
  using assms
  by (auto simp: ink_add_def hosts_pool_def Let_def backend_transact enc_request outcome_simps)

lemma ink_submit_hosted:
  assumes "hosts_pool P H view"
    and "selector (pool_backend P) ''submit_partial_decryption'' \<notin> selector (pool_backend P) ` set pool_messages"
  shows "\<exists>e w'. ink_submit_partial_attestation P rid att w = (Err e, w')"
proof -
  obtain e w' where "submit_call (client (pool_backend P)) (transact (pool_backend P)
      (decode_contract_addr (pool_ss58 P) (pool_address P)) ''submit_partial_decryption''
      (enc (pool_slice P) rid @ enc (pool_slice P) att)) w = (Err e, w')"
    using assms unfolding hosts_pool_def Let_def by blast
  then show ?thesis by (simp add: ink_submit_partial_attestation_def Let_def backend_transact)
qed

text \<open>
  A request whose bytes are those of a listed one: the contract refuses it, and every later listing
  has the listed one, and no other, for these bytes.
\<close>

lemma taken_bytes:
  assumes "hosts_pool P H view" and "codec_ok (pool_list P)"
    and "pool_new ws = Ok s0" and "(pool_step H)\<^sup>*\<^sup>* s0 (view w)"
    and "ink_read_all P w = Ok reqs" and "old \<in> set reqs" and "hashed_bytes req = hashed_bytes old"
  shows "ink_add P req w \<noteq> (Ok (), w')"
    and "(pool_step H)\<^sup>*\<^sup>* (view w) (view v) \<Longrightarrow> ink_read_all P v = Ok later \<Longrightarrow>
      filter (\<lambda>r. hashed_bytes r = hashed_bytes old) later = [old]"
proof -
  obtain r where r: "r \<in> set (pool_read_all (view w))" "old = from_contract r"
    using assms(5,6) by (auto simp: ink_read_all_hosted [OF assms(1,2)])
  have inv: "ids_inv H (view w)"
    using pool_reachable_inv [OF assms(3,4)] by (simp add: pool_inv_def)
  have "data_bytes (GenericData (dr_filename req)) @ data_bytes (GenericData (dr_witness_hex req))
      @ data_bytes (GenericData (addr_bytes (dr_location req))) = request_bytes r"
    using assms(7) by (simp add: r(2)) (simp add: hashed_bytes_def)
  note refused = add_refused [OF inv r(1) this]
  show "ink_add P req w \<noteq> (Ok (), w')"
    using ink_add_hosted [OF assms(1), of req w w'] by (auto simp: refused)
  assume later: "(pool_step H)\<^sup>*\<^sup>* (view w) (view v)" "ink_read_all P v = Ok later"
  have "ids_inv H (view v)"
    using pool_reachable_inv [OF assms(3) rtranclp_trans [OF assms(4) later(1)]] by (simp add: pool_inv_def)
  moreover have "r \<in> set (pool_read_all (view v))"
    using pool_log.steps_grow [OF later(1) pool_reachable_inv [OF assms(3,4)]] r(1) by auto
  ultimately have "filter (\<lambda>x. request_bytes x = request_bytes r) (pool_read_all (view v)) = [r]"
    by (rule read_all_unique)
  then show "filter (\<lambda>r. hashed_bytes r = hashed_bytes old) later = [old]"
    using later(2) by (auto simp: ink_read_all_hosted [OF assms(1,2)] r(2) filter_map comp_def)
qed


section \<open>A concrete chain\<close>

text \<open>
  For the witnesses: a chain whose state is the storage of one pool. The selectors come from the
  length of the name.
\<close>

definition demo_u64 :: "u64 codec" where
  "demo_u64 = map_codec (\<lambda>n. le_of_nat 8 (unat n)) (\<lambda>bs. of_nat (nat_of_le bs)) demo_bytes_codec"

lemma demo_u64_ok: "codec_ok demo_u64"
  unfolding demo_u64_def
proof (rule map_codec_ok [OF _ demo_bytes_codec_ok])
  fix y :: u64
  have "unat y < 2 ^ LENGTH(64)" by (rule unsigned_less)
  then show "of_nat (nat_of_le (le_of_nat 8 (unat y))) = y"
    by (simp add: nat_of_le_of_nat)
qed

definition demo_pool_list :: "decryption_request list codec" where
  "demo_pool_list = demo_list_codec (request_codec demo_bytes_codec)"

lemma demo_pool_list_ok: "codec_ok demo_pool_list"
  by (simp add: demo_pool_list_def demo_list_codec_ok request_codec_ok demo_bytes_codec_ok)

definition demo_pool_query :: "bytes \<Rightarrow> request_pool \<Rightarrow> bytes" where
  "demo_pool_query cd w =
     (if take 4 cd = [8, 0, 0, 0] then enc demo_pool_list (map from_contract (pool_read_all w))
      else enc demo_u64 (pool_count w))"

definition demo_pool_submit :: "bytes \<Rightarrow> (request_pool, bytes, string) action" where
  "demo_pool_submit cd w =
     (if take 4 cd = [3, 0, 0, 0]
      then (case dec (request_codec demo_bytes_codec) (drop 4 cd) of
          None \<Rightarrow> (Err ''bad call'', w)
        | Some (r, _) \<Rightarrow>
            (case pool_add (\<lambda>b. b) 0 (GenericData (dr_filename r)) (GenericData (dr_witness_hex r))
                    (GenericData (addr_bytes (dr_location r))) w of
               (Ok _, w') \<Rightarrow> (Ok [], w') | _ \<Rightarrow> (Err ''reverted'', w)))
      else (Err ''no such message'', w))"

definition demo_pool_chain :: "request_pool substrate_client" where
  "demo_pool_chain = \<lparr>
     api_call = (\<lambda>w call. Ok (Some (0 # demo_pool_query (call_data call) w))),
     submit_call = (\<lambda>call. demo_pool_submit (call_data call)),
     fetch_nonce = (\<lambda>w key. Ok (Some 0)),
     blake2_256 = (\<lambda>bs. of_nat (length bs) # replicate 31 0)\<rparr>"

definition demo_ink_pool :: "request_pool ink_pool" where
  "demo_ink_pool = \<lparr>pool_address = ''addr'', pool_backend = \<lparr>client = demo_pool_chain, signer_account = []\<rparr>,
     pool_ss58 = demo_ss58, pool_bytes = demo_bytes_codec, pool_slice = demo_bytes_codec,
     pool_list = demo_pool_list, pool_u64 = demo_u64\<rparr>"

lemma demo_pool_selector:
  "selector \<lparr>client = demo_pool_chain, signer_account = a\<rparr> m = [of_nat (length m), 0, 0, 0]"
  by (simp add: selector_def demo_pool_chain_def)

lemma demo_pool_calls:
  "submit_call demo_pool_chain (transact \<lparr>client = demo_pool_chain, signer_account = a\<rparr> b m d) =
     demo_pool_submit ([of_nat (length m), 0, 0, 0] @ d)"
  "api_call demo_pool_chain w (query \<lparr>client = demo_pool_chain, signer_account = a\<rparr> b m d) =
     Ok (Some (0 # demo_pool_query ([of_nat (length m), 0, 0, 0] @ d) w))"
  by (simp_all add: transact_def query_def demo_pool_selector) (simp_all add: demo_pool_chain_def)

lemma demo_request_dec:
  "dec (request_codec demo_bytes_codec) (enc demo_bytes_codec f @ enc demo_bytes_codec x @ enc demo_bytes_codec l)
    = Some (\<lparr>dr_filename = f, dr_witness_hex = x, dr_location = OpaqueEndpointAddr l\<rparr>, [])"
  using codec_ok_exact [OF request_codec_ok [OF demo_bytes_codec_ok],
      of "\<lparr>dr_filename = f, dr_witness_hex = x, dr_location = OpaqueEndpointAddr l\<rparr>"]
  by (simp add: enc_request)

lemma demo_pool_submit_add:
  "demo_pool_submit ([3, 0, 0, 0] @ enc demo_bytes_codec f @ enc demo_bytes_codec x @ enc demo_bytes_codec l) w =
    (case pool_add (\<lambda>b. b) 0 (GenericData f) (GenericData x) (GenericData l) w of
       (Ok _, w') \<Rightarrow> (Ok [], w') | _ \<Rightarrow> (Err ''reverted'', w))"
  by (simp add: demo_pool_submit_def demo_request_dec)

lemma demo_hosts_pool: "hosts_pool demo_ink_pool (\<lambda>b. b) (\<lambda>w. w)"
proof -
  have "demo_pool_submit ([of_nat (length m), 0, 0, 0] @ d) w = (Err ''no such message'', w)"
    if "[of_nat (length m) :: byte, 0, 0, 0] \<notin> (\<lambda>m. [of_nat (length m), 0, 0, 0]) ` set pool_messages" for m d w
    using that by (auto simp: demo_pool_submit_def pool_messages_def)
  moreover have "demo_pool_query ([of_nat (length ''read_all''), 0, 0, 0] @ d) w
      = enc demo_pool_list (map from_contract (pool_read_all w))"
    and "demo_pool_query ([of_nat (length ''count''), 0, 0, 0] @ d) w = enc demo_u64 (pool_count w)" for d w
    by (simp_all add: demo_pool_query_def)
  moreover have "of_nat (length ''add'') = (3 :: byte)" by simp
  moreover have "pool_add (\<lambda>b. b) 0 (GenericData f) (GenericData x) (GenericData l) w = (Ok (), w')"
    if "(case pool_add (\<lambda>b. b) 0 (GenericData f) (GenericData x) (GenericData l) w of
       (Ok _, w') \<Rightarrow> (Ok [], w') | _ \<Rightarrow> (Err ''reverted'', w)) = (Ok h, w')" for f x l w w' and h :: bytes
    using that by (auto split: prod.splits outcome.splits)
  ultimately show ?thesis
    unfolding hosts_pool_def demo_ink_pool_def Let_def ink_pool.simps substrate_backend.simps
      demo_pool_selector demo_pool_calls
    by (simp only: demo_pool_submit_add) blast
qed


section \<open>Properties\<close>

text \<open>
  A request that was added is seen by everyone: when the client's \<open>add\<close> succeeds against the
  contract, the listing that any node then reads is the listing before it with the request at
  the end, field for field.
\<close>

lemma added_request_is_listed:
  assumes "hosts_pool P H view" and "codec_ok (pool_list P)"
    and "pool_new ws = Ok s0" and "(pool_step H)\<^sup>*\<^sup>* s0 (view w)"
    and "ink_add P req w = (Ok (), w')"
  shows "\<exists>before. ink_read_all P w = Ok before \<and> ink_read_all P w' = Ok (before @ [req])"
proof -
  obtain now where add: "pool_add H now (GenericData (dr_filename req)) (GenericData (dr_witness_hex req))
      (GenericData (addr_bytes (dr_location req))) (view w) = (Ok (), view w')"
    using ink_add_hosted [OF assms(1,5)] by blast
  have "ids_inv H (view w)"
    using pool_reachable_inv [OF assms(3,4)] by (simp add: pool_inv_def)
  from read_all_add [OF this, of now "GenericData (dr_filename req)" "GenericData (dr_witness_hex req)"
      "GenericData (addr_bytes (dr_location req))"]
  show ?thesis
    by (simp add: ink_read_all_hosted [OF assms(1,2)] add from_contract_def)
qed

lemma added_request_is_listed_witness:
  "\<exists>before. ink_read_all demo_ink_pool demo_pool0 = Ok before
    \<and> ink_read_all demo_ink_pool (snd (ink_add demo_ink_pool
        \<lparr>dr_filename = [1], dr_witness_hex = [2], dr_location = OpaqueEndpointAddr [3]\<rparr> demo_pool0))
      = Ok (before @ [\<lparr>dr_filename = [1], dr_witness_hex = [2], dr_location = OpaqueEndpointAddr [3]\<rparr>])"
proof -
  let ?req = "\<lparr>dr_filename = [1], dr_witness_hex = [2], dr_location = OpaqueEndpointAddr [3]\<rparr>"
  have "fst (ink_add demo_ink_pool ?req demo_pool0) = Ok ()"
    by (simp add: ink_add_def demo_ink_pool_def Let_def backend_transact demo_pool_calls enc_request
        demo_pool_submit_add [simplified] bind_action_def)
      (simp add: pool_add_def hash_request_def demo_pool0_def Let_def)
  then obtain w' where run: "ink_add demo_ink_pool ?req demo_pool0 = (Ok (), w')"
    by (cases "ink_add demo_ink_pool ?req demo_pool0") simp
  have "codec_ok (pool_list demo_ink_pool)" by (simp add: demo_ink_pool_def demo_pool_list_ok)
  from added_request_is_listed [OF demo_hosts_pool this demo_new rtranclp.rtrancl_refl run]
  show ?thesis unfolding run by simp
qed

end
