(* ===== verification/Pool_Watcher.thy ===== *)
theory Pool_Watcher
  imports Pool_Client "HOL-Library.Sublist"
begin

text \<open>
  The polling watcher, \<open>fangorn/src/pool/watcher.rs\<close>: each round reads the pool and sends the
  requests it has not seen to the worker's channel. One execution is the list of its rounds: what
  the flag said at the head of the loop, what the read returned, and whether the channel had a
  receiver. A list of rounds is a prefix of an execution, which may go on forever.
\<close>

record watcher =
  w_running :: bool
  w_seen :: "bytes set"
  w_sent :: "decryption_request list"

record poll_round =
  rd_stopped :: bool
  rd_result :: "(decryption_request list, string) outcome"
  rd_connected :: bool

definition watcher_new :: watcher where
  "watcher_new = \<lparr>w_running = False, w_seen = {}, w_sent = []\<rparr>"

text \<open>The loop over one listing. An identifier is marked as seen before its request is sent.\<close>

fun send_new ::
  "(decryption_request \<Rightarrow> bytes) \<Rightarrow> bool \<Rightarrow> decryption_request list \<Rightarrow> (watcher, unit, string) action" where
  "send_new ident connected [] s = (Ok (), s)"
| "send_new ident connected (req # reqs) s =
     (if ident req \<in> w_seen s then send_new ident connected reqs s
      else let s' = s\<lparr>w_seen := insert (ident req) (w_seen s)\<rparr>
           in if connected then send_new ident connected reqs (s'\<lparr>w_sent := w_sent s' @ [req]\<rparr>)
              else (Err ''sending on a closed channel'', s'))"

fun watch_loop :: "(decryption_request \<Rightarrow> bytes) \<Rightarrow> poll_round list \<Rightarrow> (watcher, unit, string) action" where
  "watch_loop ident [] s = (Ok (), s)"
| "watch_loop ident (r # rs) s =
     (if rd_stopped r then (Ok (), s\<lparr>w_running := False\<rparr>)
      else (case rd_result r of
          Ok reqs \<Rightarrow> bind_action (send_new ident (rd_connected r) reqs) (\<lambda>_. watch_loop ident rs) s
        | Err e \<Rightarrow> (Err e, s)
        | Panic p \<Rightarrow> (Panic p, s)))"

definition watch :: "(decryption_request \<Rightarrow> bytes) \<Rightarrow> poll_round list \<Rightarrow> (watcher, unit, string) action" where
  "watch ident rs s = watch_loop ident rs (s\<lparr>w_running := True\<rparr>)"

definition watcher_stop :: "watcher \<Rightarrow> watcher" where
  "watcher_stop s = s\<lparr>w_running := False\<rparr>"


section \<open>Each request once\<close>

definition watcher_inv :: "(decryption_request \<Rightarrow> bytes) \<Rightarrow> watcher \<Rightarrow> bool" where
  "watcher_inv ident s \<longleftrightarrow> distinct (map ident (w_sent s)) \<and> ident ` set (w_sent s) \<subseteq> w_seen s"

inductive watcher_step :: "(decryption_request \<Rightarrow> bytes) \<Rightarrow> watcher \<Rightarrow> watcher \<Rightarrow> bool" for ident where
  listing: "send_new ident c reqs s = (r, t) \<Longrightarrow> watcher_step ident s t"
| start: "watcher_step ident s (s\<lparr>w_running := True\<rparr>)"
| stop: "watcher_step ident s (watcher_stop s)"

lemma watcher_inv_send:
  "watcher_inv ident s \<Longrightarrow> watcher_inv ident (snd (send_new ident c reqs s))"
proof (induction ident c reqs s rule: send_new.induct)
  case (2 ident c req reqs s)
  let ?s' = "s\<lparr>w_seen := insert (ident req) (w_seen s)\<rparr>"
  show ?case
  proof (cases "ident req \<in> w_seen s")
    case False
    then have "watcher_inv ident ?s'" and "watcher_inv ident (?s'\<lparr>w_sent := w_sent ?s' @ [req]\<rparr>)"
      using "2.prems" by (auto simp: watcher_inv_def)
    with False "2.IH"(2) [OF False refl] show ?thesis by (simp add: Let_def)
  qed (use 2 in simp)
qed simp

lemma send_new_grows: "\<exists>new. w_sent (snd (send_new ident c reqs s)) = w_sent s @ new"
  by (induction ident c reqs s rule: send_new.induct) (auto simp: Let_def)

inductive_cases watcher_step_cases: "watcher_step ident s t"

lemma watcher_step_inv: "watcher_inv ident s \<Longrightarrow> watcher_step ident s t \<Longrightarrow> watcher_inv ident t"
proof (erule watcher_step_cases)
  fix c reqs r
  assume "watcher_inv ident s" and "send_new ident c reqs s = (r, t)"
  then show ?thesis using watcher_inv_send [of ident s c reqs] by simp
qed (simp_all add: watcher_inv_def watcher_stop_def)

lemma watcher_step_grows: "watcher_step ident s t \<Longrightarrow> \<exists>new. w_sent t = w_sent s @ new"
proof (erule watcher_step_cases)
  fix c reqs r
  assume "send_new ident c reqs s = (r, t)"
  then show ?thesis using send_new_grows [of ident c reqs s] by simp
qed (simp_all add: watcher_stop_def)

interpretation watcher_log: growing_log "\<lambda>s. s = watcher_new" "watcher_step ident" "watcher_inv ident" w_sent
  for ident
  by unfold_locales (simp add: watcher_inv_def watcher_new_def, erule (1) watcher_step_inv, rule watcher_step_grows)

lemma watch_loop_steps: "(watcher_step ident)\<^sup>*\<^sup>* s (snd (watch_loop ident rs s))"
proof (induction rs arbitrary: s)
  case (Cons r rs)
  show ?case
  proof (cases "rd_stopped r")
    case True
    then show ?thesis using stop [of ident s] by (simp add: watcher_stop_def)
  next
    case running: False
    show ?thesis
    proof (cases "rd_result r")
      case (Ok reqs)
      obtain o' t where send: "send_new ident (rd_connected r) reqs s = (o', t)" by force
      then have "watcher_step ident s t" by (rule listing)
      with Cons.IH [of t] have "(watcher_step ident)\<^sup>*\<^sup>* s (snd (watch_loop ident rs t))"
        and "(watcher_step ident)\<^sup>*\<^sup>* s t"
        by (auto intro: converse_rtranclp_into_rtranclp)
      with Ok running send show ?thesis by (cases o') auto
    qed (use running in simp_all)
  qed
qed simp

lemma watch_steps: "(watcher_step ident)\<^sup>*\<^sup>* s (snd (watch ident rs s))"
  using watch_loop_steps [of ident "s\<lparr>w_running := True\<rparr>" rs] start [of ident s]
  by (simp add: watch_def converse_rtranclp_into_rtranclp)


section \<open>Nothing is missed\<close>

lemma send_new_listing:
  assumes "distinct (map ident reqs)" and "prefix (w_sent s) reqs" and "w_seen s = ident ` set (w_sent s)"
  shows "fst (send_new ident True reqs s) = Ok ()"
    and "w_sent (snd (send_new ident True reqs s)) = reqs"
    and "w_seen (snd (send_new ident True reqs s)) = ident ` set reqs"
proof -
  have skip: "ident ` set xs \<subseteq> w_seen s \<Longrightarrow> send_new ident True (xs @ ys) s = send_new ident True ys s" for xs ys
    by (induction xs) auto
  have fresh: "distinct (map ident ys) \<Longrightarrow> ident ` set ys \<inter> w_seen t = {} \<Longrightarrow>
      send_new ident True ys t
        = (Ok (), t\<lparr>w_seen := w_seen t \<union> ident ` set ys, w_sent := w_sent t @ ys\<rparr>)" for ys t
    by (induction ys arbitrary: t) (auto simp: Let_def)
  obtain ys where ys: "reqs = w_sent s @ ys" using assms(2) by (auto simp: prefix_def)
  have "send_new ident True reqs s = send_new ident True ys s"
    unfolding ys by (rule skip) (simp add: assms(3))
  also have "\<dots> = (Ok (), s\<lparr>w_seen := w_seen s \<union> ident ` set ys, w_sent := w_sent s @ ys\<rparr>)"
    using assms(1) by (intro fresh) (auto simp: ys assms(3))
  finally show "fst (send_new ident True reqs s) = Ok ()"
    and "w_sent (snd (send_new ident True reqs s)) = reqs"
    and "w_seen (snd (send_new ident True reqs s)) = ident ` set reqs"
    by (auto simp: ys assms(3))
qed

definition good_round :: "decryption_request list \<Rightarrow> poll_round" where
  "good_round reqs = \<lparr>rd_stopped = False, rd_result = Ok reqs, rd_connected = True\<rparr>"

text \<open>A growing listing, read round after round.\<close>

lemma watch_loop_growing:
  assumes "ls \<noteq> []" and "sorted_wrt prefix ls" and "distinct (map ident (last ls))"
    and "prefix (w_sent s) (hd ls)" and "w_seen s = ident ` set (w_sent s)"
  shows "fst (watch_loop ident (map good_round ls) s) = Ok ()
    \<and> w_sent (snd (watch_loop ident (map good_round ls) s)) = last ls"
  using assms
proof (induction ls arbitrary: s)
  case (Cons l ls)
  have pre: "prefix l (last (l # ls))" using Cons.prems(2) by (cases ls rule: rev_cases) auto
  then have "distinct (map ident l)"
    using Cons.prems(3) by (auto simp: prefix_def)
  note send = send_new_listing [OF this, of s] 
  obtain r t where st: "send_new ident True l s = (r, t)" by force
  with send Cons.prems(4,5) have t: "r = Ok ()" "w_sent t = l" "w_seen t = ident ` set l" by auto
  have run: "watch_loop ident (map good_round (l # ls)) s = watch_loop ident (map good_round ls) t"
    by (simp add: good_round_def st t)
  show ?case
  proof (cases ls)
    case Nil
    then show ?thesis using run by (simp add: t)
  next
    case (Cons l' ls')
    then have "fst (watch_loop ident (map good_round ls) t) = Ok ()
        \<and> w_sent (snd (watch_loop ident (map good_round ls) t)) = last ls"
      using Cons.prems t by (intro Cons.IH) auto
    then show ?thesis using Cons unfolding run by simp
  qed
qed simp


text \<open>No request is listed twice.\<close>

lemma pool_listing_distinct:
  assumes "ids_inv H s"
  shows "distinct (map from_contract (pool_read_all s))"
proof -
  have "distinct (List.map_filter (requests s) rids)" if "distinct rids" for rids
    using that
  proof (induction rids)
    case (Cons x xs)
    show ?case
    proof (cases "requests s x")
      case (Some r)
      have "requests s y \<noteq> Some r" if "y \<in> set xs" for y
      proof
        assume "requests s y = Some r"
        with Some assms have "y = x" unfolding ids_inv_def by metis
        with that Cons.prems show False by simp
      qed
      then have "r \<notin> set (List.map_filter (requests s) xs)"
        by (simp add: set_map_filter)
      with Some Cons show ?thesis by (simp add: List.map_filter_def)
    qed (use Cons in \<open>simp add: List.map_filter_def\<close>)
  qed (simp add: List.map_filter_def)
  then have "distinct (pool_read_all s)"
    using assms by (simp add: pool_read_all_def ids_inv_def)
  moreover have "inj_on from_contract (set (pool_read_all s))"
    by (simp add: inj_on_def from_contract_inject)
  ultimately show ?thesis by (simp add: distinct_map)
qed

text \<open>A run of the chain, looked at once per round.\<close>

definition pool_run :: "(bytes \<Rightarrow> bytes) \<Rightarrow> request_pool list \<Rightarrow> bool" where
  "pool_run H ss \<longleftrightarrow> sorted_wrt (pool_step H)\<^sup>*\<^sup>* ss \<and> (\<exists>ws s0. pool_new ws = Ok s0 \<and> (\<forall>s \<in> set ss. (pool_step H)\<^sup>*\<^sup>* s0 s))"

lemma pool_run_listings:
  assumes "pool_run H ss"
  shows "sorted_wrt prefix (map (\<lambda>s. map from_contract (pool_read_all s)) ss)"
proof -
  have grow: "prefix (map from_contract (pool_read_all s)) (map from_contract (pool_read_all t))"
    if "s \<in> set ss" "(pool_step H)\<^sup>*\<^sup>* s t" for s t
  proof -
    have "pool_inv H s" using assms that(1) pool_reachable_inv unfolding pool_run_def by blast
    from pool_log.steps_grow [OF that(2) this] show ?thesis by (auto intro: map_mono_prefix)
  qed
  have "sorted_wrt (\<lambda>s t. prefix (map from_contract (pool_read_all s)) (map from_contract (pool_read_all t))) ss"
    using assms grow unfolding pool_run_def by (auto intro: sorted_wrt_mono_rel)
  then show ?thesis by (simp add: sorted_wrt_map)
qed


section \<open>Properties\<close>

text \<open>
  No request is processed twice: whatever the pool returns in whatever round, whether reads
  fail or the loop is stopped, the requests sent to the worker have pairwise different
  identifiers, and what was sent stays sent in the order it was.
\<close>

lemma watcher_sends_once:
  "distinct (map ident (w_sent (snd (watch ident rs watcher_new))))
   \<and> (\<forall>rs'. \<exists>new. w_sent (snd (watch ident rs' (snd (watch ident rs watcher_new))))
        = w_sent (snd (watch ident rs watcher_new)) @ new)"
proof -
  have inv: "watcher_inv ident (snd (watch ident rs watcher_new))"
    by (rule watcher_log.reachable_inv [OF refl watch_steps])
  then show ?thesis
    using watcher_log.steps_grow [OF watch_steps] by (auto simp: watcher_inv_def)
qed

text \<open>
  C13. No request is missed: over any run of the chain in which the reads succeed and the worker is
  there, the watcher has sent, after its last round, exactly the requests the contract lists
  then, each once, in the order in which they were added. The identifiers, hashes of the
  encoded requests, must differ for the requests listed.
\<close>

theorem watcher_delivers_pool:
  assumes "hosts_pool P H view" and "codec_ok (pool_list P)"
    and "ws \<noteq> []" and "pool_run H (map view ws)"
    and "inj_on ident (set (map from_contract (pool_read_all (view (last ws)))))"
  shows "fst (watch ident (map (\<lambda>w. \<lparr>rd_stopped = False, rd_result = ink_read_all P w, rd_connected = True\<rparr>) ws)
        watcher_new) = Ok ()
    \<and> w_sent (snd (watch ident (map (\<lambda>w. \<lparr>rd_stopped = False, rd_result = ink_read_all P w, rd_connected = True\<rparr>) ws)
        watcher_new)) = map from_contract (pool_read_all (view (last ws)))"
proof -
  let ?ls = "map (\<lambda>w. map from_contract (pool_read_all (view w))) ws"
  have rounds: "map (\<lambda>w. \<lparr>rd_stopped = False, rd_result = ink_read_all P w, rd_connected = True\<rparr>) ws
      = map good_round ?ls"
    by (simp add: good_round_def ink_read_all_hosted [OF assms(1,2)])
  have last: "last ?ls = map from_contract (pool_read_all (view (last ws)))"
    using assms(3) by (simp add: last_map)
  have "view (last ws) \<in> set (map view ws)" using assms(3) by simp
  then have "pool_inv H (view (last ws))"
    using assms(4) pool_reachable_inv unfolding pool_run_def by blast
  then have "distinct (map ident (last ?ls))"
    unfolding last using assms(5) pool_listing_distinct [of H "view (last ws)"]
    by (simp only: distinct_map [of ident] pool_inv_def)
  moreover have "sorted_wrt prefix ?ls"
    using pool_run_listings [OF assms(4)] by (simp add: comp_def)
  ultimately show ?thesis
    using watch_loop_growing [of ?ls ident "watcher_new\<lparr>w_running := True\<rparr>"] assms(3)
    unfolding rounds watch_def by (simp add: last watcher_new_def)
qed

lemma demo_pool_run: "pool_run (\<lambda>b. b) [demo_pool0, demo_pool1, demo_pool1]"
  unfolding pool_run_def using demo_new demo_reach1 by auto

theorem watcher_delivers_pool_witness:
  "w_sent (snd (watch (\<lambda>r. dr_filename r) (map (\<lambda>w. \<lparr>rd_stopped = False, rd_result = ink_read_all demo_ink_pool w,
      rd_connected = True\<rparr>) [demo_pool0, demo_pool1, demo_pool1]) watcher_new))
   = map from_contract (pool_read_all demo_pool1)"
proof -
  have "codec_ok (pool_list demo_ink_pool)" by (simp add: demo_ink_pool_def demo_pool_list_ok)
  moreover have "inj_on dr_filename (set (map from_contract (pool_read_all demo_pool1)))"
    by (simp add: demo_defs pool_read_all_def pool_add_def Let_def List.map_filter_def hash_request_def)
  ultimately show ?thesis
    using watcher_delivers_pool [OF demo_hosts_pool, of "[demo_pool0, demo_pool1, demo_pool1]" dr_filename]
      demo_pool_run
    by simp
qed

end
