(* ===== verification/Intent_Parser.thy ===== *)
theory Intent_Parser
  imports Libraries
begin

text \<open>
  The intent string parser, \<open>parse_intent_string\<close> of \<open>fangorn/src/gadget/mod.rs\<close>: the input is
  split at \<open>&&\<close>, each piece is trimmed and read as \<open>type(data)\<close> with nested parentheses in the
  data. The loop over \<open>char_indices\<close> is the recursive \<open>scan_close\<close>; it looks at bytes, which is the
  same because the two parentheses are single bytes that occur in no longer UTF-8 sequence.
\<close>

definition DELIMITER :: string where
  "DELIMITER = ''&&''"

text \<open>
  The scan for the closing parenthesis: \<open>i\<close> is the byte offset, \<open>depth\<close> the number of open
  parentheses. When the input ends first, \<open>end_pos\<close> keeps its initial value 0.
\<close>

fun scan_close :: "string \<Rightarrow> nat \<Rightarrow> int \<Rightarrow> nat" where
  "scan_close [] i depth = 0"
| "scan_close (c # cs) i depth =
     (if c = CHR ''('' then scan_close cs (Suc i) (depth + 1)
      else if c = CHR '')'' then
        (if depth - 1 = 0 then i else scan_close cs (Suc i) (depth - 1))
      else scan_close cs (Suc i) depth)"

text \<open>One piece: \<open>Err\<close> carries the input at which nom failed.\<close>

definition parse_part :: "nom_lib \<Rightarrow> string \<Rightarrow> (string \<times> string, string) outcome" where
  "parse_part N input =
     and_then (ok_or (trim input) (take_until N ''('' (trim input))) (\<lambda>(input1, intent_type).
     and_then (ok_or input1 (nom_tag N ''('' input1)) (\<lambda>(input2, _).
       let end_pos = scan_close input2 0 1
       in Ok (intent_type, take end_pos input2)))"

fun parse_parts :: "nom_lib \<Rightarrow> string list \<Rightarrow> ((string \<times> string) list, string) outcome" where
  "parse_parts N [] = Ok []"
| "parse_parts N (p # ps) =
     and_then (parse_part N p) (\<lambda>x. and_then (parse_parts N ps) (\<lambda>xs. Ok (x # xs)))"

definition parse_intent_string :: "nom_lib \<Rightarrow> string \<Rightarrow> ((string \<times> string) list, string) outcome" where
  "parse_intent_string N raw_input = parse_parts N (split_str DELIMITER raw_input)"


section \<open>The scan\<close>

text \<open>Data whose parentheses match: the depth never falls below its start and comes back to it.\<close>

fun balanced :: "nat \<Rightarrow> string \<Rightarrow> bool" where
  "balanced d [] = (d = 0)"
| "balanced d (c # cs) =
     (if c = CHR ''('' then balanced (Suc d) cs
      else if c = CHR '')'' then (case d of 0 \<Rightarrow> False | Suc d' \<Rightarrow> balanced d' cs)
      else balanced d cs)"

text \<open>Data in which every opened level is still open at the end: the scan finds no close.\<close>

fun unclosed :: "nat \<Rightarrow> string \<Rightarrow> bool" where
  "unclosed d [] = True"
| "unclosed d (c # cs) =
     (if c = CHR ''('' then unclosed (Suc d) cs
      else if c = CHR '')'' then (case d of 0 \<Rightarrow> False | Suc d' \<Rightarrow> unclosed d' cs)
      else unclosed d cs)"

lemma scan_balanced:
  "balanced d s \<Longrightarrow> scan_close (s @ CHR '')'' # rest) i (1 + int d) = i + length s"
proof (induction s arbitrary: d i)
  case (Cons c cs)
  show ?case
  proof (cases "c = CHR ''(''")
    case True
    with Cons.prems have "balanced (Suc d) cs" by simp
    from Cons.IH [OF this, of "Suc i"] True show ?thesis by (simp add: algebra_simps)
  next
    case not_open: False
    show ?thesis
    proof (cases "c = CHR '')''")
      case True
      with Cons.prems obtain d' where "d = Suc d'" and "balanced d' cs"
        by (auto split: nat.splits)
      with Cons.IH [of d' "Suc i"] True show ?thesis by simp
    next
      case False
      with Cons not_open show ?thesis by simp
    qed
  qed
qed simp

lemma scan_unclosed: "unclosed d s \<Longrightarrow> scan_close s i (1 + int d) = 0"
proof (induction s arbitrary: d i)
  case (Cons c cs)
  show ?case
  proof (cases "c = CHR ''(''")
    case True
    with Cons.prems have "unclosed (Suc d) cs" by simp
    from Cons.IH [OF this, of "Suc i"] True show ?thesis by (simp add: algebra_simps)
  next
    case not_open: False
    show ?thesis
    proof (cases "c = CHR '')''")
      case True
      with Cons.prems obtain d' where "d = Suc d'" and "unclosed d' cs"
        by (auto split: nat.splits)
      with Cons.IH [of d' "Suc i"] True show ?thesis by simp
    next
      case False
      with Cons not_open show ?thesis by simp
    qed
  qed
qed simp

text \<open>
  The slice \<open>&input[..end_pos]\<close> never panics: the offset is at most the length. The model counts
  the depth in an unbounded integer where the code has an \<open>i32\<close>; every value it takes is between
  1 and one more than the bytes scanned, so no input below two gigabytes overflows it.
\<close>

lemma scan_in_range: "scan_close s i d = 0 \<or> (i \<le> scan_close s i d \<and> scan_close s i d < i + length s)"
  by (induction s i d rule: scan_close.induct) auto

fun scan_depths :: "string \<Rightarrow> int \<Rightarrow> int list" where
  "scan_depths [] depth = [depth]"
| "scan_depths (c # cs) depth =
     depth # (if c = CHR ''('' then scan_depths cs (depth + 1)
              else if c = CHR '')'' then
                (if depth - 1 = 0 then [depth - 1] else scan_depths cs (depth - 1))
              else scan_depths cs depth)"

lemma scan_depths_bound:
  "0 < d \<Longrightarrow> k \<in> set (scan_depths s d) \<Longrightarrow> 0 \<le> k \<and> k \<le> d + int (length s)"
proof (induction s d arbitrary: k rule: scan_depths.induct)
  case (2 c cs depth)
  consider "k = depth" | "c = CHR ''(''" "k \<in> set (scan_depths cs (depth + 1))"
    | "k = depth - 1" | "c \<noteq> CHR ''(''" "c = CHR '')''" "depth - 1 \<noteq> 0" "k \<in> set (scan_depths cs (depth - 1))"
    | "c \<noteq> CHR ''(''" "c \<noteq> CHR '')''" "k \<in> set (scan_depths cs depth)"
    using "2.prems"(2) by (auto split: if_splits)
  then show ?case
  proof cases
    case 2
    with "2.IH"(1) [OF this(1), of k] "2.prems"(1) show ?thesis by simp
  next
    case 4
    with "2.IH"(2) [OF this(1-3), of k] "2.prems"(1) show ?thesis by simp
  next
    case 5
    with "2.IH"(3) [OF this(1,2), of k] "2.prems"(1) show ?thesis by simp
  qed (use "2.prems"(1) in simp_all)
qed simp


section \<open>Splitting a rendered intent\<close>

fun has_delimiter :: "string \<Rightarrow> bool" where
  "has_delimiter (a # b # s) = ((a = CHR ''&'' \<and> b = CHR ''&'') \<or> has_delimiter (b # s))"
| "has_delimiter [] = False"
| "has_delimiter [v] = False"

lemma starts_with_delimiter:
  "starts_with DELIMITER s \<longleftrightarrow> (\<exists>t. s = CHR ''&'' # CHR ''&'' # t)"
  by (cases s rule: has_delimiter.cases) (auto simp: starts_with_def DELIMITER_def)

lemma split_no_delimiter: "\<not> has_delimiter s \<Longrightarrow> split_str DELIMITER s = [s]"
proof (induction s rule: has_delimiter.induct)
  case (1 a b s)
  then have "\<not> starts_with DELIMITER (a # b # s)" by (auto simp: starts_with_delimiter)
  with 1 show ?case by simp
next
  case (3 v)
  have "\<not> starts_with DELIMITER [v]" by (simp add: starts_with_delimiter)
  then show ?case by simp
qed simp

lemma split_at_delimiter:
  "\<not> has_delimiter s \<Longrightarrow> s = [] \<or> last s \<noteq> CHR ''&'' \<Longrightarrow>
   split_str DELIMITER (s @ DELIMITER @ t) = s # split_str DELIMITER t"
proof (induction s rule: has_delimiter.induct)
  case (1 a b s)
  then have "\<not> starts_with DELIMITER ((a # b # s) @ DELIMITER @ t)"
    by (auto simp: starts_with_delimiter)
  moreover have "split_str DELIMITER ((b # s) @ DELIMITER @ t) = (b # s) # split_str DELIMITER t"
    using 1 by (intro "1.IH") auto
  ultimately show ?case by simp
next
  case 2
  then show ?case by (simp add: starts_with_def DELIMITER_def)
next
  case (3 v)
  then have "\<not> starts_with DELIMITER (v # DELIMITER @ t)"
    by (auto simp: starts_with_delimiter)
  then show ?case by (simp add: starts_with_def DELIMITER_def)
qed

lemma has_delimiter_join:
  "c \<noteq> CHR ''&'' \<Longrightarrow>
   has_delimiter (s @ c # t) \<longleftrightarrow> has_delimiter s \<or> has_delimiter t"
proof (induction s rule: has_delimiter.induct)
  case 2
  then show ?case by (cases t) auto
next
  case (3 v)
  then show ?case by (cases t) auto
qed simp

lemma no_delimiter: "CHR ''&'' \<notin> set s \<Longrightarrow> \<not> has_delimiter s"
  by (induction s rule: has_delimiter.induct) auto


section \<open>Rendering\<close>

text \<open>
  How the callers write an intent: \<open>Type(data)\<close>, and several joined by \<open> && \<close> with a space on
  each side.
\<close>

definition render_intent :: "string \<times> string \<Rightarrow> string" where
  "render_intent x = fst x @ ''('' @ snd x @ '')''"

fun render_intents :: "(string \<times> string) list \<Rightarrow> string" where
  "render_intents [] = []"
| "render_intents [x] = render_intent x"
| "render_intents (x # y # xs) = render_intent x @ '' && '' @ render_intents (y # xs)"

text \<open>
  A type name without parenthesis, ampersand or leading white space, and data with matching
  parentheses and no delimiter inside.
\<close>

definition well_formed :: "string \<times> string \<Rightarrow> bool" where
  "well_formed x \<longleftrightarrow>
     CHR ''('' \<notin> set (fst x) \<and> CHR ''&'' \<notin> set (fst x) \<and> ws_free_start white_space (fst x)
     \<and> balanced 0 (snd x) \<and> \<not> has_delimiter (snd x)"

lemmas white_space_defs = white_space_def ascii_ws_def multibyte_ws_def

lemma white_space_space:
  "[CHR '' ''] \<in> set white_space"
  "\<forall>w \<in> set white_space. w \<noteq> [] \<and> hd w = CHR '' '' \<longrightarrow> w = [CHR '' '']"
  "[CHR '' ''] \<in> set (map rev white_space)"
  "\<forall>w \<in> set (map rev white_space). w \<noteq> [] \<and> hd w = CHR '' '' \<longrightarrow> w = [CHR '' '']"
  by (simp_all add: white_space_defs)

lemma white_space_parens:
  "ws_free_start white_space (CHR ''('' # s)"
  "ws_free_start (map rev white_space) (CHR '')'' # s)"
proof -
  have "CHR ''('' \<notin> hd ` set (filter (\<lambda>w. w \<noteq> []) white_space)"
    and "CHR '')'' \<notin> hd ` set (filter (\<lambda>w. w \<noteq> []) (map rev white_space))"
    by (simp_all add: white_space_defs)
  then show "ws_free_start white_space (CHR ''('' # s)"
    and "ws_free_start (map rev white_space) (CHR '')'' # s)"
    by (simp_all add: ws_free_start_def)
qed

lemma render_start: "well_formed x \<Longrightarrow> ws_free_start white_space (render_intent x @ t)"
  using white_space_parens(1)
  by (cases "fst x") (auto simp: well_formed_def render_intent_def ws_free_start_def)

text \<open>A rendered intent loses the spaces around it and nothing else.\<close>

lemma trim_render:
  assumes "well_formed x"
  shows "trim (render_intent x) = render_intent x"
    and "trim ('' '' @ render_intent x) = render_intent x"
    and "trim (render_intent x @ '' '') = render_intent x"
    and "trim ('' '' @ render_intent x @ '' '') = render_intent x"
proof -
  have lead: "trim_with white_space (render_intent x @ t) = render_intent x @ t"
    "trim_with white_space (CHR '' '' # render_intent x @ t) = render_intent x @ t" for t
    using assms by (simp_all add: trim_with_space white_space_space trim_with_stable render_start)
  obtain r where r: "rev (render_intent x) = CHR '')'' # r"
    by (simp add: render_intent_def)
  have trail: "trim_with (map rev white_space) (rev (render_intent x)) = rev (render_intent x)"
    "trim_with (map rev white_space) (CHR '' '' # rev (render_intent x)) = rev (render_intent x)"
    using trim_with_stable [OF white_space_parens(2) [of r]]
      trim_with_space [OF white_space_space(3,4), of "rev (render_intent x)"]
    by (simp_all only: r)
  show "trim (render_intent x) = render_intent x"
    using lead(1) [of "[]"] trail(1) by (simp add: trim_def)
  show "trim ('' '' @ render_intent x) = render_intent x"
    using lead(2) [of "[]"] trail(1) by (simp add: trim_def)
  show "trim (render_intent x @ '' '') = render_intent x"
    using lead(1) [of "'' ''"] trail(2) by (simp add: trim_def)
  show "trim ('' '' @ render_intent x @ '' '') = render_intent x"
    using lead(2) [of "'' ''"] trail(2) by (simp add: trim_def)
qed

lemma parse_part_render:
  assumes "nom_ok N" and "well_formed x" and "trim p = render_intent x"
  shows "parse_part N p = Ok x"
proof -
  have until: "take_until N ''('' (render_intent x) = Some (''('' @ snd x @ '')'', fst x)"
    using nom_okD(1) [OF assms(1), of "CHR ''(''" "fst x"] assms(2)
    by (simp add: well_formed_def render_intent_def)
  have tag: "nom_tag N ''('' (''('' @ snd x @ '')'') = Some (snd x @ '')'', ''('')"
    by (rule nom_okD(3) [OF assms(1)])
  have "scan_close (snd x @ '')'') 0 1 = length (snd x)"
    using scan_balanced [of 0 "snd x" "[]" 0] assms(2) by (simp add: well_formed_def)
  then show ?thesis
    using until tag by (simp add: parse_part_def assms(3) Let_def)
qed

lemma render_no_delimiter:
  assumes "well_formed x"
  shows "\<not> has_delimiter (render_intent x)" and "\<not> has_delimiter (render_intent x @ '' '')"
    and "\<not> has_delimiter ('' '' @ render_intent x)"
    and "\<not> has_delimiter ('' '' @ render_intent x @ '' '')"
proof -
  have body: "\<not> has_delimiter (snd x @ CHR '')'' # t)" if "\<not> has_delimiter t" for t
    using assms that by (simp add: has_delimiter_join well_formed_def)
  have "\<not> has_delimiter (fst x @ CHR ''('' # snd x @ CHR '')'' # t)"
    if "\<not> has_delimiter t" for t
    using assms that body by (simp add: has_delimiter_join well_formed_def no_delimiter)
  then have all: "\<not> has_delimiter (render_intent x @ t)" if "\<not> has_delimiter t" for t
    using that by (simp add: render_intent_def)
  have sp: "\<not> has_delimiter '' ''" by simp
  have lead: "has_delimiter (CHR '' '' # t) = has_delimiter t" for t
    using has_delimiter_join [of "CHR '' ''" "[]" t] by simp
  show "\<not> has_delimiter (render_intent x)" using all [of "[]"] by simp
  show "\<not> has_delimiter (render_intent x @ '' '')" by (rule all [OF sp])
  show "\<not> has_delimiter ('' '' @ render_intent x)" using all [of "[]"] lead by simp
  show "\<not> has_delimiter ('' '' @ render_intent x @ '' '')" using all [OF sp] lead by simp
qed

lemma parse_parts_Cons:
  assumes "nom_ok N" and "well_formed x" and "trim p = render_intent x"
  shows "parse_parts N (p # ps) = and_then (parse_parts N ps) (\<lambda>xs. Ok (x # xs))"
  by (simp add: parse_part_render [OF assms])

text \<open>The rest of a rendered list, with the space its delimiter leaves in front.\<close>

lemma parse_render_tail:
  assumes "nom_ok N"
  shows "xs \<noteq> [] \<Longrightarrow> \<forall>x \<in> set xs. well_formed x \<Longrightarrow>
    parse_parts N (split_str DELIMITER ('' '' @ render_intents xs)) = Ok xs"
proof (induction xs rule: render_intents.induct)
  case (2 x)
  then have x: "well_formed x" by simp
  have "split_str DELIMITER ('' '' @ render_intent x) = ['' '' @ render_intent x]"
    using render_no_delimiter(3) [OF x] by (rule split_no_delimiter)
  then show ?case
    using parse_parts_Cons [OF assms x trim_render(2) [OF x], of "[]"] by simp
next
  case (3 x y xs)
  then have x: "well_formed x" by simp
  have "split_str DELIMITER (('' '' @ render_intent x @ '' '') @ DELIMITER @ ('' '' @ render_intents (y # xs)))
      = ('' '' @ render_intent x @ '' '') # split_str DELIMITER ('' '' @ render_intents (y # xs))"
    using render_no_delimiter(4) [OF x] by (intro split_at_delimiter) auto
  moreover have "parse_parts N (split_str DELIMITER ('' '' @ render_intents (y # xs))) = Ok (y # xs)"
    using 3 by simp
  moreover have "'' '' @ render_intents (x # y # xs)
      = ('' '' @ render_intent x @ '' '') @ DELIMITER @ ('' '' @ render_intents (y # xs))"
    by (simp add: DELIMITER_def)
  ultimately show ?case
    by (simp only: parse_parts_Cons [OF assms x trim_render(4) [OF x]] and_then.simps)
qed simp

lemma parse_render:
  assumes "nom_ok N" and "xs \<noteq> []" and "\<forall>x \<in> set xs. well_formed x"
  shows "parse_intent_string N (render_intents xs) = Ok xs"
proof (cases xs rule: render_intents.cases)
  case (2 x)
  with assms have x: "well_formed x" by simp
  show ?thesis
    using 2 parse_parts_Cons [OF assms(1) x trim_render(1) [OF x], of "[]"]
    by (simp add: parse_intent_string_def split_no_delimiter render_no_delimiter(1) [OF x])
next
  case (3 x y ys)
  with assms have x: "well_formed x" by simp
  have "split_str DELIMITER ((render_intent x @ '' '') @ DELIMITER @ ('' '' @ render_intents (y # ys)))
      = (render_intent x @ '' '') # split_str DELIMITER ('' '' @ render_intents (y # ys))"
    using render_no_delimiter(2) [OF x] by (intro split_at_delimiter) auto
  moreover have "parse_parts N (split_str DELIMITER ('' '' @ render_intents (y # ys))) = Ok (y # ys)"
    using 3 assms by (intro parse_render_tail) auto
  moreover have "render_intents (x # y # ys)
      = (render_intent x @ '' '') @ DELIMITER @ ('' '' @ render_intents (y # ys))"
    by (simp add: DELIMITER_def)
  ultimately show ?thesis
    by (simp only: 3 parse_intent_string_def parse_parts_Cons [OF assms(1) x trim_render(3) [OF x]]
        and_then.simps)
qed (use assms(2) in simp)


section \<open>When parsing fails\<close>

lemma parse_part_paren:
  assumes "nom_ok N" and "trim p = pre @ CHR ''('' # post" and "CHR ''('' \<notin> set pre"
  shows "parse_part N p = Ok (pre, take (scan_close post 0 1) post)"
  using nom_okD(1) [OF assms(1,3), of post] nom_okD(3) [OF assms(1), of "''(''" post]
  by (simp add: parse_part_def assms(2) Let_def)

lemma parse_part_no_paren:
  assumes "nom_ok N" and "CHR ''('' \<notin> set (trim p)"
  shows "parse_part N p = Err (trim p)"
  using nom_okD(2) [OF assms] by (simp add: parse_part_def)

lemma parse_part_cases:
  assumes "nom_ok N"
  shows "if CHR ''('' \<in> set (trim p) then \<exists>x. parse_part N p = Ok x
         else parse_part N p = Err (trim p)"
  using parse_part_paren [OF assms] parse_part_no_paren [OF assms]
  by (metis split_list_first)

text \<open>The loop stops at the first piece without an opening parenthesis.\<close>

lemma parse_parts_find:
  assumes "nom_ok N"
  shows "case find (\<lambda>p. CHR ''('' \<notin> set (trim p)) ps of
      None \<Rightarrow> \<exists>xs. parse_parts N ps = Ok xs \<and> length xs = length ps
    | Some p \<Rightarrow> parse_parts N ps = Err (trim p)"
proof (induction ps)
  case (Cons p ps)
  show ?case
  proof (cases "CHR ''('' \<in> set (trim p)")
    case True
    with parse_part_cases [OF assms, of p] obtain x where "parse_part N p = Ok x" by auto
    with Cons True show ?thesis by (auto split: option.splits)
  next
    case False
    with parse_part_no_paren [OF assms] show ?thesis by simp
  qed
qed simp


section \<open>Properties\<close>

text \<open>
  C15. What the callers write is what the parser reads: a non-empty list of intents, each a type
  name and data with matching parentheses and no \<open>&&\<close>, rendered with \<open> && \<close> between them,
  parses to exactly these types and data, in order.
\<close>

theorem intent_parse_roundtrip:
  assumes "nom_ok N" and "xs \<noteq> []" and "\<forall>x \<in> set xs. well_formed x"
  shows "parse_intent_string N (render_intents xs) = Ok xs"
  using assms by (rule parse_render)

theorem intent_parse_roundtrip_witness:
  "parse_intent_string demo_nom ''Intent1(data1) && Intent2(data2--$$#()) && Intent3()''
     = Ok [(''Intent1'', ''data1''), (''Intent2'', ''data2--$$#()''), (''Intent3'', [])]"
proof -
  let ?xs = "[(''Intent1'', ''data1''), (''Intent2'', ''data2--$$#()''), (''Intent3'', [])]"
  have "\<forall>x \<in> set ?xs. well_formed x"
    by (simp add: well_formed_def ws_free_start_def white_space_defs)
  from intent_parse_roundtrip [OF demo_nom_ok _ this] show ?thesis
    by (simp add: render_intent_def)
qed

text \<open>
  The parser returns or fails, it never panics: it fails exactly when a piece between
  delimiters has no opening parenthesis, with nom's error at the first such piece, and otherwise
  returns one pair per piece.
\<close>

lemma intent_parse_total:
  assumes "nom_ok N"
  shows "case find (\<lambda>p. CHR ''('' \<notin> set (trim p)) (split_str DELIMITER s) of
      None \<Rightarrow> \<exists>xs. parse_intent_string N s = Ok xs \<and> length xs = length (split_str DELIMITER s)
    | Some p \<Rightarrow> parse_intent_string N s = Err (trim p)"
  unfolding parse_intent_string_def by (rule parse_parts_find [OF assms])

lemma intent_parse_total_witness:
  "parse_intent_string demo_nom ''Password(a) && Sr25519'' = Err ''Sr25519''"
proof -
  have "split_str DELIMITER ''Password(a) && Sr25519'' = [''Password(a) '', '' Sr25519'']"
    by (simp add: DELIMITER_def starts_with_def)
  moreover have "trim '' Sr25519'' = ''Sr25519''" and "trim ''Password(a) '' = ''Password(a)''"
    by (simp_all add: trim_def white_space_defs starts_with_def trim_with.simps)
  ultimately show ?thesis
    using intent_parse_total [OF demo_nom_ok, of "''Password(a) && Sr25519''"] by simp
qed

text \<open>
  A missing closing parenthesis is not an error: the whole data is dropped and the intent is
  read with empty data, whatever was written after the opening parenthesis.
\<close>

lemma intent_parse_unclosed:
  assumes "nom_ok N" and "CHR ''('' \<notin> set ty" and "\<not> has_delimiter (ty @ ''('' @ data)"
    and "trim (ty @ ''('' @ data) = ty @ ''('' @ data" and "unclosed 0 data"
  shows "parse_intent_string N (ty @ ''('' @ data) = Ok [(ty, [])]"
  using parse_part_paren [OF assms(1), of "ty @ ''('' @ data" ty data] assms(2,4)
    scan_unclosed [OF assms(5), of 0]
  by (simp add: parse_intent_string_def split_no_delimiter [OF assms(3), simplified])

lemma intent_parse_unclosed_witness:
  "parse_intent_string demo_nom ''Password(my secret'' = Ok [(''Password'', [])]"
proof -
  have "trim (''Password'' @ ''('' @ ''my secret'') = ''Password'' @ ''('' @ ''my secret''"
    by (simp add: trim_def white_space_defs starts_with_def trim_with.simps)
  from intent_parse_unclosed [OF demo_nom_ok _ _ this] show ?thesis by simp
qed

end
