(* ===== verification/Gadget_Registry.thy ===== *)
theory Gadget_Registry
  imports Intent_Parser
begin

text \<open>
  The gadget framework, \<open>fangorn/src/gadget/mod.rs\<close>: the \<open>Gadget\<close> trait, the registry, and the
  parsing and verification of intents. A trait object is the record of its methods. A gadget may
  read the chain, whose state is \<open>'w\<close>; \<open>verify_intents\<close> awaits each gadget in turn, so the chain
  may differ between two of them: \<open>ws k\<close> is the state when intent \<open>k\<close> is verified.
\<close>

section \<open>Data\<close>

datatype intent_error =
    ParseError string
  | VerificationError string
  | UnknownIntentType string
  | SerializationError string

fun display_intent_error :: "intent_error \<Rightarrow> string" where
  "display_intent_error (ParseError s) = ''Parse error: '' @ s"
| "display_intent_error (VerificationError s) = ''Verification error: '' @ s"
| "display_intent_error (UnknownIntentType s) = ''Unknown intent type: '' @ s"
| "display_intent_error (SerializationError s) = ''Serialization error: '' @ s"

record 'w gadget =
  intent_type_id :: string
  verify_witness :: "'w \<Rightarrow> bytes \<Rightarrow> bytes \<Rightarrow> (bool, intent_error) outcome"
  parse_intent_data :: "string \<Rightarrow> (bytes, intent_error) outcome"

record 'w intent =
  intent_type :: string
  statement :: bytes
  attached_gadget :: "'w gadget option"

type_synonym 'w gadget_registry = "string \<rightharpoonup> 'w gadget"


section \<open>Registry\<close>

definition registry_new :: "'w gadget_registry" where
  "registry_new = Map.empty"

definition register_gadget :: "'w gadget \<Rightarrow> 'w gadget_registry \<Rightarrow> 'w gadget_registry" where
  "register_gadget g R = R(intent_type_id g \<mapsto> g)"

definition get_gadget :: "'w gadget_registry \<Rightarrow> string \<Rightarrow> 'w gadget option" where
  "get_gadget R ty = R ty"

text \<open>Every registered gadget is found under its own type.\<close>

definition registry_wf :: "'w gadget_registry \<Rightarrow> bool" where
  "registry_wf R \<longleftrightarrow> (\<forall>ty g. get_gadget R ty = Some g \<longrightarrow> intent_type_id g = ty)"

lemma registry_wf_new: "registry_wf registry_new"
  by (simp add: registry_wf_def registry_new_def get_gadget_def)

lemma registry_wf_register: "registry_wf R \<Longrightarrow> registry_wf (register_gadget g R)"
  by (simp add: registry_wf_def register_gadget_def get_gadget_def)


section \<open>Parsing intents\<close>

definition make_intent ::
  "'w gadget_registry \<Rightarrow> string \<times> string \<Rightarrow> ('w intent, intent_error) outcome" where
  "make_intent R = (\<lambda>(ty, data).
     and_then (ok_or (UnknownIntentType ty) (get_gadget R ty)) (\<lambda>gadget.
     and_then (parse_intent_data gadget data) (\<lambda>st.
       Ok \<lparr>intent_type = ty, statement = st, attached_gadget = Some gadget\<rparr>)))"

fun make_intents ::
  "'w gadget_registry \<Rightarrow> (string \<times> string) list \<Rightarrow> ('w intent list, intent_error) outcome" where
  "make_intents R [] = Ok []"
| "make_intents R (x # xs) =
     and_then (make_intent R x) (\<lambda>i. and_then (make_intents R xs) (\<lambda>is. Ok (i # is)))"

definition parse_intents ::
  "nom_lib \<Rightarrow> 'w gadget_registry \<Rightarrow> string \<Rightarrow> ('w intent list, intent_error) outcome" where
  "parse_intents N R input =
     and_then (map_err (\<lambda>e. ParseError (nom_debug N e)) (parse_intent_string N input))
       (\<lambda>parsed_intents. make_intents R parsed_intents)"


section \<open>Verifying intents\<close>

definition verify_intent ::
  "'w gadget_registry \<Rightarrow> 'w \<Rightarrow> 'w intent \<Rightarrow> bytes \<Rightarrow> (bool, intent_error) outcome" where
  "verify_intent R w intent witness =
     and_then (case attached_gadget intent of
         Some m \<Rightarrow> Ok m
       | None \<Rightarrow> ok_or (UnknownIntentType (intent_type intent)) (get_gadget R (intent_type intent)))
       (\<lambda>gadget. verify_witness gadget w witness (statement intent))"

fun verify_pairs ::
  "'w gadget_registry \<Rightarrow> (nat \<Rightarrow> 'w) \<Rightarrow> nat \<Rightarrow> ('w intent \<times> bytes) list
   \<Rightarrow> (bool, intent_error) outcome" where
  "verify_pairs R ws k [] = Ok True"
| "verify_pairs R ws k ((intent, witness) # ps) =
     and_then (verify_intent R (ws k) intent witness) (\<lambda>b.
       if \<not> b then Err (VerificationError (intent_type intent))
       else verify_pairs R ws (Suc k) ps)"

text \<open>
  The witness is the SCALE encoding of a list of byte strings, one per intent. A witness that does
  not decode and one of another length are panics; bytes after the encoded list are ignored.
\<close>

definition verify_intents ::
  "bytes list codec \<Rightarrow> 'w gadget_registry \<Rightarrow> (nat \<Rightarrow> 'w) \<Rightarrow> 'w intent list \<Rightarrow> bytes
   \<Rightarrow> (bool, intent_error) outcome" where
  "verify_intents C R ws intents witness =
     and_then (unwrap_decoded (map_option fst (dec C witness))) (\<lambda>decoded_witnesses.
       if length decoded_witnesses \<noteq> length intents
       then Panic (Assert_Failed ''Mismatched intents and witnesses'')
       else verify_pairs R ws 0 (zip intents decoded_witnesses))"


section \<open>Lemmas\<close>

lemma make_intent_Ok_iff:
  "make_intent R x = Ok i \<longleftrightarrow>
    (\<exists>g. get_gadget R (fst x) = Some g \<and> parse_intent_data g (snd x) = Ok (statement i)
       \<and> intent_type i = fst x \<and> attached_gadget i = Some g)"
  by (cases i) (auto simp: make_intent_def outcome_simps split: prod.splits)

lemma make_intents_Ok:
  "make_intents R xs = Ok is \<Longrightarrow> list_all2 (\<lambda>x i. make_intent R x = Ok i) xs is"
  by (induction xs arbitrary: "is") (auto simp: outcome_simps)

lemma make_intents_length: "make_intents R xs = Ok is \<Longrightarrow> length is = length xs"
  using make_intents_Ok list_all2_lengthD by metis

lemma make_intents_Panic:
  "make_intents R xs = Panic p \<Longrightarrow>
   \<exists>ty g data. get_gadget R ty = Some g \<and> parse_intent_data g data = Panic p"
  by (induction xs) (auto simp: make_intent_def outcome_simps, blast)

lemma verify_pairs_not_False: "verify_pairs R ws k ps \<noteq> Ok False"
proof (induction ps arbitrary: k)
  case (Cons p ps)
  then show ?case by (cases p) (auto simp: outcome_simps split: if_splits)
qed simp

lemma verify_pairs_True_iff:
  "verify_pairs R ws k ps = Ok True \<longleftrightarrow>
    (\<forall>j < length ps. verify_intent R (ws (k + j)) (fst (ps ! j)) (snd (ps ! j)) = Ok True)"
proof (induction ps arbitrary: k)
  case (Cons p ps)
  obtain i w where p: "p = (i, w)" by force
  have "verify_pairs R ws k (p # ps) = Ok True \<longleftrightarrow>
      verify_intent R (ws k) i w = Ok True \<and> verify_pairs R ws (Suc k) ps = Ok True"
    by (auto simp: p outcome_simps split: if_splits)
  also have "\<dots> \<longleftrightarrow> (\<forall>j < length (p # ps).
      verify_intent R (ws (k + j)) (fst ((p # ps) ! j)) (snd ((p # ps) ! j)) = Ok True)"
    by (auto simp: Cons.IH p All_less_Suc2)
  finally show ?case .
qed simp


text \<open>
  \<open>#[codec(skip)]\<close> on the gadget: an intent that was encoded and decoded has no gadget attached.
\<close>

definition detach :: "'w intent \<Rightarrow> 'w intent" where
  "detach i = i\<lparr>attached_gadget := None\<rparr>"

text \<open>The gadget that checks an intent: its own, or the one registered for its type.\<close>

definition gadget_for :: "'w gadget_registry \<Rightarrow> 'w intent \<Rightarrow> 'w gadget option" where
  "gadget_for R i =
     (case attached_gadget i of Some g \<Rightarrow> Some g | None \<Rightarrow> get_gadget R (intent_type i))"

lemma verify_intent_gadget_for:
  "verify_intent R w i x =
    (case gadget_for R i of
       Some g \<Rightarrow> verify_witness g w x (statement i)
     | None \<Rightarrow> Err (UnknownIntentType (intent_type i)))"
  by (auto simp: verify_intent_def gadget_for_def split: option.splits)

lemma verify_intent_detach:
  "gadget_for R (detach i) = gadget_for R i \<Longrightarrow> verify_intent R w (detach i) x = verify_intent R w i x"
  by (simp add: verify_intent_gadget_for) (simp add: detach_def split: option.splits)

lemma make_intents_gadget_for:
  "make_intents R xs = Ok is \<Longrightarrow> i \<in> set is \<Longrightarrow>
   gadget_for R i = get_gadget R (intent_type i) \<and> get_gadget R (intent_type i) \<noteq> None"
  by (induction xs arbitrary: "is")
    (auto simp: outcome_simps make_intent_Ok_iff gadget_for_def)

lemma verify_pairs_detach:
  "\<forall>i \<in> set is. gadget_for R i = get_gadget R (intent_type i) \<Longrightarrow>
   verify_pairs R ws k (zip (map detach is) xs) = verify_pairs R ws k (zip is xs)"
proof (induction "is" arbitrary: k xs)
  case (Cons i "is")
  have "gadget_for R (detach i) = gadget_for R i"
    using Cons.prems by (simp add: gadget_for_def detach_def)
  then have eq: "verify_intent R w (detach i) x = verify_intent R w i x" for w x
    by (rule verify_intent_detach)
  have "intent_type (detach i) = intent_type i" by (simp add: detach_def)
  with eq Cons show ?case by (cases xs) (simp_all cong: if_cong)
qed simp

lemma verify_intents_detach:
  "\<forall>i \<in> set is. gadget_for R i = get_gadget R (intent_type i) \<Longrightarrow>
   verify_intents C R ws (map detach is) w = verify_intents C R ws is w"
  by (simp add: verify_intents_def verify_pairs_detach cong: if_cong)

lemma verify_pairs_first_failure:
  "j < length ps \<Longrightarrow>
   \<forall>m < j. verify_intent R (ws (k + m)) (fst (ps ! m)) (snd (ps ! m)) = Ok True \<Longrightarrow>
   verify_intent R (ws (k + j)) (fst (ps ! j)) (snd (ps ! j)) \<noteq> Ok True \<Longrightarrow>
   verify_pairs R ws k ps =
    (case verify_intent R (ws (k + j)) (fst (ps ! j)) (snd (ps ! j)) of
       Ok _ \<Rightarrow> Err (VerificationError (intent_type (fst (ps ! j))))
     | Err e \<Rightarrow> Err e | Panic p \<Rightarrow> Panic p)"
proof (induction ps arbitrary: j k)
  case (Cons p ps)
  obtain i w where p: "p = (i, w)" by force
  show ?case
  proof (cases j)
    case 0
    with Cons.prems(3) show ?thesis
      by (cases "verify_intent R (ws k) i w") (auto simp: p)
  next
    case (Suc j')
    have "verify_intent R (ws k) i w = Ok True"
      using Cons.prems(2) [rule_format, of 0] Suc p by simp
    moreover have "\<forall>m < j'. verify_intent R (ws (Suc k + m)) (fst (ps ! m)) (snd (ps ! m)) = Ok True"
      using Cons.prems(2) Suc by auto
    ultimately show ?thesis
      using Cons.IH [of j' "Suc k"] Cons.prems(1,3) Suc p by (simp cong: outcome.case_cong)
  qed
qed simp


lemma verify_intents_Ok_iff:
  "verify_intents C R ws is witness = Ok b \<longleftrightarrow>
    b \<and> (\<exists>xs rest. dec C witness = Some (xs, rest) \<and> length xs = length is
      \<and> (\<forall>j < length is. \<exists>g. gadget_for R (is ! j) = Some g
            \<and> verify_witness g (ws j) (xs ! j) (statement (is ! j)) = Ok True))"
proof -
  have one: "verify_intent R w i x = Ok True \<longleftrightarrow>
      (\<exists>g. gadget_for R i = Some g \<and> verify_witness g w x (statement i) = Ok True)" for w i x
    by (simp add: verify_intent_gadget_for split: option.splits)
  have "b \<or> verify_pairs R ws 0 (zip is xs) \<noteq> Ok b" for xs
    using verify_pairs_not_False [of R ws 0 "zip is xs"] by (cases b) auto
  then show ?thesis
    by (cases b) (auto simp: verify_intents_def outcome_simps verify_pairs_True_iff one [symmetric])
qed

lemma verify_intents_enc:
  assumes "codec_ok C"
  shows "verify_intents C R ws is (enc C xs) = Ok True \<longleftrightarrow> length xs = length is
    \<and> (\<forall>j < length is. \<exists>g. gadget_for R (is ! j) = Some g
          \<and> verify_witness g (ws j) (xs ! j) (statement (is ! j)) = Ok True)"
  by (simp add: verify_intents_Ok_iff codec_ok_exact [OF assms])


section \<open>Properties\<close>

text \<open>
  C8. Verification is a conjunction and fails closed: \<open>verify_intents\<close> never returns \<open>Ok(false)\<close>,
  and it returns \<open>Ok(true)\<close> exactly when the witness decodes to one byte string per intent and
  every intent has a gadget, its own or the registered one, that accepts its byte string for its
  statement, in the chain state at its turn.
\<close>

theorem verify_intents_exact:
  "verify_intents C R ws is witness = Ok b \<longleftrightarrow>
    b \<and> (\<exists>xs rest. dec C witness = Some (xs, rest) \<and> length xs = length is
      \<and> (\<forall>j < length is. \<exists>g. gadget_for R (is ! j) = Some g
            \<and> verify_witness g (ws j) (xs ! j) (statement (is ! j)) = Ok True))"
  by (rule verify_intents_Ok_iff)

theorem verify_intents_exact_witness:
  "verify_intents (demo_list_codec demo_bytes_codec) registry_new (\<lambda>k. k)
      [\<lparr>intent_type = ''T'', statement = [1], attached_gadget =
          Some \<lparr>intent_type_id = ''T'', verify_witness = (\<lambda>w x st. Ok (w = 0 \<and> x = st)),
            parse_intent_data = (\<lambda>s. Ok [])\<rparr>\<rparr>]
      (enc (demo_list_codec demo_bytes_codec) [[1]]) = Ok True"
  unfolding verify_intents_exact
  by (simp add: codec_ok_exact [OF demo_list_codec_ok [OF demo_bytes_codec_ok]] gadget_for_def)

text \<open>
  The outcome of a rejection is decided by the first intent that is not accepted: \<open>Ok(false)\<close>
  of its gadget becomes a verification error that names its type, an error or a panic is passed
  on, and what the later intents and their witnesses are does not matter.
\<close>

lemma verify_intents_first_failure:
  assumes "dec C witness = Some (xs, rest)" and "length xs = length is" and "j < length is"
    and "\<forall>m < j. verify_intent R (ws m) (is ! m) (xs ! m) = Ok True"
    and "verify_intent R (ws j) (is ! j) (xs ! j) \<noteq> Ok True"
  shows "verify_intents C R ws is witness =
    (case verify_intent R (ws j) (is ! j) (xs ! j) of
       Ok _ \<Rightarrow> Err (VerificationError (intent_type (is ! j)))
     | Err e \<Rightarrow> Err e | Panic p \<Rightarrow> Panic p)"
  using verify_pairs_first_failure [of j "zip is xs" R ws 0] assms
  by (simp add: verify_intents_def cong: outcome.case_cong)

lemma verify_intents_first_failure_witness:
  "verify_intents (demo_list_codec demo_bytes_codec)
      (register_gadget \<lparr>intent_type_id = ''Eq'', verify_witness = (\<lambda>w x st. Ok (x = st)),
         parse_intent_data = (\<lambda>s. Ok (as_bytes s))\<rparr> registry_new) (\<lambda>_. ())
      [\<lparr>intent_type = ''Eq'', statement = [1], attached_gadget = None\<rparr>,
       \<lparr>intent_type = ''Eq'', statement = [2], attached_gadget = None\<rparr>,
       \<lparr>intent_type = ''Ne'', statement = [], attached_gadget = None\<rparr>]
      (enc (demo_list_codec demo_bytes_codec) [[1], [3], []])
    = Err (VerificationError ''Eq'')"
proof -
  have ex: "(\<forall>m < (1 :: nat). P m) \<longleftrightarrow> P 0" for P by auto
  show ?thesis
    using verify_intents_first_failure [OF codec_ok_exact [OF demo_list_codec_ok [OF demo_bytes_codec_ok]],
      of "[[1], [3], []]" "[\<lparr>intent_type = ''Eq'', statement = [1], attached_gadget = None\<rparr>,
       \<lparr>intent_type = ''Eq'', statement = [2], attached_gadget = None\<rparr>,
       \<lparr>intent_type = ''Ne'', statement = [], attached_gadget = None\<rparr>]" 1
      "register_gadget \<lparr>intent_type_id = ''Eq'', verify_witness = (\<lambda>w x st. Ok (x = st)),
         parse_intent_data = (\<lambda>s. Ok (as_bytes s))\<rparr> registry_new" "\<lambda>_. ()"]
    by (simp add: ex verify_intent_def register_gadget_def get_gadget_def)
qed

end
