(* ===== verification/Gadgets.thy ===== *)
theory Gadgets
  imports Gadget_Registry Substrate_Backend
begin

text \<open>
  The three gadgets: \<open>fangorn/src/gadget/password.rs\<close>, \<open>psp22.rs\<close> and \<open>sr25519.rs\<close>. SHA-256, the
  SS58 and hex decoders, the SCALE codec of \<open>u128\<close> and sr25519 verification are arguments.
\<close>

section \<open>Password\<close>

definition password_gadget :: "(bytes \<Rightarrow> bytes) \<Rightarrow> 'w gadget" where
  "password_gadget sha256 =
     \<lparr>intent_type_id = ''Password'',
      verify_witness = (\<lambda>w witness st. Ok (sha256 witness = st)),
      parse_intent_data = (\<lambda>data. Ok (sha256 (as_bytes data)))\<rparr>"


section \<open>Psp22\<close>

text \<open>
  The witness is the text of an SS58 address, the statement the token contract (32 bytes) and the
  least balance (16 bytes, little endian). \<open>read\<close> is the backend's contract query, \<open>decode_error\<close>
  the codec's text for bytes that do not decode.
\<close>

definition psp22_verify ::
  "ss58_lib \<Rightarrow> u128 codec \<Rightarrow> (bytes \<Rightarrow> string) \<Rightarrow> ('w \<Rightarrow> bytes \<Rightarrow> string \<Rightarrow> bytes option \<Rightarrow> (bytes option, string) outcome)
   \<Rightarrow> 'w \<Rightarrow> bytes \<Rightarrow> bytes \<Rightarrow> (bool, intent_error) outcome" where
  "psp22_verify A C decode_error read w witness st =
     and_then (expect_option ''Invalid UTF-8 sequence'' (from_utf8 witness)) (\<lambda>pubkey_string.
     let account = decode_public_key A pubkey_string
     in if length account \<noteq> 32 then Err (VerificationError ''Witness must be 32-byte account ID'')
        else if length st \<noteq> 48
        then Err (VerificationError ''Statement must be 48 bytes (32 addr + 16 balance)'')
        else
          let token_contract = take 32 st;
              minimum_balance = u128_from_le_bytes (take 16 (drop 32 st))
          in and_then (map_err (\<lambda>e. VerificationError (''Contract query failed: '' @ e))
                        (read w token_contract ''PSP22::balance_of'' (Some account))) (\<lambda>result.
             and_then (strip_status result) (\<lambda>data.
             and_then (ok_or (VerificationError (''Decode failed: '' @ decode_error data)) (dec C data))
               (\<lambda>(balance, _).
               Ok (balance \<ge> minimum_balance)))))"

definition psp22_parse :: "ss58_lib \<Rightarrow> string \<Rightarrow> (bytes, intent_error) outcome" where
  "psp22_parse A data =
     (case split_char CHR '','' data of
        [p0, p1] \<Rightarrow>
          let contract_addr = decode_contract_addr A (trim p0)
          in if length contract_addr \<noteq> 32 then Err (ParseError ''Address must be 32 bytes'')
             else and_then (ok_or (ParseError ''Minimum balance must be a valid u128.'')
                             (parse_u128 (trim p1))) (\<lambda>min_balance.
                    Ok (contract_addr @ u128_to_le_bytes min_balance))
      | _ \<Rightarrow> Err (ParseError ''PSP22 format: contract_address,minimum_balance''))"

definition psp22_gadget ::
  "ss58_lib \<Rightarrow> u128 codec \<Rightarrow> (bytes \<Rightarrow> string) \<Rightarrow> ('w \<Rightarrow> bytes \<Rightarrow> string \<Rightarrow> bytes option \<Rightarrow> (bytes option, string) outcome)
   \<Rightarrow> 'w gadget" where
  "psp22_gadget A C decode_error read =
     \<lparr>intent_type_id = ''Psp22'', verify_witness = psp22_verify A C decode_error read,
      parse_intent_data = psp22_parse A\<rparr>"


section \<open>Sr25519\<close>

text \<open>
  The witness is a 48-byte SS58 address and the hex text of a 64-byte signature. The signed
  message is the statement followed by the account's nonce. \<open>verify signature message key\<close> is
  \<open>sr25519::Pair::verify\<close>; \<open>get_nonce\<close> is the backend's nonce. A 64-byte array is always a
  \<open>Signature\<close>, so the last conversion of the source has no failing branch.
\<close>

definition sr25519_verify ::
  "ss58_lib \<Rightarrow> hex_lib \<Rightarrow> (bytes \<Rightarrow> bytes \<Rightarrow> bytes \<Rightarrow> bool) \<Rightarrow> ('w \<Rightarrow> bytes \<Rightarrow> (u32, string) outcome)
   \<Rightarrow> 'w \<Rightarrow> bytes \<Rightarrow> bytes \<Rightarrow> (bool, intent_error) outcome" where
  "sr25519_verify A X verify get_nonce w witness st =
     (if length witness \<noteq> 176
      then Err (VerificationError (''Witness must be 176 bytes (Pubkey-as-ss58 + Signature). Got ''
                  @ show_nat (length witness)))
      else
        and_then (expect_option ''Invalid UTF-8 sequence'' (from_utf8 (take 48 witness)))
          (\<lambda>pubkey_string.
        let pubkey_bytes = decode_public_key A pubkey_string;
            sig_hex = drop 48 witness
        in and_then (unwrap_decoded (hex_decode X sig_hex)) (\<lambda>signature_bytes.
           if length signature_bytes \<noteq> 64 then Err (VerificationError ''Invalid Signature length'')
           else and_then (unwrap_result (get_nonce w pubkey_bytes)) (\<lambda>nonce.
                  let message = st @ u32_to_le_bytes nonce
                  in Ok (verify signature_bytes message pubkey_bytes)))))"

definition sr25519_gadget ::
  "ss58_lib \<Rightarrow> hex_lib \<Rightarrow> (bytes \<Rightarrow> bytes \<Rightarrow> bytes \<Rightarrow> bool) \<Rightarrow> ('w \<Rightarrow> bytes \<Rightarrow> (u32, string) outcome)
   \<Rightarrow> 'w gadget" where
  "sr25519_gadget A X verify get_nonce =
     \<lparr>intent_type_id = ''Sr25519'', verify_witness = sr25519_verify A X verify get_nonce,
      parse_intent_data = (\<lambda>_. Ok [])\<rparr>"


section \<open>The registry of the node and of the client\<close>

text \<open>The libraries a node's gadgets use.\<close>

record gadget_libs =
  lib_sha256 :: "bytes \<Rightarrow> bytes"
  lib_ss58 :: ss58_lib
  lib_u128 :: "u128 codec"
  lib_u128_error :: "bytes \<Rightarrow> string"
  lib_hex :: hex_lib
  lib_sr25519_verify :: "bytes \<Rightarrow> bytes \<Rightarrow> bytes \<Rightarrow> bool"

text \<open>
  Both \<open>iroh_testnet_setup\<close> (the client) and \<open>build_full_service\<close> (the node) register the three
  gadgets in this order.
\<close>

definition default_registry :: "gadget_libs \<Rightarrow> 'w substrate_backend \<Rightarrow> 'w gadget_registry" where
  "default_registry L B =
     register_gadget (sr25519_gadget (lib_ss58 L) (lib_hex L) (lib_sr25519_verify L) (nonce B))
      (register_gadget (psp22_gadget (lib_ss58 L) (lib_u128 L) (lib_u128_error L) (backend_read B))
        (register_gadget (password_gadget (lib_sha256 L)) registry_new))"

lemma default_registry_wf: "registry_wf (default_registry L B)"
  by (simp add: default_registry_def registry_wf_register registry_wf_new)

lemma default_registry_lookup:
  "get_gadget (default_registry L B) ''Password'' = Some (password_gadget (lib_sha256 L))"
  "get_gadget (default_registry L B) ''Psp22'' =
     Some (psp22_gadget (lib_ss58 L) (lib_u128 L) (lib_u128_error L) (backend_read B))"
  "get_gadget (default_registry L B) ''Sr25519'' =
     Some (sr25519_gadget (lib_ss58 L) (lib_hex L) (lib_sr25519_verify L) (nonce B))"
  by (simp_all add: default_registry_def register_gadget_def get_gadget_def password_gadget_def
      psp22_gadget_def sr25519_gadget_def)

lemma default_registry_types:
  "get_gadget (default_registry L B) ty \<noteq> None \<longleftrightarrow> ty \<in> {''Password'', ''Psp22'', ''Sr25519''}"
  by (auto simp: default_registry_def register_gadget_def get_gadget_def registry_new_def
      password_gadget_def psp22_gadget_def sr25519_gadget_def)


section \<open>Lemmas of the gadgets\<close>

lemma psp22_parse_Ok_iff:
  assumes "ss58_ok A"
  shows "psp22_parse A data = Ok st \<longleftrightarrow>
    (\<exists>p0 p1 m. split_char CHR '','' data = [p0, p1] \<and> parse_u128 (trim p1) = Some m
       \<and> st = decode_contract_addr A (trim p0) @ u128_to_le_bytes m)"
proof (cases "split_char CHR '','' data" rule: remdups_adj.cases)
  case (3 p0 p1 ps)
  then show ?thesis
    using length_decode_contract_addr [OF assms, of "trim p0"]
    by (cases ps) (auto simp: psp22_parse_def outcome_simps Let_def)
qed (auto simp: psp22_parse_def)

lemma psp22_statement_fields:
  assumes "ss58_ok A" and "st = decode_contract_addr A a @ u128_to_le_bytes m"
  shows "length st = 48" and "take 32 st = decode_contract_addr A a"
    and "u128_from_le_bytes (take 16 (drop 32 st)) = m"
  using length_decode_contract_addr [OF assms(1), of a] by (simp_all add: assms(2))

lemma psp22_verify_statement:
  assumes "ss58_ok A" and "length st = 48" and "from_utf8 witness = Some addr"
    and "read w (take 32 st) ''PSP22::balance_of'' (Some (decode_public_key A addr)) = Ok (Some data)"
    and "dec C (tl data) = Some (balance, rest)"
  shows "psp22_verify A C decode_error read w witness st
    = Ok (u128_from_le_bytes (take 16 (drop 32 st)) \<le> balance)"
  using assms length_decode_public_key [OF assms(1), of addr]
  by (simp add: psp22_verify_def Let_def)


lemma sr25519_verify_message:
  assumes "length witness = 176" and "from_utf8 (take 48 witness) = Some addr"
    and "hex_decode X (drop 48 witness) = Some sig" and "length sig = 64"
    and "get_nonce w (decode_public_key A addr) = Ok n"
  shows "sr25519_verify A X verify get_nonce w witness st
    = Ok (verify sig (st @ u32_to_le_bytes n) (decode_public_key A addr))"
  using assms by (simp add: sr25519_verify_def Let_def)

lemma gadget_parse_not_Panic:
  assumes "ss58_ok (lib_ss58 L)" and "get_gadget (default_registry L B) ty = Some g"
  shows "parse_intent_data g data \<noteq> Panic p"
proof -
  have "psp22_parse A d \<noteq> Panic p" for A d
    by (auto simp: psp22_parse_def outcome_simps Let_def split: list.splits)
  moreover have "ty \<in> {''Password'', ''Psp22'', ''Sr25519''}"
    using assms(2) default_registry_types [of L B ty] by simp
  ultimately show ?thesis
    using assms(2)
    by (auto simp: default_registry_lookup password_gadget_def psp22_gadget_def sr25519_gadget_def)
qed


text \<open>
  The backend is used by verification only: what a gadget makes of a data string is the same for
  every node.
\<close>

lemma default_registry_parse:
  "(case get_gadget (default_registry L B) ty of None \<Rightarrow> None | Some g \<Rightarrow> Some (parse_intent_data g)) =
   (case get_gadget (default_registry L B') ty of None \<Rightarrow> None | Some g \<Rightarrow> Some (parse_intent_data g))"
  by (simp add: default_registry_def register_gadget_def get_gadget_def registry_new_def
      password_gadget_def psp22_gadget_def sr25519_gadget_def)

lemma make_intent_backend:
  assumes "make_intent (default_registry L B) x = Ok i"
  shows "\<exists>i'. make_intent (default_registry L B') x = Ok i' \<and> detach i' = detach i"
proof -
  obtain g where g: "get_gadget (default_registry L B) (fst x) = Some g"
    "parse_intent_data g (snd x) = Ok (statement i)" "intent_type i = fst x"
    using assms by (auto simp: make_intent_Ok_iff)
  then obtain g' where "get_gadget (default_registry L B') (fst x) = Some g'"
    "parse_intent_data g' (snd x) = Ok (statement i)"
    using default_registry_parse [of L B "fst x" B'] by (auto split: option.splits)
  then have "make_intent (default_registry L B') x
      = Ok \<lparr>intent_type = fst x, statement = statement i, attached_gadget = Some g'\<rparr>"
    by (simp add: make_intent_Ok_iff)
  moreover have "detach \<lparr>intent_type = fst x, statement = statement i, attached_gadget = Some g'\<rparr>
      = detach i"
    using g(3) by (cases i) (simp add: detach_def)
  ultimately show ?thesis by blast
qed

lemma make_intents_backend:
  "make_intents (default_registry L B) xs = Ok is \<Longrightarrow>
   \<exists>is'. make_intents (default_registry L B') xs = Ok is' \<and> map detach is' = map detach is"
proof (induction xs arbitrary: "is")
  case (Cons x xs)
  then obtain i js where "is = i # js" "make_intent (default_registry L B) x = Ok i"
    "make_intents (default_registry L B) xs = Ok js"
    by (auto simp: outcome_simps)
  moreover obtain i' where "make_intent (default_registry L B') x = Ok i'" "detach i' = detach i"
    using make_intent_backend calculation(2) by blast
  moreover obtain js' where "make_intents (default_registry L B') xs = Ok js'"
    "map detach js' = map detach js"
    using Cons.IH calculation(3) by blast
  ultimately show ?case by simp
qed simp

text \<open>What a gadget of the default registry makes of its data.\<close>

lemma make_intent_statement:
  assumes "ss58_ok (lib_ss58 L)" and "make_intent (default_registry L B) x = Ok i"
  shows "(intent_type i = ''Password'' \<and> statement i = lib_sha256 L (as_bytes (snd x)))
       \<or> (intent_type i = ''Psp22'' \<and> length (statement i) = 48)
       \<or> (intent_type i = ''Sr25519'' \<and> statement i = [])"
proof -
  obtain g where g: "get_gadget (default_registry L B) (fst x) = Some g"
    "parse_intent_data g (snd x) = Ok (statement i)" "intent_type i = fst x"
    using assms(2) by (auto simp: make_intent_Ok_iff)
  then have "fst x \<in> {''Password'', ''Psp22'', ''Sr25519''}"
    using default_registry_types [of L B "fst x"] by simp
  then show ?thesis
    using g psp22_statement_fields(1) [OF assms(1) refl]
    by (auto simp: default_registry_lookup password_gadget_def psp22_gadget_def
        sr25519_gadget_def psp22_parse_Ok_iff [OF assms(1)])
qed

lemma parse_intents_Ok_iff:
  "parse_intents N R s = Ok is \<longleftrightarrow> (\<exists>xs. parse_intent_string N s = Ok xs \<and> make_intents R xs = Ok is)"
  by (auto simp: parse_intents_def outcome_simps)

lemma make_password_intents:
  "make_intents (default_registry L B) (map (Pair ''Password'') ps) =
   Ok (map (\<lambda>p. \<lparr>intent_type = ''Password'', statement = lib_sha256 L (as_bytes p),
     attached_gadget = Some (password_gadget (lib_sha256 L))\<rparr>) ps)"
  by (induction ps) (simp_all add: make_intent_def default_registry_lookup password_gadget_def)

lemma well_formed_password:
  "balanced 0 p \<Longrightarrow> \<not> has_delimiter p \<Longrightarrow> well_formed (''Password'', p)"
  by (simp add: well_formed_def ws_free_start_def white_space_defs)


definition password_intents :: "gadget_libs \<Rightarrow> string list \<Rightarrow> 'w intent list" where
  "password_intents L ps = map (\<lambda>p. \<lparr>intent_type = ''Password'', statement = lib_sha256 L (as_bytes p),
     attached_gadget = Some (password_gadget (lib_sha256 L))\<rparr>) ps"

lemma parse_password_intents:
  assumes "nom_ok N" and "ps \<noteq> []" and "\<forall>p \<in> set ps. balanced 0 p \<and> \<not> has_delimiter p"
  shows "parse_intents N (default_registry L B) (render_intents (map (Pair ''Password'') ps))
    = Ok (password_intents L ps)"
proof -
  have "parse_intent_string N (render_intents (map (Pair ''Password'') ps)) = Ok (map (Pair ''Password'') ps)"
    using assms by (intro parse_render) (auto intro: well_formed_password)
  then show ?thesis
    by (simp add: parse_intents_Ok_iff make_password_intents password_intents_def)
qed

text \<open>When the stored intents of a list of passwords accept a list of witnesses.\<close>

lemma password_intents_accept:
  "length xs = length (map detach (password_intents L ps))
    \<and> (\<forall>j < length (map detach (password_intents L ps)).
         \<exists>g. gadget_for (default_registry L B) (map detach (password_intents L ps) ! j) = Some g
            \<and> verify_witness g (ws j) (xs ! j) (statement (map detach (password_intents L ps) ! j)) = Ok True)
   \<longleftrightarrow> map (lib_sha256 L) xs = map (\<lambda>p. lib_sha256 L (as_bytes p)) ps"
proof -
  let ?is = "map detach (password_intents L ps)"
  have len: "length (map detach (password_intents L ps)) = length ps"
    by (simp add: password_intents_def)
  have "(\<exists>g. gadget_for (default_registry L B) (?is ! j) = Some g
      \<and> verify_witness g (ws j) (xs ! j) (statement (?is ! j)) = Ok True)
      \<longleftrightarrow> lib_sha256 L (xs ! j) = lib_sha256 L (as_bytes (ps ! j))" if "j < length ps" for j
    using that by (simp add: password_intents_def gadget_for_def detach_def default_registry_lookup)
      (simp add: password_gadget_def)
  then show ?thesis
    unfolding len map_eq_map_nth by blast
qed

lemma password_verdict:
  assumes "codec_ok C"
  shows "verify_intents C (default_registry L B') ws (map detach (password_intents L ps)) (enc C xs) = Ok True
    \<longleftrightarrow> map (lib_sha256 L) xs = map (\<lambda>p. lib_sha256 L (as_bytes p)) ps"
  by (rule trans [OF verify_intents_enc [OF assms] password_intents_accept])

text \<open>A concrete choice of the libraries and a backend, for the witnesses.\<close>

definition demo_libs :: gadget_libs where
  "demo_libs = \<lparr>lib_sha256 = rev, lib_ss58 = demo_ss58, lib_u128 = map_codec u128_to_le_bytes u128_from_le_bytes demo_bytes_codec,
     lib_u128_error = (\<lambda>_. ''Not enough data to fill buffer''),
     lib_hex = demo_hex, lib_sr25519_verify = (\<lambda>sig msg key. take 4 sig = msg)\<rparr>"

text \<open>The chain state is the balance of the one holder.\<close>

definition demo_backend :: "u128 substrate_backend" where
  "demo_backend = \<lparr>client = \<lparr>
       api_call = (\<lambda>w call. Ok (Some (0 # enc (lib_u128 demo_libs) w))),
       submit_call = (\<lambda>call w. (Ok [], w)),
       fetch_nonce = (\<lambda>w key. Ok (Some 7)),
       blake2_256 = (\<lambda>bs. take 32 (bs @ replicate 32 0))\<rparr>,
     signer_account = replicate 32 1\<rparr>"


section \<open>Properties\<close>

text \<open>
  Password intents from text to decision: the string a client writes for any passwords with
  matching parentheses and no \<open>&&\<close> parses, and after storage drops the gadgets, verification on
  any node accepts a list of witnesses exactly when each hashes to what its password hashes to
  and there is one per password.
\<close>

lemma password_intents_open:
  assumes "nom_ok N" and "codec_ok C" and "ps \<noteq> []"
    and "\<forall>p \<in> set ps. balanced 0 p \<and> \<not> has_delimiter p"
  shows "\<exists>is. parse_intents N (default_registry L B) (render_intents (map (Pair ''Password'') ps)) = Ok is
    \<and> (\<forall>B' ws xs. verify_intents C (default_registry L B') ws (map detach is) (enc C xs) = Ok True
        \<longleftrightarrow> map (lib_sha256 L) xs = map (\<lambda>p. lib_sha256 L (as_bytes p)) ps)"
  using parse_password_intents [OF assms(1,3,4), of L B] password_verdict [OF assms(2)]
  by (metis (no_types, lifting))

lemma password_intents_open_witness:
  "\<exists>is. parse_intents demo_nom (default_registry demo_libs demo_backend) ''Password(ab) && Password(c())'' = Ok is
    \<and> verify_intents (demo_list_codec demo_bytes_codec) (default_registry demo_libs demo_backend) (\<lambda>_. 0)
        (map detach is) (enc (demo_list_codec demo_bytes_codec) [as_bytes ''ab'', as_bytes ''c()'']) = Ok True
    \<and> verify_intents (demo_list_codec demo_bytes_codec) (default_registry demo_libs demo_backend) (\<lambda>_. 0)
        (map detach is) (enc (demo_list_codec demo_bytes_codec) [as_bytes ''ab'', as_bytes ''c'']) \<noteq> Ok True"
  using password_intents_open [OF demo_nom_ok demo_list_codec_ok [OF demo_bytes_codec_ok],
      of "[''ab'', ''c()'']" demo_libs demo_backend]
  by (auto simp: render_intent_def demo_libs_def as_bytes_def)

text \<open>
  C20. Storage does not change a decision: what the client parses with its own backend, stored
  without the gadgets, is verified by a node exactly as if the node had parsed the string itself.
\<close>

theorem stored_intents_verify_alike:
  assumes "parse_intents N (default_registry L B) s = Ok is"
  shows "\<exists>is'. parse_intents N (default_registry L B') s = Ok is' \<and> map detach is' = map detach is
    \<and> (\<forall>C ws w. verify_intents C (default_registry L B') ws (map detach is) w
         = verify_intents C (default_registry L B') ws is' w)"
proof -
  obtain xs where xs: "parse_intent_string N s = Ok xs" "make_intents (default_registry L B) xs = Ok is"
    using assms by (auto simp: parse_intents_Ok_iff)
  then obtain is' where is': "make_intents (default_registry L B') xs = Ok is'"
    "map detach is' = map detach is"
    using make_intents_backend by blast
  have "verify_intents C (default_registry L B') ws (map detach is) w
      = verify_intents C (default_registry L B') ws is' w" for C ws w
    unfolding is'(2) [symmetric] using make_intents_gadget_for [OF is'(1)]
    by (intro verify_intents_detach) blast
  with is' xs(1) show ?thesis by (auto simp: parse_intents_Ok_iff)
qed

theorem stored_intents_verify_alike_witness:
  "\<exists>is'. parse_intents demo_nom (default_registry demo_libs demo_backend) ''Sr25519()'' = Ok is'
     \<and> map detach is' = [\<lparr>intent_type = ''Sr25519'', statement = [], attached_gadget = None\<rparr>]"
proof -
  let ?B = "demo_backend\<lparr>signer_account := []\<rparr>"
  have "parse_intent_string demo_nom (render_intents [(''Sr25519'', [])]) = Ok [(''Sr25519'', [])]"
    by (rule parse_render [OF demo_nom_ok]) (simp_all add: well_formed_def ws_free_start_def white_space_defs)
  then have "parse_intents demo_nom (default_registry demo_libs ?B) ''Sr25519()''
    = Ok [\<lparr>intent_type = ''Sr25519'', statement = [], attached_gadget =
        Some (sr25519_gadget (lib_ss58 demo_libs) (lib_hex demo_libs) (lib_sr25519_verify demo_libs) (nonce ?B))\<rparr>]"
    by (simp add: parse_intents_Ok_iff render_intent_def make_intent_def default_registry_lookup)
      (simp add: sr25519_gadget_def)
  from stored_intents_verify_alike [OF this, of demo_backend] show ?thesis
    by (auto simp: detach_def)
qed

text \<open>
  C23. What a parse of an intent string can return: every intent is of one of the three types, with
  the hash of the data as a password's statement, 48 bytes for a token balance (so the length
  check at verification never fails on a stored statement) and nothing for a signature; and the
  gadgets never panic on what a user writes.
\<close>

theorem parsed_intents_shape:
  assumes "nom_ok N" and "ss58_ok (lib_ss58 L)"
  shows "(\<forall>p. parse_intents N (default_registry L B) s \<noteq> Panic p)
    \<and> (\<forall>is. parse_intents N (default_registry L B) s = Ok is \<longrightarrow> (\<forall>i \<in> set is.
         (intent_type i = ''Password'' \<and> (\<exists>d. statement i = lib_sha256 L (as_bytes d)))
       \<or> (intent_type i = ''Psp22'' \<and> length (statement i) = 48)
       \<or> (intent_type i = ''Sr25519'' \<and> statement i = [])))"
proof (intro conjI allI impI ballI)
  fix p
  have "parse_intent_string N s \<noteq> Panic p"
    using parse_parts_find [OF assms(1), of "split_str DELIMITER s"]
    by (auto simp: parse_intent_string_def split: option.splits)
  moreover have "make_intents (default_registry L B) xs \<noteq> Panic p" for xs
    using gadget_parse_not_Panic [OF assms(2)] make_intents_Panic by blast
  ultimately show "parse_intents N (default_registry L B) s \<noteq> Panic p"
    by (auto simp: parse_intents_def outcome_simps)
next
  fix "is" i
  assume ok: "parse_intents N (default_registry L B) s = Ok is" and i: "i \<in> set is"
  then obtain xs where "make_intents (default_registry L B) xs = Ok is"
    by (auto simp: parse_intents_Ok_iff)
  from make_intents_Ok [OF this] i obtain x where "make_intent (default_registry L B) x = Ok i"
    by (induction rule: list_all2_induct) auto
  from make_intent_statement [OF assms(2) this]
  show "(intent_type i = ''Password'' \<and> (\<exists>d. statement i = lib_sha256 L (as_bytes d)))
       \<or> (intent_type i = ''Psp22'' \<and> length (statement i) = 48)
       \<or> (intent_type i = ''Sr25519'' \<and> statement i = [])"
    by blast
qed

theorem parsed_intents_shape_witness:
  "parse_intents demo_nom (default_registry demo_libs demo_backend) ''Psp22(a)'' \<noteq> Panic Unwrap_Err"
  using parsed_intents_shape [OF demo_nom_ok, of demo_libs demo_backend "''Psp22(a)''"]
  by (simp add: demo_libs_def demo_ss58_ok)

text \<open>
  C18. A token intent from its text to the decision: for a decimal minimum the statement has both
  fields in place, and a witness is accepted exactly when the balance the chain reports for the
  witness's account at its turn reaches the minimum. Which contract is queried: the one the
  address names, or the zero address when it names none.
\<close>

theorem psp22_intent_decision:
  assumes "ss58_ok A" and "CHR '','' \<notin> set addr" and "trim addr = addr"
    and "from_utf8 witness = Some holder"
    and "read w (case public_from_ss58 A addr of Some k \<Rightarrow> k | None \<Rightarrow> replicate 32 0)
       ''PSP22::balance_of'' (Some (decode_public_key A holder)) = Ok (Some data)"
    and "dec C (tl data) = Some (balance, rest)"
  shows "\<exists>st. psp22_parse A (addr @ '','' @ show_nat (unat (m :: u128))) = Ok st
    \<and> psp22_verify A C decode_error read w witness st = Ok (m \<le> balance)"
proof -
  let ?st = "decode_contract_addr A addr @ u128_to_le_bytes m"
  note fields = psp22_statement_fields [OF assms(1) refl, of addr m]
  have "CHR '','' \<notin> set (show_nat (unat m))"
    using show_nat_digits [of "unat m"] by (auto simp: digit_value_def)
  then have "split_char CHR '','' (addr @ '','' @ show_nat (unat m)) = [addr, show_nat (unat m)]"
    using split_char_append [OF assms(2)] split_char_no by simp
  then have "psp22_parse A (addr @ '','' @ show_nat (unat m)) = Ok ?st"
    unfolding psp22_parse_Ok_iff [OF assms(1)]
    by (intro exI [of _ addr] exI [of _ "show_nat (unat m)"] exI [of _ m])
      (simp add: assms(3) trim_show_nat parse_u128_show)
  moreover have "read w (take 32 ?st) ''PSP22::balance_of'' (Some (decode_public_key A holder)) = Ok (Some data)"
    unfolding fields(2) using assms(5) by (simp add: decode_contract_addr_def)
  then have "psp22_verify A C decode_error read w witness ?st = Ok (m \<le> balance)"
    using psp22_verify_statement [OF assms(1) fields(1) assms(4) _ assms(6), of "read" w]
    by (simp only: fields(3))
  ultimately show ?thesis by blast
qed

theorem psp22_intent_decision_witness:
  "\<exists>st. psp22_parse demo_ss58 (''X'' @ '','' @ show_nat (unat (100 :: u128))) = Ok st
    \<and> psp22_verify demo_ss58 (lib_u128 demo_libs) (lib_u128_error demo_libs) (backend_read demo_backend) 99 [] st = Ok False"
proof -
  have t: "trim ''X'' = ''X''"
    by (simp add: trim_def white_space_defs starts_with_def trim_with.simps)
  have c: "codec_ok (lib_u128 demo_libs)"
    by (simp add: demo_libs_def map_codec_ok demo_bytes_codec_ok)
  have r: "backend_read demo_backend 99 a m d = Ok (Some (0 # enc (lib_u128 demo_libs) 99))" for a m d
    by (simp add: backend_read_def demo_backend_def Let_def)
  show ?thesis
    using psp22_intent_decision [OF demo_ss58_ok, where addr = "''X''" and m = 100 and witness = "[]" and holder = "[]"
        and read = "backend_read demo_backend" and w = 99 and C = "lib_u128 demo_libs"
        and data = "0 # enc (lib_u128 demo_libs) 99" and balance = 99 and rest = "[]"]
    by (simp add: t r from_utf8_def codec_ok_exact [OF c])
qed

text \<open>
  A token contract address that does not decode is not refused: the intent is accepted with
  the zero address as its contract.
\<close>

lemma psp22_bad_address_accepted:
  assumes "public_from_ss58 A (trim addr) = None" and "CHR '','' \<notin> set addr"
  shows "psp22_parse A (addr @ '','' @ show_nat (unat (m :: u128)))
    = Ok (replicate 32 0 @ u128_to_le_bytes m)"
proof -
  have "CHR '','' \<notin> set (show_nat (unat m))"
    using show_nat_digits [of "unat m"] by (auto simp: digit_value_def)
  then have "split_char CHR '','' (addr @ '','' @ show_nat (unat m)) = [addr, show_nat (unat m)]"
    using split_char_append [OF assms(2)] split_char_no by simp
  then show ?thesis
    using assms(1) by (simp add: psp22_parse_def trim_show_nat parse_u128_show decode_contract_addr_def)
qed

lemma psp22_bad_address_accepted_witness:
  "psp22_parse demo_ss58 (''not an address'' @ '','' @ show_nat (unat (5 :: u128)))
    = Ok (replicate 32 0 @ u128_to_le_bytes 5)"
proof -
  have "trim ''not an address'' = ''not an address''"
    by (simp add: trim_def white_space_defs starts_with_def trim_with.simps)
  then have "public_from_ss58 demo_ss58 (trim ''not an address'') = None"
    by (simp add: demo_ss58_def)
  from psp22_bad_address_accepted [OF this, of 5] show ?thesis by simp
qed




text \<open>
  An address that does not decode is not refused here either: the signature is checked against the
  key whose bytes are all zero, of which nothing above is known.
\<close>

lemma sr25519_bad_address_zero_key:
  assumes "length witness = 176" and "from_utf8 (take 48 witness) = Some addr"
    and "account_from_ss58 A addr = None" and "hex_decode X (drop 48 witness) = Some sig"
    and "length sig = 64" and "get_nonce w (replicate 32 0) = Ok n"
  shows "sr25519_verify A X verify get_nonce w witness st
    = Ok (verify sig (st @ u32_to_le_bytes n) (replicate 32 0))"
  using sr25519_verify_message [OF assms(1,2,4,5), where A = A and get_nonce = get_nonce and w = w and n = n
      and verify = verify and st = st] assms(3,6)
  by (simp add: decode_public_key_def)

text \<open>
  And the intent names neither an account nor a file: whatever the data in its parentheses, what is
  stored is the same, so a witness for one such intent is, while its nonce lasts, one for all.
\<close>

lemma sr25519_intents_alike:
  assumes "make_intent (default_registry L B) (''Sr25519'', data) = Ok i"
    and "make_intent (default_registry L B') (''Sr25519'', data') = Ok i'"
  shows "detach i = detach i'"
  using assms by (auto simp: make_intent_Ok_iff default_registry_lookup sr25519_gadget_def detach_def)

end
