(* ===== verification/Predicate_Registry.thy ===== *)
theory Predicate_Registry
  imports Prelude
begin

text \<open>
  The predicate registry contract, \<open>contract/predicate-registry/lib.rs\<close>: a map from file names
  to entries (a content identifier and a predicate) with the list of registered names. An ink!
  \<open>Mapping\<close> is a map, a \<open>Vec\<close> a list; a message takes the storage and returns its result with
  the storage it leaves. The refinement at the end shows that the two fields together behave as
  one finite map.
\<close>

section \<open>Storage\<close>

datatype filename = Filename bytes

datatype cid = CID bytes

record entry =
  entry_cid :: cid
  entry_predicate :: bytes

record registry =
  reg_entries :: "filename \<rightharpoonup> entry"
  reg_filenames :: "filename list"
  reg_request_pool :: "bytes list"

datatype registry_error = FilenameAlreadyExists | FilenameNotFound | Registry_Unauthorized


section \<open>Messages\<close>

definition reg_new :: registry where
  "reg_new = \<lparr>reg_entries = Map.empty, reg_filenames = [], reg_request_pool = []\<rparr>"

definition register_predicate ::
  "filename \<Rightarrow> cid \<Rightarrow> bytes \<Rightarrow> (registry, unit, registry_error) action" where
  "register_predicate f c p s =
     (if reg_entries s f \<noteq> None then (Err FilenameAlreadyExists, s)
      else let e = \<lparr>entry_cid = c, entry_predicate = p\<rparr>
           in (Ok (), s\<lparr>reg_entries := (reg_entries s)(f \<mapsto> e),
                       reg_filenames := reg_filenames s @ [f]\<rparr>))"

definition reg_read :: "filename \<Rightarrow> registry \<Rightarrow> entry option" where
  "reg_read f s = reg_entries s f"

definition reg_read_all :: "registry \<Rightarrow> filename list" where
  "reg_read_all s = reg_filenames s"

text \<open>
  \<open>take\<close> removes the entry and returns it; the name leaves the list by \<open>swap_remove\<close>, when the
  list has it.
\<close>

definition remove_predicate :: "filename \<Rightarrow> (registry, entry, registry_error) action" where
  "remove_predicate f s =
     (case reg_entries s f of
        None \<Rightarrow> (Err FilenameNotFound, s)
      | Some e \<Rightarrow>
          let s' = s\<lparr>reg_entries := (reg_entries s)(f := None)\<rparr>
          in (Ok e,
              case position (\<lambda>g. g = f) (reg_filenames s') of
                None \<Rightarrow> s'
              | Some pos \<Rightarrow> s'\<lparr>reg_filenames := swap_remove pos (reg_filenames s')\<rparr>))"

lemmas registry_defs = register_predicate_def remove_predicate_def Let_def


section \<open>Functional behaviour and invariant\<close>

text \<open>The list holds exactly the names of the map, each once.\<close>

definition reg_inv :: "registry \<Rightarrow> bool" where
  "reg_inv s \<longleftrightarrow> distinct (reg_filenames s) \<and> set (reg_filenames s) = dom (reg_entries s)"

lemma reg_inv_new: "reg_inv reg_new"
  by (simp add: reg_inv_def reg_new_def)

lemma reg_inv_register: "reg_inv s \<Longrightarrow> reg_inv (snd (register_predicate f c p s))"
  by (auto simp: reg_inv_def registry_defs)

lemma reg_inv_remove:
  assumes "reg_inv s"
  shows "reg_inv (snd (remove_predicate f s))"
proof (cases "reg_entries s f")
  case None
  with assms show ?thesis by (simp add: registry_defs)
next
  case (Some e)
  then have "f \<in> set (reg_filenames s)" using assms by (auto simp: reg_inv_def)
  then obtain i where i: "position (\<lambda>g. g = f) (reg_filenames s) = Some i"
    by (cases "position (\<lambda>g. g = f) (reg_filenames s)") (auto simp: position_None_iff)
  then have "i < length (reg_filenames s)" and "reg_filenames s ! i = f"
    by (auto dest: position_SomeD)
  with swap_remove_distinct_set [of i "reg_filenames s"] assms
  have "distinct (swap_remove i (reg_filenames s))"
    and "set (swap_remove i (reg_filenames s)) = dom (reg_entries s) - {f}"
    by (auto simp: reg_inv_def)
  with Some i show ?thesis by (simp add: reg_inv_def registry_defs)
qed

lemma register_entries:
  "reg_entries (snd (register_predicate f c p s)) =
     (if reg_entries s f = None
      then (reg_entries s)(f \<mapsto> \<lparr>entry_cid = c, entry_predicate = p\<rparr>)
      else reg_entries s)"
  by (simp add: registry_defs)

lemma register_outcome:
  "fst (register_predicate f c p s) =
     (if reg_entries s f = None then Ok () else Err FilenameAlreadyExists)"
  by (simp add: registry_defs)

lemma remove_entries: "reg_entries (snd (remove_predicate f s)) = (reg_entries s)(f := None)"
  by (auto simp: registry_defs fun_eq_iff split: option.splits)

lemma remove_outcome: "fst (remove_predicate f s) = ok_or FilenameNotFound (reg_entries s f)"
  by (simp add: registry_defs split: option.splits)

text \<open>An error leaves the storage as it was.\<close>

lemma register_Err_unchanged: "register_predicate f c p s = (Err e, t) \<Longrightarrow> t = s"
  by (auto simp: registry_defs split: if_splits)

lemma remove_Err_unchanged: "remove_predicate f s = (Err e, t) \<Longrightarrow> t = s"
  by (auto simp: registry_defs split: option.splits)


section \<open>The registry as an interface\<close>

text \<open>
  What a client of a name registry relies on: registering a free name stores the value and
  nothing else, a taken name is refused, and removing gives the value back and frees the name.
\<close>

locale name_registry =
  fixes lookup :: "'s \<Rightarrow> 'k \<Rightarrow> 'v option"
    and insert_new :: "'k \<Rightarrow> 'v \<Rightarrow> ('s, unit, 'e) action"
    and take_out :: "'k \<Rightarrow> ('s, 'v, 'e) action"
    and taken :: 'e
    and missing :: 'e
  assumes insert_free: "lookup s k = None \<Longrightarrow> fst (insert_new k v s) = Ok ()"
    and insert_free_lookup:
      "lookup s k = None \<Longrightarrow> lookup (snd (insert_new k v s)) = (lookup s)(k \<mapsto> v)"
    and insert_taken: "lookup s k = Some w \<Longrightarrow> insert_new k v s = (Err taken, s)"
    and take_present: "lookup s k = Some v \<Longrightarrow> fst (take_out k s) = Ok v"
    and take_lookup: "lookup (snd (take_out k s)) = (lookup s)(k := None)"
    and take_missing: "lookup s k = None \<Longrightarrow> take_out k s = (Err missing, s)"
begin

lemma insert_then_lookup: "lookup s k = None \<Longrightarrow> lookup (snd (insert_new k v s)) k = Some v"
  by (simp add: insert_free_lookup)

lemma first_insert_wins:
  assumes "lookup s k = None"
  shows "insert_new k w (snd (insert_new k v s)) = (Err taken, snd (insert_new k v s))"
  using assms insert_taken insert_then_lookup by blast

lemma insert_other: "k' \<noteq> k \<Longrightarrow> lookup (snd (insert_new k v s)) k' = lookup s k'"
  by (cases "lookup s k") (auto simp: insert_free_lookup insert_taken)

lemma take_after_insert:
  assumes "lookup s k = None"
  shows "fst (take_out k (snd (insert_new k v s))) = Ok v"
    and "lookup (snd (take_out k (snd (insert_new k v s)))) = lookup s"
proof -
  show "fst (take_out k (snd (insert_new k v s))) = Ok v"
    using assms by (intro take_present insert_then_lookup)
  show "lookup (snd (take_out k (snd (insert_new k v s)))) = lookup s"
    using assms by (auto simp: take_lookup insert_free_lookup)
qed

lemma reinsert_after_take: "fst (insert_new k w (snd (take_out k s))) = Ok ()"
  by (rule insert_free) (simp add: take_lookup)

end

interpretation reg: name_registry
  "\<lambda>s f. reg_read f s"
  "\<lambda>f e. register_predicate f (entry_cid e) (entry_predicate e)"
  remove_predicate FilenameAlreadyExists FilenameNotFound
  by unfold_locales
    (auto simp: reg_read_def registry_defs fun_eq_iff split: option.splits)

text \<open>Every reachable storage has the invariant: one step is one message that may write.\<close>

inductive reg_step :: "registry \<Rightarrow> registry \<Rightarrow> bool" where
  register_step: "register_predicate f c p s = (r, t) \<Longrightarrow> reg_step s t"
| remove_step: "remove_predicate f s = (r, t) \<Longrightarrow> reg_step s t"

lemma reg_step_inv: "reg_step s t \<Longrightarrow> reg_inv s \<Longrightarrow> reg_inv t"
  by (induction rule: reg_step.induct) (metis reg_inv_register reg_inv_remove snd_conv)+

interpretation reg_ts: transition_system "\<lambda>s. s = reg_new" reg_step reg_inv
  by unfold_locales (auto simp: reg_inv_new intro: reg_step_inv)


section \<open>Refinement: the registry is one finite map\<close>

datatype reg_call =
    Call_register filename cid bytes
  | Call_read filename
  | Call_read_all
  | Call_remove filename

datatype reg_reply =
    Reply_registered "(unit, registry_error) outcome"
  | Reply_entry "entry option"
  | Reply_names "filename list"
  | Reply_removed "(entry, registry_error) outcome"

text \<open>The dispatch of a message to its method.\<close>

fun reg_exec :: "reg_call \<Rightarrow> registry \<Rightarrow> reg_reply \<times> registry" where
  "reg_exec (Call_register f c p) s = map_prod Reply_registered id (register_predicate f c p s)"
| "reg_exec (Call_read f) s = (Reply_entry (reg_read f s), s)"
| "reg_exec Call_read_all s = (Reply_names (reg_read_all s), s)"
| "reg_exec (Call_remove f) s = map_prod Reply_removed id (remove_predicate f s)"

abbreviation reg_run :: "reg_call list \<Rightarrow> registry \<Rightarrow> reg_reply list \<times> registry" where
  "reg_run \<equiv> run_calls reg_exec"

text \<open>The abstract registry: a map, and a listing that is the set of its names.\<close>

datatype spec_reply =
    Spec_registered "(unit, registry_error) outcome"
  | Spec_entry "entry option"
  | Spec_names "filename set"
  | Spec_removed "(entry, registry_error) outcome"

fun spec_exec :: "reg_call \<Rightarrow> (filename \<rightharpoonup> entry) \<Rightarrow> spec_reply \<times> (filename \<rightharpoonup> entry)" where
  "spec_exec (Call_register f c p) m =
     (case m f of
        None \<Rightarrow> (Spec_registered (Ok ()), m(f \<mapsto> \<lparr>entry_cid = c, entry_predicate = p\<rparr>))
      | Some e \<Rightarrow> (Spec_registered (Err FilenameAlreadyExists), m))"
| "spec_exec (Call_read f) m = (Spec_entry (m f), m)"
| "spec_exec Call_read_all m = (Spec_names (dom m), m)"
| "spec_exec (Call_remove f) m =
     (Spec_removed (ok_or FilenameNotFound (m f)), m(f := None))"

abbreviation spec_run :: "reg_call list \<Rightarrow> (filename \<rightharpoonup> entry) \<Rightarrow> spec_reply list \<times> (filename \<rightharpoonup> entry)" where
  "spec_run \<equiv> run_calls spec_exec"

fun abs_reply :: "reg_reply \<Rightarrow> spec_reply" where
  "abs_reply (Reply_registered r) = Spec_registered r"
| "abs_reply (Reply_entry e) = Spec_entry e"
| "abs_reply (Reply_names fs) = Spec_names (set fs)"
| "abs_reply (Reply_removed r) = Spec_removed r"

lemma reg_exec_inv: "reg_inv s \<Longrightarrow> reg_inv (snd (reg_exec c s))"
  by (cases c) (auto simp: reg_inv_register reg_inv_remove)

lemma reg_exec_refines:
  "reg_inv s \<Longrightarrow>
   map_prod abs_reply reg_entries (reg_exec c s) = spec_exec c (reg_entries s)"
  by (cases c)
    (auto simp: prod_eq_iff register_entries register_outcome remove_entries remove_outcome
      reg_read_def reg_read_all_def reg_inv_def split: option.splits)

interpretation reg_machine: machine_refinement reg_exec spec_exec reg_inv abs_reply reg_entries
  by unfold_locales (rule reg_exec_inv, assumption, rule reg_exec_refines)


section \<open>Properties\<close>

text \<open>
  C7. The contract refines a finite map: for every sequence of messages sent to a new registry,
  the replies (listings taken as sets) and the final entries are those of the abstract map, on
  success and on error.
\<close>

theorem registry_refines_map:
  "map_prod (map abs_reply) reg_entries (reg_run cs reg_new) = spec_run cs Map.empty"
  using reg_machine.run_refines [OF reg_inv_new, of cs] by (simp add: reg_new_def)

text \<open>
  C11. In every storage a new registry can reach, \<open>read_all\<close> lists each registered name exactly
  once and nothing else, although \<open>remove_predicate\<close> reorders the list with \<open>swap_remove\<close>.
\<close>

theorem registry_listing_exact:
  assumes "reg_step\<^sup>*\<^sup>* reg_new s"
  shows "distinct (reg_read_all s) \<and> set (reg_read_all s) = {f. reg_read f s \<noteq> None}"
  using reg_ts.reachable_inv [OF refl assms]
  by (auto simp: reg_inv_def reg_read_def reg_read_all_def)

lemma registry_example_run:
  "reg_step\<^sup>*\<^sup>* reg_new (snd (remove_predicate (Filename [1])
     (snd (register_predicate (Filename [2]) (CID [8]) []
       (snd (register_predicate (Filename [1]) (CID [9]) [] reg_new))))))"
  (is "_ (snd (remove_predicate ?f ?s2))")
proof -
  let ?s1 = "snd (register_predicate (Filename [1]) (CID [9]) [] reg_new)"
  have "reg_step reg_new ?s1" by (rule register_step) (rule surjective_pairing)
  moreover have "reg_step ?s1 ?s2" by (rule register_step) (rule surjective_pairing)
  moreover have "reg_step ?s2 (snd (remove_predicate ?f ?s2))"
    by (rule remove_step) (rule surjective_pairing)
  ultimately show ?thesis by (meson converse_rtranclp_into_rtranclp rtranclp.rtrancl_refl)
qed

theorem registry_listing_exact_witness:
  "reg_read_all (snd (remove_predicate (Filename [1])
     (snd (register_predicate (Filename [2]) (CID [8]) []
       (snd (register_predicate (Filename [1]) (CID [9]) [] reg_new)))))) = [Filename [2]] \<and>
   distinct (reg_read_all (snd (remove_predicate (Filename [1])
     (snd (register_predicate (Filename [2]) (CID [8]) []
       (snd (register_predicate (Filename [1]) (CID [9]) [] reg_new)))))))"
  using registry_listing_exact [OF registry_example_run]
  by (simp add: registry_defs reg_new_def reg_read_all_def swap_remove_def)

text \<open>
  The first registration of a name wins until it is removed: a second one under any content
  is refused and changes nothing; removing the name gives back the entry first stored, restores
  every lookup, and the name can then be registered again.
\<close>

lemma registry_first_registration_wins:
  fixes s :: registry and f :: filename and c c' :: cid and p p' :: bytes
  assumes "reg_read f s = None"
  defines "s1 \<equiv> snd (register_predicate f c p s)"
  shows "fst (register_predicate f c p s) = Ok ()
    \<and> register_predicate f c' p' s1 = (Err FilenameAlreadyExists, s1)
    \<and> fst (remove_predicate f s1) = Ok \<lparr>entry_cid = c, entry_predicate = p\<rparr>
    \<and> (\<lambda>g. reg_read g (snd (remove_predicate f s1))) = (\<lambda>g. reg_read g s)
    \<and> fst (register_predicate f c' p' (snd (remove_predicate f s1))) = Ok ()"
  using reg.insert_free [OF assms(1), of "\<lparr>entry_cid = c, entry_predicate = p\<rparr>"]
    reg.first_insert_wins [OF assms(1), of "\<lparr>entry_cid = c', entry_predicate = p'\<rparr>"
      "\<lparr>entry_cid = c, entry_predicate = p\<rparr>"]
    reg.take_after_insert [OF assms(1), of "\<lparr>entry_cid = c, entry_predicate = p\<rparr>"]
    reg.reinsert_after_take [of f "\<lparr>entry_cid = c', entry_predicate = p'\<rparr>" s1]
  by (simp add: s1_def)

lemma registry_first_registration_wins_witness:
  "fst (remove_predicate (Filename [7]) (snd (register_predicate (Filename [7]) (CID [1]) [2] reg_new)))
     = Ok \<lparr>entry_cid = CID [1], entry_predicate = [2]\<rparr>"
  using registry_first_registration_wins [of "Filename [7]" reg_new "CID [1]" "[2]" "CID []" "[]"]
  by (simp add: reg_read_def reg_new_def)

end
