(* ===== verification/Intent_Store.thy ===== *)
theory Intent_Store
  imports Gadgets Predicate_Registry
begin

text \<open>
  Intents in the registry contract: the \<open>IntentStore\<close> trait of \<open>fangorn/src/storage/mod.rs\<close> as a
  locale and its implementation \<open>ContractIntentStore\<close>, \<open>storage/contract_store.rs\<close>, together with
  the contract of \<open>contract/predicate-registry/lib.rs\<close> that it calls: what a registration stores
  is what \<open>get_intent\<close> returns.
\<close>

section \<open>The interface\<close>

text \<open>
  \<open>stored\<close> is what comes back of a list of intents: the encoding skips their gadgets. A name that
  has an intent is not registered again, until it is removed.
\<close>

locale intent_store =
  fixes env_ok :: "'e \<Rightarrow> bool"
    and register_intent :: "'e \<Rightarrow> bytes \<Rightarrow> 'c \<Rightarrow> 'i list \<Rightarrow> ('w, unit, string) action"
    and get_intent :: "'e \<Rightarrow> 'w \<Rightarrow> bytes \<Rightarrow> (('c \<times> 'i list) option, string) outcome"
    and remove_intent :: "'e \<Rightarrow> bytes \<Rightarrow> ('w, unit, string) action"
    and stored :: "'i list \<Rightarrow> 'i list"
  assumes register_get: "env_ok e \<Longrightarrow> register_intent e f c is w = (Ok (), w') \<Longrightarrow>
      get_intent e w' f = Ok (Some (c, stored is))"
    and register_new: "env_ok e \<Longrightarrow> register_intent e f c is w = (Ok (), w') \<Longrightarrow> get_intent e w f = Ok None"
    and register_other: "env_ok e \<Longrightarrow> register_intent e f c is w = (Ok (), w') \<Longrightarrow> g \<noteq> f \<Longrightarrow>
      get_intent e w' g = get_intent e w g"
    and remove_get: "env_ok e \<Longrightarrow> remove_intent e f w = (Ok (), w') \<Longrightarrow> get_intent e w' f = Ok None"
    and remove_other: "env_ok e \<Longrightarrow> remove_intent e f w = (Ok (), w') \<Longrightarrow> g \<noteq> f \<Longrightarrow>
      get_intent e w' g = get_intent e w g"
begin

lemma register_once:
  assumes "env_ok e" and "register_intent e f c is w = (Ok (), w')"
  shows "fst (register_intent e f c' is' w') \<noteq> Ok ()"
proof
  assume "fst (register_intent e f c' is' w') = Ok ()"
  then obtain w'' where "register_intent e f c' is' w' = (Ok (), w'')" by (metis surjective_pairing)
  from register_new [OF assms(1) this] register_get [OF assms] show False by simp
qed

end


section \<open>The contract store\<close>

record ('c, 'w) intent_env =
  contract_address :: string
  contract_backend :: "'w substrate_backend"
  env_ss58 :: ss58_lib
  env_cid :: "'c cid_lib"
  bytes_codec :: "bytes codec"
  intents_codec :: "'w intent list codec"
  entry_codec :: "(bytes \<times> bytes) option codec"

definition contract_store_new ::
  "ss58_lib \<Rightarrow> 'c cid_lib \<Rightarrow> bytes codec \<Rightarrow> 'w intent list codec \<Rightarrow> (bytes \<times> bytes) option codec
   \<Rightarrow> string \<Rightarrow> 'w substrate_backend \<Rightarrow> ('c, 'w) intent_env" where
  "contract_store_new A C VB IC EC address B =
     \<lparr>contract_address = address, contract_backend = B, env_ss58 = A, env_cid = C, bytes_codec = VB,
      intents_codec = IC, entry_codec = EC\<rparr>"

definition contract_register_intent ::
  "('c, 'w) intent_env \<Rightarrow> bytes \<Rightarrow> 'c \<Rightarrow> 'w intent list \<Rightarrow> ('w, unit, string) action" where
  "contract_register_intent e filename c intents =
     (let cid_bytes = cid_to_bytes (env_cid e) c;
          intent_bytes = enc (intents_codec e) intents;
          data = enc (bytes_codec e) filename @ enc (bytes_codec e) cid_bytes
                   @ enc (bytes_codec e) intent_bytes;
          contract_addr_bytes = decode_contract_addr (env_ss58 e) (contract_address e)
      in bind_action (backend_write (contract_backend e) contract_addr_bytes ''register_predicate'' data)
           (\<lambda>_. pure_action (Ok ())))"

definition contract_get_intent ::
  "('c, 'w) intent_env \<Rightarrow> 'w \<Rightarrow> bytes \<Rightarrow> (('c \<times> 'w intent list) option, string) outcome" where
  "contract_get_intent e w filename =
     (let data = enc (bytes_codec e) filename;
          contract_addr_bytes = decode_contract_addr (env_ss58 e) (contract_address e)
      in and_then (backend_read (contract_backend e) w contract_addr_bytes ''read'' (Some data)) (\<lambda>result.
         and_then (strip_status result) (\<lambda>bs.
         and_then (ok_or ''decode'' (dec (entry_codec e) bs)) (\<lambda>(decoded, _).
           case decoded of
             None \<Rightarrow> Ok None
           | Some (c, intent) \<Rightarrow>
               and_then (unwrap_decoded (dec (intents_codec e) intent)) (\<lambda>(intents, _).
               and_then (expect_option ''Invalid CID'' (cid_try_from (env_cid e) c)) (\<lambda>c'.
                 Ok (Some (c', intents))))))))"

definition contract_remove_intent :: "('c, 'w) intent_env \<Rightarrow> bytes \<Rightarrow> ('w, unit, string) action" where
  "contract_remove_intent e filename =
     (let data = enc (bytes_codec e) filename;
          contract_addr_bytes = decode_contract_addr (env_ss58 e) (contract_address e)
      in bind_action (backend_write (contract_backend e) contract_addr_bytes ''remove_predicate'' data)
           (\<lambda>_. pure_action (Ok ())))"


section \<open>The contract on the chain\<close>

text \<open>
  What ink! documents of a deployed contract: a message is the four bytes of its selector and the
  SCALE encoding of its arguments; a query runs it and returns a status byte and the encoded
  result; a finalized successful transaction ran it and it returned \<open>Ok\<close>. \<open>view\<close> is the storage of
  the registry contract at an address in a state of the chain.
\<close>

fun entry_pair :: "entry \<Rightarrow> bytes \<times> bytes" where
  "entry_pair e = (case entry_cid e of CID c \<Rightarrow> (c, entry_predicate e))"

definition hosts_registry ::
  "'w substrate_backend \<Rightarrow> bytes \<Rightarrow> bytes codec \<Rightarrow> (bytes \<times> bytes) option codec \<Rightarrow> ('w \<Rightarrow> registry) \<Rightarrow> bool" where
  "hosts_registry B a VB EC view \<longleftrightarrow>
     (\<forall>w f. api_call (client B) w (query B a ''read'' (enc VB f)) =
        Ok (Some (0 # enc EC (map_option entry_pair (reg_read (Filename f) (view w))))))
     \<and> (\<forall>f c p w h w'. submit_call (client B) (transact B a ''register_predicate'' (enc VB f @ enc VB c @ enc VB p)) w
          = (Ok h, w') \<longrightarrow> register_predicate (Filename f) (CID c) p (view w) = (Ok (), view w'))
     \<and> (\<forall>f w h w'. submit_call (client B) (transact B a ''remove_predicate'' (enc VB f)) w = (Ok h, w') \<longrightarrow>
          (\<exists>en. remove_predicate (Filename f) (view w) = (Ok en, view w')))"

text \<open>
  The codec of intents skips the gadget: what is decoded has none.
\<close>

definition intents_codec_ok :: "'w intent list codec \<Rightarrow> bool" where
  "intents_codec_ok c \<longleftrightarrow> (\<forall>is rest. dec c (enc c is @ rest) = Some (map detach is, rest))"

definition intent_env_ok :: "('c, 'w) intent_env \<Rightarrow> bool" where
  "intent_env_ok e \<longleftrightarrow> codec_ok (entry_codec e) \<and> intents_codec_ok (intents_codec e) \<and> cid_ok (env_cid e)
     \<and> (\<exists>view. hosts_registry (contract_backend e) (decode_contract_addr (env_ss58 e) (contract_address e))
          (bytes_codec e) (entry_codec e) view)"

text \<open>With the contract on the chain, the three operations are those of the contract model.\<close>

lemma get_intent_registry:
  assumes "codec_ok (entry_codec e)"
    and "hosts_registry (contract_backend e) (decode_contract_addr (env_ss58 e) (contract_address e))
          (bytes_codec e) (entry_codec e) view"
  shows "contract_get_intent e w f =
    (case reg_read (Filename f) (view w) of
       None \<Rightarrow> Ok None
     | Some en \<Rightarrow>
         and_then (unwrap_decoded (dec (intents_codec e) (snd (entry_pair en)))) (\<lambda>(intents, _).
         and_then (expect_option ''Invalid CID'' (cid_try_from (env_cid e) (fst (entry_pair en)))) (\<lambda>c'.
           Ok (Some (c', intents)))))"
  using assms(2) codec_ok_exact [OF assms(1)]
  by (simp add: contract_get_intent_def backend_query hosts_registry_def Let_def
      split: option.splits prod.splits)

lemma register_intent_registry:
  assumes "hosts_registry (contract_backend e) (decode_contract_addr (env_ss58 e) (contract_address e))
          (bytes_codec e) (entry_codec e) view"
    and "contract_register_intent e f c is w = (Ok (), w')"
  shows "register_predicate (Filename f) (CID (cid_to_bytes (env_cid e) c)) (enc (intents_codec e) is) (view w)
    = (Ok (), view w')"
  using assms by (auto simp: contract_register_intent_def backend_transact hosts_registry_def Let_def outcome_simps)

lemma remove_intent_registry:
  assumes "hosts_registry (contract_backend e) (decode_contract_addr (env_ss58 e) (contract_address e))
          (bytes_codec e) (entry_codec e) view"
    and "contract_remove_intent e f w = (Ok (), w')"
  shows "\<exists>en. remove_predicate (Filename f) (view w) = (Ok en, view w')"
  using assms by (auto simp: contract_remove_intent_def backend_transact hosts_registry_def Let_def outcome_simps)

interpretation contract_intents:
  intent_store intent_env_ok contract_register_intent contract_get_intent contract_remove_intent "map detach"
proof unfold_locales
  fix e :: "('c, 'w) intent_env" and f c "is" w w' g
  assume e: "intent_env_ok e"
  then obtain view where
    host: "hosts_registry (contract_backend e) (decode_contract_addr (env_ss58 e) (contract_address e))
          (bytes_codec e) (entry_codec e) view"
    and ok: "codec_ok (entry_codec e)" "intents_codec_ok (intents_codec e)" "cid_ok (env_cid e)"
    by (auto simp: intent_env_ok_def)
  have ints: "dec (intents_codec e) (enc (intents_codec e) is) = Some (map detach is, [])"
    using ok(2) unfolding intents_codec_ok_def by (metis append_Nil2)
  note get = get_intent_registry [OF ok(1) host]
  {
    assume "contract_register_intent e f c is w = (Ok (), w')"
    note reg_call = register_intent_registry [OF host this]
    then have free: "reg_read (Filename f) (view w) = None"
      by (auto simp: registry_defs reg_read_def split: if_splits)
    then have upd: "reg_entries (view w') = (reg_entries (view w))(Filename f \<mapsto>
        \<lparr>entry_cid = CID (cid_to_bytes (env_cid e) c), entry_predicate = enc (intents_codec e) is\<rparr>)"
      using register_entries [of "Filename f" "CID (cid_to_bytes (env_cid e) c)"
          "enc (intents_codec e) is" "view w"] reg_call
      by (simp add: reg_read_def)
    show "contract_get_intent e w' f = Ok (Some (c, map detach is))"
      by (simp add: get reg_read_def upd ints cid_okD(4) [OF ok(3)])
    show "contract_get_intent e w f = Ok None" by (simp add: get free)
    show "g \<noteq> f \<Longrightarrow> contract_get_intent e w' g = contract_get_intent e w g"
      by (simp add: get reg_read_def upd)
  }
  {
    assume "contract_remove_intent e f w = (Ok (), w')"
    then obtain en where "remove_predicate (Filename f) (view w) = (Ok en, view w')"
      using remove_intent_registry [OF host] by blast
    then have upd: "reg_entries (view w') = (reg_entries (view w))(Filename f := None)"
      using remove_entries [of "Filename f" "view w"] by simp
    show "contract_get_intent e w' f = Ok None" by (simp add: get reg_read_def upd)
    show "g \<noteq> f \<Longrightarrow> contract_get_intent e w' g = contract_get_intent e w g"
      by (simp add: get reg_read_def upd)
  }
qed


section \<open>A concrete chain\<close>

text \<open>
  For the witnesses: a chain whose state is the storage of one registry contract. The hash that
  gives the selectors keeps the first bytes of the name.
\<close>

definition demo_vec :: "bytes codec" where
  "demo_vec = demo_bytes_codec"

definition demo_entry_codec :: "(bytes \<times> bytes) option codec" where
  "demo_entry_codec = map_codec (\<lambda>v. case v of None \<Rightarrow> [] | Some x \<Rightarrow> [x])
     (\<lambda>l. case l of [] \<Rightarrow> None | x # _ \<Rightarrow> Some x) (demo_list_codec (pair_codec demo_vec demo_vec))"

definition demo_intents_codec :: "'w intent list codec" where
  "demo_intents_codec = \<lparr>
     enc = (\<lambda>is. enc (demo_list_codec (pair_codec demo_vec demo_vec))
              (map (\<lambda>i. (as_bytes (intent_type i), statement i)) is)),
     dec = (\<lambda>bs. map_option (map_prod (map (\<lambda>(t, st). \<lparr>intent_type = map char_of_byte t, statement = st,
              attached_gadget = None\<rparr>)) id) (dec (demo_list_codec (pair_codec demo_vec demo_vec)) bs))\<rparr>"

lemma demo_vec_ok: "codec_ok demo_vec"
  by (simp add: demo_vec_def demo_bytes_codec_ok)

lemma demo_entry_codec_ok: "codec_ok demo_entry_codec"
  unfolding demo_entry_codec_def
  by (rule map_codec_ok) (auto intro!: demo_list_codec_ok pair_codec_ok demo_vec_ok split: option.splits)

lemma demo_intents_codec_ok: "intents_codec_ok demo_intents_codec"
proof -
  have "codec_ok (demo_list_codec (pair_codec demo_vec demo_vec))"
    by (intro demo_list_codec_ok pair_codec_ok demo_vec_ok)
  then show ?thesis
    by (auto simp: intents_codec_ok_def demo_intents_codec_def codec_okD detach_def)
qed

definition demo_chain :: "registry substrate_client" where
  "demo_chain = \<lparr>
     api_call = (\<lambda>w call. case dec demo_vec (drop 4 (call_data call)) of
        None \<Rightarrow> Ok None
      | Some (f, _) \<Rightarrow> Ok (Some (0 # enc demo_entry_codec (map_option entry_pair (reg_read (Filename f) w))))),
     submit_call = (\<lambda>call w. case dec demo_vec (drop 4 (call_data call)) of
        None \<Rightarrow> (Err ''bad call'', w)
      | Some (f, bs) \<Rightarrow>
          if take 4 (call_data call) = as_bytes ''remo'' then
            (case remove_predicate (Filename f) w of (Ok _, w') \<Rightarrow> (Ok [], w') | _ \<Rightarrow> (Err ''reverted'', w))
          else (case dec (pair_codec demo_vec demo_vec) bs of
              None \<Rightarrow> (Err ''bad call'', w)
            | Some ((c, p), _) \<Rightarrow>
                (case register_predicate (Filename f) (CID c) p w of
                   (Ok _, w') \<Rightarrow> (Ok [], w') | _ \<Rightarrow> (Err ''reverted'', w)))),
     fetch_nonce = (\<lambda>w key. Ok (Some 0)),
     blake2_256 = (\<lambda>bs. take 32 (bs @ replicate 32 0))\<rparr>"

definition demo_intent_env :: "(bytes, registry) intent_env" where
  "demo_intent_env = contract_store_new demo_ss58 demo_cid demo_vec demo_intents_codec demo_entry_codec
     ''addr'' \<lparr>client = demo_chain, signer_account = []\<rparr>"

lemma demo_selector:
  "selector \<lparr>client = demo_chain, signer_account = a\<rparr> ''read'' = as_bytes ''read''"
  "selector \<lparr>client = demo_chain, signer_account = a\<rparr> ''register_predicate'' = as_bytes ''regi''"
  "selector \<lparr>client = demo_chain, signer_account = a\<rparr> ''remove_predicate'' = as_bytes ''remo''"
  by (simp_all add: selector_def demo_chain_def as_bytes_def)

lemma as_bytes_regi_remo: "as_bytes ''regi'' \<noteq> as_bytes ''remo''"
  by simp

lemma demo_hosts_registry:
  "hosts_registry \<lparr>client = demo_chain, signer_account = a\<rparr> b demo_vec demo_entry_codec (\<lambda>w. w)"
proof -
  have pair: "dec (pair_codec demo_vec demo_vec) (enc demo_vec c @ enc demo_vec p) = Some ((c, p), [])" for c p
    using codec_ok_exact [OF pair_codec_ok [OF demo_vec_ok demo_vec_ok], of "(c, p)"]
    by (simp add: pair_codec_def)
  have call: "take 4 (as_bytes s @ d) = as_bytes s" "drop 4 (as_bytes s @ d) = d" if "length s = 4" for s d
    using that by simp_all
  show ?thesis
    unfolding hosts_registry_def query_def transact_def demo_selector
    by (auto simp: demo_chain_def codec_ok_exact [OF demo_vec_ok] codec_okD [OF demo_vec_ok] pair
        registry_defs split: if_splits option.splits)
qed

lemma demo_intent_env_ok: "intent_env_ok demo_intent_env"
  unfolding intent_env_ok_def demo_intent_env_def contract_store_new_def
  by (auto simp: demo_entry_codec_ok demo_intents_codec_ok demo_cid_ok intro!: exI demo_hosts_registry)


section \<open>Properties\<close>

text \<open>
  C17. Registration through the contract: when \<open>register_intent\<close> succeeds, the name had no intent
  before; \<open>get_intent\<close> then returns the identifier and the intents, without their gadgets, and
  answers for every other name as before; no second registration of the name succeeds, by
  whatever client; and once \<open>remove_intent\<close> succeeds the name has no intent again.
\<close>

theorem registered_intent_read_back:
  assumes "intent_env_ok e" and "contract_register_intent e f c is w = (Ok (), w')"
  shows "contract_get_intent e w f = Ok None
    \<and> contract_get_intent e w' f = Ok (Some (c, map detach is))
    \<and> (\<forall>g. g \<noteq> f \<longrightarrow> contract_get_intent e w' g = contract_get_intent e w g)
    \<and> (\<forall>c' is'. fst (contract_register_intent e f c' is' w') \<noteq> Ok ())
    \<and> (\<forall>w''. contract_remove_intent e f w' = (Ok (), w'') \<longrightarrow> contract_get_intent e w'' f = Ok None)"
  using contract_intents.register_new [OF assms] contract_intents.register_get [OF assms]
    contract_intents.register_other [OF assms] contract_intents.register_once [OF assms]
    contract_intents.remove_get [OF assms(1)]
  by blast

theorem registered_intent_read_back_witness:
  "contract_get_intent demo_intent_env
     (snd (contract_register_intent demo_intent_env [102] [9]
       [\<lparr>intent_type = ''Sr25519'', statement = [], attached_gadget = None\<rparr>] reg_new)) [102]
   = Ok (Some ([9], [\<lparr>intent_type = ''Sr25519'', statement = [], attached_gadget = None\<rparr>]))"
proof -
  let ?is = "[\<lparr>intent_type = ''Sr25519'', statement = [], attached_gadget = None\<rparr>]"
  let ?run = "contract_register_intent demo_intent_env [102] [9] ?is reg_new"
  have call: "take 4 (as_bytes s @ d) = as_bytes s" "drop 4 (as_bytes s @ d) = d" if "length s = 4" for s d
    using that by simp_all
  have "dec (pair_codec demo_vec demo_vec) (enc demo_vec c @ enc demo_vec p) = Some ((c, p), [])" for c p
    using codec_ok_exact [OF pair_codec_ok [OF demo_vec_ok demo_vec_ok], of "(c, p)"]
    by (simp add: pair_codec_def)
  then have "fst ?run = Ok ()"
    by (simp add: contract_register_intent_def demo_intent_env_def contract_store_new_def Let_def
        backend_transact transact_def demo_selector bind_action_def)
      (simp add: demo_chain_def codec_okD [OF demo_vec_ok] registry_defs reg_new_def)
  then obtain w' where run: "?run = (Ok (), w')" by (cases ?run) simp
  from registered_intent_read_back [OF demo_intent_env_ok run] show ?thesis
    unfolding run by (simp add: detach_def)
qed

end
