(* ===== verification/Worker.thy ===== *)
theory Worker
  imports Pool_Watcher Intent_Store
begin

text \<open>
  The worker of a node, \<open>process_decryption_request\<close> and the loop of \<open>spawn_pool_watcher\<close> in
  \<open>fangorn/src/node/service.rs\<close>: for each request it verifies the witness against the registered
  intents and, only then, sends a partial decryption to the requester. What the node has
  (registry, stores, keys) is the environment; what it meets while it handles one request (the
  chain when it reads the intents and at each gadget's turn, the document, the peer) is a turn.
\<close>

section \<open>Environment\<close>

text \<open>
  What happens when the requester is dialled: no connection; no stream; a stream that fails while
  it is used; a stream on which the peer answers.
\<close>

datatype dial = No_Connection | No_Stream string | Stream_Failed string | Response bytes

record ('d, 'w, 'c, 'a, 'ct, 'pd) node_env =
  ne_hex :: hex_lib
  ne_witnesses :: "bytes list codec"
  ne_registry :: "'w gadget_registry"
  ne_fetch :: "'d \<Rightarrow> 'c \<Rightarrow> (bytes option, string) outcome"
  ne_get_intent :: "'w \<Rightarrow> bytes \<Rightarrow> (('c \<times> 'w intent list) option, string) outcome"
  ne_des_ct :: "bytes \<Rightarrow> 'ct option"
  ne_partial_decryption :: "'ct \<Rightarrow> ('pd, string) outcome"
  ne_ser_pd :: "'pd \<Rightarrow> bytes option"
  ne_message :: "partial_decryption_message codec"
  ne_addr :: "bytes \<Rightarrow> 'a option"
  ne_attest :: "bytes \<Rightarrow> bytes \<Rightarrow> ('w, unit, string) action"
  ne_request_id :: "decryption_request \<Rightarrow> bytes"
  ne_index :: nat

record ('d, 'w, 'a) turn =
  tn_chain :: 'w
  tn_verify :: "nat \<Rightarrow> 'w"
  tn_docs :: 'd
  tn_peer :: "'a \<Rightarrow> bytes \<Rightarrow> dial"
  tn_attest :: 'w

text \<open>What the worker did: the messages it wrote to a stream, and the requests it attested.\<close>

record 'a worker_log =
  delivered :: "('a \<times> bytes) list"
  attested :: "bytes list"


section \<open>One request\<close>

text \<open>The message for a verified request: \<open>Ok None\<close> when the ciphertext is not in the document.\<close>

definition share_message ::
  "('d, 'w, 'c, 'a, 'ct, 'pd) node_env \<Rightarrow> ('d, 'w, 'a) turn \<Rightarrow> decryption_request \<Rightarrow> 'c
   \<Rightarrow> (bytes option, string) outcome" where
  "share_message E t req c =
     and_then (unwrap_result (ne_fetch E (tn_docs t) c)) (\<lambda>fetched.
       case fetched of
         None \<Rightarrow> Ok None
       | Some ciphertext_bytes \<Rightarrow>
           and_then (unwrap_decoded (ne_des_ct E ciphertext_bytes)) (\<lambda>ciphertext.
           and_then (unwrap_result (ne_partial_decryption E ciphertext)) (\<lambda>partial_decryption.
           and_then (unwrap_decoded (ne_ser_pd E partial_decryption)) (\<lambda>bs.
             if ne_index E \<ge> 256 then Panic Unwrap_Err
             else
               let pd_message = \<lparr>pd_filename = dr_filename req, pd_index = of_nat (ne_index E), pd_bytes = bs\<rparr>
               in Ok (Some (enc (ne_message E) pd_message))))))"

text \<open>
  Delivery: an answer of more than 1000 bytes is an error; an answer that is the message itself is
  followed by an attestation, whose failure is a panic.
\<close>

definition deliver ::
  "('d, 'w, 'c, 'a, 'ct, 'pd) node_env \<Rightarrow> ('d, 'w, 'a) turn \<Rightarrow> decryption_request \<Rightarrow> bytes
   \<Rightarrow> ('a worker_log, unit, string) action" where
  "deliver E t req msg_bytes s =
     (case opaque_into_addr (ne_addr E) (dr_location req) of
        Err e \<Rightarrow> (Err e, s)
      | Panic p \<Rightarrow> (Panic p, s)
      | Ok addr \<Rightarrow>
          let s' = s\<lparr>delivered := delivered s @ [(addr, msg_bytes)]\<rparr>
          in case tn_peer t addr msg_bytes of
               No_Connection \<Rightarrow> (Ok (), s)
             | No_Stream e \<Rightarrow> (Err e, s)
             | Stream_Failed e \<Rightarrow> (Err e, s')
             | Response response \<Rightarrow>
                 if length response > 1000 then (Err ''TooLong'', s')
                 else if response = msg_bytes then
                   (case fst (ne_attest E (ne_request_id E req) [] (tn_attest t)) of
                      Ok _ \<Rightarrow> (Ok (), s'\<lparr>attested := attested s' @ [ne_request_id E req]\<rparr>)
                    | Err _ \<Rightarrow> (Panic Unwrap_Err, s')
                    | Panic p \<Rightarrow> (Panic p, s'))
                 else (Ok (), s'))"

text \<open>The lookup of the intents and the verdict on the witness; the verdict is not unwrapped.\<close>

definition request_verdict ::
  "('d, 'w, 'c, 'a, 'ct, 'pd) node_env \<Rightarrow> ('d, 'w, 'a) turn \<Rightarrow> decryption_request
   \<Rightarrow> ('c \<times> (bool, intent_error) outcome, string) outcome" where
  "request_verdict E t req =
     and_then (unwrap_decoded (hex_decode (ne_hex E) (dr_witness_hex req))) (\<lambda>witness.
     and_then (expect_result ''Something went wrong when looking for intent.''
                 (ne_get_intent E (tn_chain t) (dr_filename req))) (\<lambda>found.
     and_then (expect_option ''Intent wasn't found'' found) (\<lambda>(c, intents).
       Ok (c, verify_intents (ne_witnesses E) (ne_registry E) (tn_verify t) intents witness))))"

definition process_decryption_request ::
  "('d, 'w, 'c, 'a, 'ct, 'pd) node_env \<Rightarrow> ('d, 'w, 'a) turn \<Rightarrow> decryption_request
   \<Rightarrow> ('a worker_log, unit, string) action" where
  "process_decryption_request E t req s =
     (case request_verdict E t req of
        Err e \<Rightarrow> (Err e, s)
      | Panic p \<Rightarrow> (Panic p, s)
      | Ok (c, verdict) \<Rightarrow>
          (case verdict of
             Panic p \<Rightarrow> (Panic p, s)
           | Err e \<Rightarrow> (Ok (), s)
           | Ok b \<Rightarrow>
               if b then
                 (case share_message E t req c of
                    Err e \<Rightarrow> (Err e, s)
                  | Panic p \<Rightarrow> (Panic p, s)
                  | Ok None \<Rightarrow> (Ok (), s)
                  | Ok (Some msg_bytes) \<Rightarrow> deliver E t req msg_bytes s)
               else (Ok (), s)))"

text \<open>
  The loop over the requests of the channel: an error is printed and the loop goes on; a panic ends
  it, with \<open>False\<close>: the requests after it are never taken.
\<close>

fun worker_loop ::
  "('d, 'w, 'c, 'a, 'ct, 'pd) node_env \<Rightarrow> (('d, 'w, 'a) turn \<times> decryption_request) list
   \<Rightarrow> 'a worker_log \<Rightarrow> bool \<times> 'a worker_log" where
  "worker_loop E [] s = (True, s)"
| "worker_loop E ((t, req) # rs) s =
     (case process_decryption_request E t req s of
        (Panic p, s') \<Rightarrow> (False, s')
      | (_, s') \<Rightarrow> worker_loop E rs s')"

definition worker_start :: "'a worker_log" where
  "worker_start = \<lparr>delivered = [], attested = []\<rparr>"


section \<open>What may be delivered\<close>

text \<open>The request names a file with registered intents, each of which accepts its witness.\<close>

definition authorised ::
  "('d, 'w, 'c, 'a, 'ct, 'pd) node_env \<Rightarrow> ('d, 'w, 'a) turn \<Rightarrow> decryption_request \<Rightarrow> 'c \<Rightarrow> bool" where
  "authorised E t req c \<longleftrightarrow>
     (\<exists>intents witness xs rest. ne_get_intent E (tn_chain t) (dr_filename req) = Ok (Some (c, intents))
       \<and> hex_decode (ne_hex E) (dr_witness_hex req) = Some witness
       \<and> dec (ne_witnesses E) witness = Some (xs, rest) \<and> length xs = length intents
       \<and> (\<forall>j < length intents. \<exists>g. gadget_for (ne_registry E) (intents ! j) = Some g
            \<and> verify_witness g (tn_verify t j) (xs ! j) (statement (intents ! j)) = Ok True))"

lemma authorised_registered:
  assumes "ne_get_intent E (tn_chain t) (dr_filename req) = Ok (Some (c', is))"
  shows "authorised E t req c \<longleftrightarrow> c = c'
    \<and> (\<exists>witness xs rest. hex_decode (ne_hex E) (dr_witness_hex req) = Some witness
         \<and> dec (ne_witnesses E) witness = Some (xs, rest) \<and> length xs = length is
         \<and> (\<forall>j < length is. \<exists>g. gadget_for (ne_registry E) (is ! j) = Some g
              \<and> verify_witness g (tn_verify t j) (xs ! j) (statement (is ! j)) = Ok True))"
  by (auto simp: authorised_def assms)

text \<open>The message is a share of the ciphertext that is registered for the file.\<close>

definition share_of ::
  "('d, 'w, 'c, 'a, 'ct, 'pd) node_env \<Rightarrow> ('d, 'w, 'a) turn \<Rightarrow> decryption_request \<Rightarrow> 'c \<Rightarrow> bytes \<Rightarrow> bool" where
  "share_of E t req c m \<longleftrightarrow>
     (\<exists>bs ct pd pdb. ne_fetch E (tn_docs t) c = Ok (Some bs) \<and> ne_des_ct E bs = Some ct
       \<and> ne_partial_decryption E ct = Ok pd \<and> ne_ser_pd E pd = Some pdb
       \<and> m = enc (ne_message E) \<lparr>pd_filename = dr_filename req, pd_index = of_nat (ne_index E), pd_bytes = pdb\<rparr>)"

lemma share_message_Some: "share_message E t req c = Ok (Some m) \<Longrightarrow> share_of E t req c m \<and> ne_index E < 256"
  by (auto simp: share_message_def share_of_def outcome_simps Let_def split: option.splits if_splits)

lemma deliver_log:
  assumes "deliver E t req m s = (r, s')"
  shows "(delivered s' = delivered s \<and> attested s' = attested s)
    \<or> (\<exists>addr. ne_addr E (addr_bytes (dr_location req)) = Some addr \<and> delivered s' = delivered s @ [(addr, m)]
        \<and> (attested s' = attested s \<or> attested s' = attested s @ [ne_request_id E req]))"
  using assms
  by (cases "ne_addr E (addr_bytes (dr_location req))")
    (auto simp: deliver_def opaque_into_addr_def Let_def split: dial.splits if_splits outcome.splits)

lemma verdict_authorised: "request_verdict E t req = Ok (c, Ok True) \<Longrightarrow> authorised E t req c"
  by (auto simp: request_verdict_def outcome_simps authorised_def verify_intents_Ok_iff)

lemma process_log:
  assumes "process_decryption_request E t req s = (r, s')"
  shows "(delivered s' = delivered s \<and> attested s' = attested s)
    \<or> (\<exists>c m addr. authorised E t req c \<and> share_of E t req c m
        \<and> ne_addr E (addr_bytes (dr_location req)) = Some addr \<and> delivered s' = delivered s @ [(addr, m)]
        \<and> (attested s' = attested s \<or> attested s' = attested s @ [ne_request_id E req]))"
proof (cases "\<exists>c m. request_verdict E t req = Ok (c, Ok True) \<and> share_message E t req c = Ok (Some m)")
  case True
  then obtain c m where look: "request_verdict E t req = Ok (c, Ok True)"
    and m: "share_message E t req c = Ok (Some m)" by blast
  then have "deliver E t req m s = (r, s')"
    using assms by (simp add: process_decryption_request_def)
  then show ?thesis
    using deliver_log share_message_Some [OF m] verdict_authorised [OF look] by blast
next
  case False
  then have "s' = s"
    using assms unfolding process_decryption_request_def
    by (auto split: outcome.splits option.splits if_splits prod.splits)
  then show ?thesis by simp
qed


lemma worker_loop_log:
  "x \<in> set (delivered (snd (worker_loop E rs s))) \<Longrightarrow> x \<in> set (delivered s) \<or>
    (\<exists>t req c. (t, req) \<in> set rs \<and> authorised E t req c \<and> share_of E t req c (snd x)
       \<and> ne_addr E (addr_bytes (dr_location req)) = Some (fst x))"
proof (induction rs arbitrary: s)
  case (Cons tr rs)
  obtain t req where tr: "tr = (t, req)" by force
  obtain r s' where step: "process_decryption_request E t req s = (r, s')" by force
  have "x \<in> set (delivered s') \<or> (\<exists>t req c. (t, req) \<in> set rs \<and> authorised E t req c
      \<and> share_of E t req c (snd x) \<and> ne_addr E (addr_bytes (dr_location req)) = Some (fst x))"
    using Cons.prems Cons.IH [of s'] step by (cases r) (auto simp: tr)
  then show ?case
    using process_log [OF step] unfolding tr by fastforce
qed simp

lemma worker_loop_one:
  "snd (worker_loop E [(t, req)] s) = snd (process_decryption_request E t req s)"
  by (cases "process_decryption_request E t req s"; cases "fst (process_decryption_request E t req s)") auto

lemma worker_loop_append:
  "worker_loop E (rs @ rs') s =
    (case worker_loop E rs s of (True, s') \<Rightarrow> worker_loop E rs' s' | (False, s') \<Rightarrow> (False, s'))"
proof (induction rs arbitrary: s)
  case (Cons tr rs)
  obtain t req where tr: "tr = (t, req)" by force
  obtain r s' where step: "process_decryption_request E t req s = (r, s')" by force
  with Cons show ?case by (cases r) (simp_all add: tr)
qed simp

lemma worker_loop_panic:
  assumes "\<And>s. \<exists>p. process_decryption_request E t req s = (Panic p, s)"
  shows "worker_loop E (rs @ (t, req) # rs') s = (False, snd (worker_loop E rs s))"
proof -
  obtain b s' where run: "worker_loop E rs s = (b, s')" by force
  obtain p where "process_decryption_request E t req s' = (Panic p, s')" using assms by blast
  with run show ?thesis by (cases b) (simp_all add: worker_loop_append)
qed

text \<open>Requests that make the worker panic, whoever wrote them.\<close>

definition poisonous ::
  "('d, 'w, 'c, 'a, 'ct, 'pd) node_env \<Rightarrow> ('d, 'w, 'a) turn \<Rightarrow> decryption_request \<Rightarrow> bool" where
  "poisonous E t req \<longleftrightarrow>
     (case hex_decode (ne_hex E) (dr_witness_hex req) of
        None \<Rightarrow> True
      | Some witness \<Rightarrow>
          (case ne_get_intent E (tn_chain t) (dr_filename req) of
             Ok (Some (c, intents)) \<Rightarrow>
               (case dec (ne_witnesses E) witness of
                  None \<Rightarrow> True
                | Some (xs, _) \<Rightarrow> length xs \<noteq> length intents)
           | _ \<Rightarrow> True))"

lemma poisonous_verdict:
  assumes "poisonous E t req"
  shows "(\<exists>p. request_verdict E t req = Panic p) \<or> (\<exists>c p. request_verdict E t req = Ok (c, Panic p))"
proof (cases "hex_decode (ne_hex E) (dr_witness_hex req)")
  case None
  then show ?thesis by (simp add: request_verdict_def)
next
  case hex: (Some witness)
  show ?thesis
  proof (cases "ne_get_intent E (tn_chain t) (dr_filename req)")
    case got: (Ok found)
    show ?thesis
    proof (cases found)
      case (Some ci)
      obtain c intents where ci: "ci = (c, intents)" by force
      have "\<exists>p. verify_intents (ne_witnesses E) (ne_registry E) (tn_verify t) intents witness = Panic p"
        using assms by (auto simp: poisonous_def hex got Some ci verify_intents_def split: option.splits)
      then show ?thesis by (auto simp: request_verdict_def hex got Some ci)
    qed (simp add: request_verdict_def hex got)
  qed (simp_all add: request_verdict_def hex)
qed

lemma poisonous_panics: "poisonous E t req \<Longrightarrow> \<exists>p. process_decryption_request E t req s = (Panic p, s)"
  using poisonous_verdict [of E t req] by (auto simp: process_decryption_request_def)


section \<open>A concrete node\<close>

definition demo_u8 :: "u8 codec" where
  "demo_u8 = \<lparr>enc = (\<lambda>b. [b]), dec = (\<lambda>bs. case bs of [] \<Rightarrow> None | b # r \<Rightarrow> Some (b, r))\<rparr>"

lemma demo_u8_ok: "codec_ok demo_u8"
  by (simp add: codec_ok_def demo_u8_def)

definition demo_node :: "(unit, request_pool, bytes, bytes, bytes, bytes) node_env" where
  "demo_node = \<lparr>ne_hex = demo_hex, ne_witnesses = demo_list_codec demo_bytes_codec,
     ne_registry = register_gadget (password_gadget (\<lambda>bs. bs)) registry_new,
     ne_fetch = (\<lambda>d c. Ok (Some c)),
     ne_get_intent = (\<lambda>w f. Ok (Some ([5], [\<lparr>intent_type = ''Password'', statement = [1],
        attached_gadget = None\<rparr>]))),
     ne_des_ct = Some, ne_partial_decryption = Ok, ne_ser_pd = Some,
     ne_message = pd_message_codec demo_bytes_codec demo_u8, ne_addr = Some,
     ne_attest = ink_submit_partial_attestation demo_ink_pool,
     ne_request_id = request_id (\<lambda>bs. bs) demo_bytes_codec, ne_index = 1\<rparr>"

definition demo_turn :: "(unit, request_pool, bytes) turn" where
  "demo_turn = \<lparr>tn_chain = demo_pool1, tn_verify = (\<lambda>_. demo_pool1), tn_docs = (),
     tn_peer = (\<lambda>a m. Response m), tn_attest = demo_pool1\<rparr>"

definition demo_request :: "bytes \<Rightarrow> decryption_request" where
  "demo_request w = \<lparr>dr_filename = [102], dr_witness_hex = hex_encode demo_hex (enc (demo_list_codec demo_bytes_codec) [w]),
     dr_location = OpaqueEndpointAddr [9]\<rparr>"

lemma demo_verdict:
  "request_verdict demo_node demo_turn (demo_request w)
    = Ok ([5], if w = [1] then Ok True else Err (VerificationError ''Password''))"
  by (simp add: request_verdict_def demo_node_def demo_request_def hex_okD [OF demo_hex_ok] verify_intents_def
      codec_ok_exact [OF demo_list_codec_ok [OF demo_bytes_codec_ok]] verify_intent_def get_gadget_def
      register_gadget_def password_gadget_def)

lemma demo_share:
  "share_message demo_node demo_turn (demo_request w) [5] = Ok (Some
     (enc (pd_message_codec demo_bytes_codec demo_u8) \<lparr>pd_filename = [102], pd_index = 1, pd_bytes = [5]\<rparr>))"
  by (simp add: share_message_def demo_node_def demo_request_def Let_def)


section \<open>Properties\<close>

text \<open>
  No share leaves the node unless every intent accepted: for every message that the loop wrote to
  a peer there is a request it handled, for a file with registered intents each of whose gadgets
  accepted the request's witness, such that the message is this node's share of the ciphertext
  registered for that file, sent to the address in that request.
\<close>

lemma shares_need_authorisation:
  "\<forall>x \<in> set (delivered (snd (worker_loop E rs worker_start))).
     \<exists>t req c. (t, req) \<in> set rs \<and> authorised E t req c \<and> share_of E t req c (snd x)
       \<and> ne_addr E (addr_bytes (dr_location req)) = Some (fst x)"
  using worker_loop_log [of _ E rs worker_start] by (auto simp: worker_start_def)

lemma shares_need_authorisation_witness:
  "\<exists>x \<in> set (delivered (snd (worker_loop demo_node [(demo_turn, demo_request [1])] worker_start))).
     \<exists>c. authorised demo_node demo_turn (demo_request [1]) c \<and> share_of demo_node demo_turn (demo_request [1]) c (snd x)"
proof -
  have "delivered (snd (worker_loop demo_node [(demo_turn, demo_request [1])] worker_start)) \<noteq> []"
  proof -
    have "ne_addr demo_node = Some" and "tn_peer demo_turn = (\<lambda>a m. Response m)"
      by (simp_all add: demo_node_def demo_turn_def)
    then show ?thesis
      by (simp add: process_decryption_request_def demo_verdict demo_share deliver_def opaque_into_addr_def
          worker_start_def Let_def split: outcome.splits)
  qed
  then obtain x where "x \<in> set (delivered (snd (worker_loop demo_node [(demo_turn, demo_request [1])] worker_start)))"
    by (meson last_in_set)
  then show ?thesis
    using shares_need_authorisation [of demo_node "[(demo_turn, demo_request [1])]"] by fastforce
qed

text \<open>
  A request whose witness is rejected costs the node nothing: when verification returns an error
  or \<open>Ok(false)\<close>, nothing is sent, nothing is attested, and the loop goes on with the next request.
\<close>

lemma rejected_request_ignored:
  assumes "request_verdict E t req = Ok (c, verdict)" and "verdict \<noteq> Ok True" and "\<forall>p. verdict \<noteq> Panic p"
  shows "process_decryption_request E t req s = (Ok (), s)
    \<and> worker_loop E ((t, req) # rs) s = worker_loop E rs s"
proof -
  have "process_decryption_request E t req s = (Ok (), s)"
    using assms by (cases verdict) (auto simp: process_decryption_request_def)
  then show ?thesis by simp
qed

lemma rejected_request_ignored_witness:
  "worker_loop demo_node [(demo_turn, demo_request [2])] worker_start = (True, worker_start)"
  using rejected_request_ignored [of demo_node demo_turn "demo_request [2]" "[5]"
      "Err (VerificationError ''Password'')" worker_start "[]"] demo_verdict [of "[2]"]
  by simp

text \<open>
  C24. Anyone can stop a node's worker: a request whose witness is not hexadecimal or does not encode
  as many byte strings as the file has intents, or that names a file with no intents, makes the
  worker panic, and no request after it is ever handled.
\<close>

theorem poisonous_request_stops_worker:
  assumes "poisonous E t req"
  shows "worker_loop E (rs @ (t, req) # rs') s = (False, snd (worker_loop E rs s))"
  using worker_loop_panic poisonous_panics [OF assms] by blast

theorem poisonous_request_stops_worker_witness:
  "worker_loop demo_node ([] @ (demo_turn, (demo_request [1])\<lparr>dr_witness_hex := [0]\<rparr>) # [(demo_turn, demo_request [1])])
      worker_start = (False, worker_start)"
proof -
  have "poisonous demo_node demo_turn ((demo_request [1])\<lparr>dr_witness_hex := [0]\<rparr>)"
    by (simp add: poisonous_def demo_node_def demo_hex_def)
  from poisonous_request_stops_worker [OF this, of "[]" "[(demo_turn, demo_request [1])]" worker_start]
  show ?thesis by simp
qed

text \<open>
  C25. A node serves one request: when the requester echoes the share, the attestation that follows
  calls a message the pool contract does not have, its error is unwrapped, and the worker stops
  after this first delivery.
\<close>

theorem first_delivery_stops_worker:
  assumes "hosts_pool P H view" and "ne_attest E = ink_submit_partial_attestation P"
    and "selector (pool_backend P) ''submit_partial_decryption'' \<notin> selector (pool_backend P) ` set pool_messages"
    and "request_verdict E t req = Ok (c, Ok True)" and "share_message E t req c = Ok (Some m)"
    and "ne_addr E (addr_bytes (dr_location req)) = Some a"
    and "tn_peer t a m = Response m" and "length m \<le> 1000"
  shows "worker_loop E ((t, req) # rs) s = (False, s\<lparr>delivered := delivered s @ [(a, m)]\<rparr>)"
proof -
  obtain e where "fst (ne_attest E (ne_request_id E req) [] (tn_attest t)) = Err e"
    using ink_submit_hosted [OF assms(1,3)] by (metis assms(2) fst_conv)
  then have "deliver E t req m s = (Panic Unwrap_Err, s\<lparr>delivered := delivered s @ [(a, m)]\<rparr>)"
    using assms(6-8) by (simp add: deliver_def opaque_into_addr_def Let_def)
  then show ?thesis
    using assms(4,5) by (simp add: process_decryption_request_def)
qed

theorem first_delivery_stops_worker_witness:
  "fst (worker_loop demo_node [(demo_turn, demo_request [1]), (demo_turn, demo_request [1])] worker_start) = False"
proof -
  have sel: "selector (pool_backend demo_ink_pool) ''submit_partial_decryption''
      \<notin> selector (pool_backend demo_ink_pool) ` set pool_messages"
    by (simp add: demo_ink_pool_def demo_pool_selector pool_messages_def)
  have "ne_attest demo_node = ink_submit_partial_attestation demo_ink_pool" by (simp add: demo_node_def)
  from first_delivery_stops_worker [OF demo_hosts_pool this sel _ demo_share, of "[1]" "[9]"
      "[(demo_turn, demo_request [1])]" worker_start] demo_verdict [of "[1]"]
  show ?thesis
    by (simp add: demo_node_def demo_turn_def demo_request_def pd_message_codec_def map_codec_def pair_codec_def
        demo_bytes_codec_def demo_u8_def)
qed

end
