(* ===== verification/Pool_Service.thy ===== *)
theory Pool_Service
  imports Worker
begin

text \<open>
  The two tasks that \<open>spawn_pool_watcher\<close> of \<open>fangorn/src/node/service.rs\<close> starts, side by side: the
  watcher polls the pool and sends what is new into an unbounded channel, the worker takes from it.
  The tasks and the chain move in any order; a run is a sequence of their moves.
\<close>

section \<open>The two tasks\<close>

text \<open>
  The channel is what the watcher sent and the worker has not taken: \<open>ps_taken\<close> are the requests
  taken so far, each with the turn in which it was handled. A task that ended does not move again;
  when the worker ends, the channel has no receiver.
\<close>

record ('d, 'w, 'a) pool_service =
  ps_chain :: 'w
  ps_watcher :: watcher
  ps_watching :: bool
  ps_taken :: "(('d, 'w, 'a) turn \<times> decryption_request) list"
  ps_working :: bool
  ps_log :: "'a worker_log"

definition spawn_pool_watcher :: "'w \<Rightarrow> ('d, 'w, 'a) pool_service" where
  "spawn_pool_watcher w =
     \<lparr>ps_chain = w, ps_watcher = watcher_new\<lparr>w_running := True\<rparr>, ps_watching = True, ps_taken = [], ps_working = True,
      ps_log = worker_start\<rparr>"

text \<open>One round of the watcher; an error ends its task.\<close>

definition service_poll ::
  "'w ink_pool \<Rightarrow> (decryption_request \<Rightarrow> bytes) \<Rightarrow> ('d, 'w, 'a) pool_service \<Rightarrow> ('d, 'w, 'a) pool_service" where
  "service_poll P ident s =
     (if \<not> ps_watching s then s
      else
        (case watch_loop ident [\<lparr>rd_stopped = False, rd_result = ink_read_all P (ps_chain s),
                rd_connected = ps_working s\<rparr>] (ps_watcher s) of
           (Ok _, w) \<Rightarrow> s\<lparr>ps_watcher := w\<rparr>
         | (_, w) \<Rightarrow> s\<lparr>ps_watcher := w, ps_watching := False\<rparr>))"

text \<open>The worker takes one request; a panic ends its task.\<close>

definition service_take ::
  "('d, 'w, 'c, 'a, 'ct, 'pd) node_env \<Rightarrow> ('d, 'w, 'a) turn \<Rightarrow> ('d, 'w, 'a) pool_service
   \<Rightarrow> ('d, 'w, 'a) pool_service" where
  "service_take E t s =
     (if \<not> ps_working s then s
      else
        (case drop (length (ps_taken s)) (w_sent (ps_watcher s)) of
           [] \<Rightarrow> s
         | req # _ \<Rightarrow>
             (case process_decryption_request E t req (ps_log s) of
                (Panic p, l) \<Rightarrow> s\<lparr>ps_taken := ps_taken s @ [(t, req)], ps_log := l, ps_working := False\<rparr>
              | (_, l) \<Rightarrow> s\<lparr>ps_taken := ps_taken s @ [(t, req)], ps_log := l\<rparr>)))"

inductive service_step ::
  "('w \<Rightarrow> request_pool) \<Rightarrow> (bytes \<Rightarrow> bytes) \<Rightarrow> 'w ink_pool \<Rightarrow> (decryption_request \<Rightarrow> bytes)
   \<Rightarrow> ('d, 'w, 'c, 'a, 'ct, 'pd) node_env \<Rightarrow> ('d, 'w, 'a) pool_service \<Rightarrow> ('d, 'w, 'a) pool_service \<Rightarrow> bool"
  for view H P ident E where
  chain_moves: "(pool_step H)\<^sup>*\<^sup>* (view (ps_chain s)) (view w) \<Longrightarrow> service_step view H P ident E s (s\<lparr>ps_chain := w\<rparr>)"
| polls: "service_step view H P ident E s (service_poll P ident s)"
| takes: "service_step view H P ident E s (service_take E t s)"

inductive_cases service_step_cases: "service_step view H P ident E s t"


section \<open>The invariant\<close>

definition listing :: "('w \<Rightarrow> request_pool) \<Rightarrow> 'w \<Rightarrow> decryption_request list" where
  "listing view w = map from_contract (pool_read_all (view w))"

text \<open>
  The pool hosts the contract, and the identifiers of listed requests, hashes of their encodings, do
  not collide.
\<close>

definition service_ok ::
  "('w \<Rightarrow> request_pool) \<Rightarrow> (bytes \<Rightarrow> bytes) \<Rightarrow> 'w ink_pool \<Rightarrow> (decryption_request \<Rightarrow> bytes) \<Rightarrow> bool" where
  "service_ok view H P ident \<longleftrightarrow>
     hosts_pool P H view \<and> codec_ok (pool_list P)
     \<and> (\<forall>w. pool_inv H (view w) \<longrightarrow> inj_on ident (set (listing view w)))"

definition service_inv ::
  "('w \<Rightarrow> request_pool) \<Rightarrow> (bytes \<Rightarrow> bytes) \<Rightarrow> (decryption_request \<Rightarrow> bytes)
   \<Rightarrow> ('d, 'w, 'c, 'a, 'ct, 'pd) node_env \<Rightarrow> ('d, 'w, 'a) pool_service \<Rightarrow> bool" where
  "service_inv view H ident E s \<longleftrightarrow>
     pool_inv H (view (ps_chain s))
     \<and> prefix (w_sent (ps_watcher s)) (listing view (ps_chain s))
     \<and> (ps_watching s \<longrightarrow> w_seen (ps_watcher s) = ident ` set (w_sent (ps_watcher s)))
     \<and> prefix (map snd (ps_taken s)) (w_sent (ps_watcher s))
     \<and> worker_loop E (ps_taken s) worker_start = (ps_working s, ps_log s)"

lemma listing_distinct:
  assumes "service_ok view H P ident" and "pool_inv H (view w)"
  shows "distinct (map ident (listing view w))"
proof -
  have "distinct (listing view w)"
    using assms(2) pool_listing_distinct [of H "view w"] by (simp add: listing_def pool_inv_def)
  then show ?thesis
    using assms by (simp only: distinct_map [of ident] service_ok_def)
qed

lemma listing_grows:
  assumes "pool_inv H (view w)" and "(pool_step H)\<^sup>*\<^sup>* (view w) (view w')"
  shows "prefix (listing view w) (listing view w') \<and> pool_inv H (view w')"
proof -
  have "prefix (pool_read_all (view w)) (pool_read_all (view w'))"
    using pool_log.steps_grow [OF assms(2,1)] by (auto simp: prefix_def)
  moreover have "pool_inv H (view w')"
    using pool_log.steps_inv [OF assms(2,1)] .
  ultimately show ?thesis by (simp add: listing_def map_mono_prefix)
qed

lemma send_closed:
  assumes "\<exists>req \<in> set reqs. ident req \<notin> w_seen s"
  shows "\<exists>e w. send_new ident False reqs s = (Err e, w) \<and> w_sent w = w_sent s"
  using assms by (induction reqs) (auto simp: Let_def)

lemma send_nothing: "\<forall>req \<in> set reqs. ident req \<in> w_seen s \<Longrightarrow> send_new ident c reqs s = (Ok (), s)"
  by (induction reqs) auto

text \<open>A poll sends the whole listing when the worker is there, and nothing otherwise.\<close>

lemma service_poll_run:
  assumes ok: "service_ok view H P ident" and inv: "service_inv view H ident E s" and "ps_watching s"
  shows "if ps_working s
     then \<exists>w. service_poll P ident s = s\<lparr>ps_watcher := w\<rparr> \<and> w_sent w = listing view (ps_chain s)
       \<and> w_seen w = ident ` set (w_sent w)
     else \<exists>w b. service_poll P ident s = s\<lparr>ps_watcher := w, ps_watching := b\<rparr> \<and> w_sent w = w_sent (ps_watcher s)
       \<and> (b \<longrightarrow> w = ps_watcher s)"
proof -
  let ?l = "listing view (ps_chain s)"
  have read: "ink_read_all P (ps_chain s) = Ok ?l"
    unfolding listing_def using ok by (intro ink_read_all_hosted [where H = H]) (simp_all add: service_ok_def)
  show ?thesis
  proof (cases "ps_working s")
    case True
    have "distinct (map ident ?l)" using listing_distinct [OF ok] inv by (simp add: service_inv_def)
    moreover have "prefix (w_sent (ps_watcher s)) ?l" "w_seen (ps_watcher s) = ident ` set (w_sent (ps_watcher s))"
      using inv assms(3) by (simp_all add: service_inv_def)
    ultimately obtain w where "send_new ident True ?l (ps_watcher s) = (Ok (), w)" "w_sent w = ?l" "w_seen w = ident ` set ?l"
      using send_new_listing by (metis prod.collapse)
    then have "service_poll P ident s = s\<lparr>ps_watcher := w\<rparr>" "w_sent w = ?l" "w_seen w = ident ` set (w_sent w)"
      using True assms(3) by (simp_all add: service_poll_def read)
    then show ?thesis using True by auto
  next
    case False
    show ?thesis
    proof (cases "\<exists>req \<in> set ?l. ident req \<notin> w_seen (ps_watcher s)")
      case True
      then obtain e w where "send_new ident False ?l (ps_watcher s) = (Err e, w)" "w_sent w = w_sent (ps_watcher s)"
        using send_closed by blast
      then have "service_poll P ident s = s\<lparr>ps_watcher := w, ps_watching := False\<rparr>"
        using False assms(3) by (simp add: service_poll_def read)
      then show ?thesis using False \<open>w_sent w = w_sent (ps_watcher s)\<close> by auto
    next
      case none: False
      then have same: "service_poll P ident s = s\<lparr>ps_watcher := ps_watcher s, ps_watching := True\<rparr>"
        using False assms(3) by (simp add: service_poll_def read send_nothing)
      show ?thesis
        unfolding if_not_P [OF False] by (intro exI conjI, rule same) simp_all
    qed
  qed
qed

text \<open>Taking extends the worker's run by one request.\<close>

lemma service_take_run:
  assumes "worker_loop E (ps_taken s) worker_start = (ps_working s, ps_log s)" and "ps_working s"
    and "drop (length (ps_taken s)) (w_sent (ps_watcher s)) = req # rest"
  shows "\<exists>b l. service_take E t s = s\<lparr>ps_taken := ps_taken s @ [(t, req)], ps_log := l, ps_working := b\<rparr>
    \<and> worker_loop E (ps_taken s @ [(t, req)]) worker_start = (b, l)
    \<and> b = (\<forall>p. fst (process_decryption_request E t req (ps_log s)) \<noteq> Panic p)"
proof -
  obtain r l where "process_decryption_request E t req (ps_log s) = (r, l)" by fastforce
  then show ?thesis
    using assms by (cases r; cases s) (auto simp: service_take_def worker_loop_append)
qed

lemma service_inv_step:
  assumes ok: "service_ok view H P ident" and inv: "service_inv view H ident E s" and "service_step view H P ident E s s'"
  shows "service_inv view H ident E s' \<and> (\<exists>new. ps_taken s' = ps_taken s @ new)"
  using assms(3)
proof (cases rule: service_step.cases)
  case (chain_moves w)
  then show ?thesis
    using listing_grows [of H view "ps_chain s" w] inv by (auto simp: service_inv_def intro: prefix_order.trans)
next
  case polls
  show ?thesis
  proof (cases "ps_watching s")
    case True
    from service_poll_run [OF ok inv True] inv True show ?thesis
      unfolding polls by (cases "ps_working s") (auto simp: service_inv_def intro: prefix_order.trans)
  qed (use inv in \<open>simp add: polls service_poll_def\<close>)
next
  case (takes t)
  show ?thesis
  proof (cases "ps_working s \<and> drop (length (ps_taken s)) (w_sent (ps_watcher s)) \<noteq> []")
    case True
    then obtain req rest where d: "drop (length (ps_taken s)) (w_sent (ps_watcher s)) = req # rest"
      by (cases "drop (length (ps_taken s)) (w_sent (ps_watcher s))") auto
    have pre: "prefix (map snd (ps_taken s)) (w_sent (ps_watcher s))"
      and w: "worker_loop E (ps_taken s) worker_start = (ps_working s, ps_log s)"
      using inv by (simp_all add: service_inv_def)
    from pre obtain zs where zs: "w_sent (ps_watcher s) = map snd (ps_taken s) @ zs" by (auto simp: prefix_def)
    with d have "zs = req # rest" by (metis append_eq_conv_conj length_map)
    with zs have "prefix (map snd (ps_taken s) @ [req]) (w_sent (ps_watcher s))" by simp
    with service_take_run [OF w _ d, of t] True inv show ?thesis
      unfolding takes by (auto simp: service_inv_def)
  next
    case False
    then have "service_take E t s = s" by (auto simp: service_take_def)
    with inv show ?thesis by (simp add: takes)
  qed
qed

definition service_starts :: "('w \<Rightarrow> request_pool) \<Rightarrow> ('d, 'w, 'a) pool_service \<Rightarrow> bool" where
  "service_starts view s \<longleftrightarrow> (\<exists>w ws. s = spawn_pool_watcher w \<and> pool_new ws = Ok (view w))"


lemma service_inv_start: "service_starts view s \<Longrightarrow> service_inv view H ident E s"
  using pool_reachable_inv
  by (fastforce simp: service_starts_def spawn_pool_watcher_def service_inv_def watcher_new_def)

text \<open>What the worker took only grows, in every run of the two tasks and the chain.\<close>

interpretation service_log: growing_log "service_starts view"
  "\<lambda>s s'. service_ok view H P ident \<and> service_step view H P ident E s s'" "service_inv view H ident E" ps_taken
  for view H P ident E
  by unfold_locales (auto simp: service_inv_start dest: service_inv_step)

lemma service_steps_ok:
  assumes "service_ok view H P ident"
  shows "(\<lambda>s s'. service_ok view H P ident \<and> service_step view H P ident E s s') = service_step view H P ident E"
  using assms by simp

lemma service_reachable_inv:
  assumes "service_ok view H P ident" and "service_starts view s0" and "(service_step view H P ident E)\<^sup>*\<^sup>* s0 s"
  shows "service_inv view H ident E s"
  using service_log.reachable_inv [where H = H and P = P and ident = ident and E = E, OF assms(2)]
  unfolding service_steps_ok [OF assms(1)] using assms(3) by blast


section \<open>Progress\<close>

text \<open>Turns in which no listed request makes the worker panic.\<close>

lemma service_takes:
  assumes "worker_loop E (ps_taken s) worker_start = (True, ps_log s)" and "ps_working s"
    and "w_sent (ps_watcher s) = map snd (ps_taken s) @ reqs"
    and "\<And>req l p. req \<in> set reqs \<Longrightarrow> fst (process_decryption_request E t req l) \<noteq> Panic p"
  shows "map snd (ps_taken ((service_take E t ^^ length reqs) s)) = w_sent (ps_watcher s)
    \<and> ps_working ((service_take E t ^^ length reqs) s)"
  using assms
proof (induction reqs arbitrary: s)
  case (Cons req reqs)
  have d: "drop (length (ps_taken s)) (w_sent (ps_watcher s)) = req # reqs"
    using Cons.prems(3) by (metis append_eq_conv_conj length_map)
  obtain l where l: "service_take E t s = s\<lparr>ps_taken := ps_taken s @ [(t, req)], ps_log := l, ps_working := True\<rparr>"
    "worker_loop E (ps_taken s @ [(t, req)]) worker_start = (True, l)"
    using service_take_run [OF _ Cons.prems(2) d, of E t] Cons.prems(1,2,4) by fastforce
  let ?s = "service_take E t s"
  have "map snd (ps_taken ((service_take E t ^^ length reqs) ?s)) = w_sent (ps_watcher ?s)
      \<and> ps_working ((service_take E t ^^ length reqs) ?s)"
    using l Cons.prems(3,4) by (intro Cons.IH) simp_all
  then show ?case
    using l(1) by (simp add: funpow_swap1)
qed simp


section \<open>A concrete service\<close>

text \<open>A node that takes the witness as one string, and a requester who cannot be dialled.\<close>

definition quiet_node :: "(unit, request_pool, bytes, bytes, bytes, bytes) node_env" where
  "quiet_node = demo_node\<lparr>ne_hex := \<lparr>hex_encode = (\<lambda>bs. bs), hex_decode = Some\<rparr>,
     ne_witnesses := \<lparr>enc = concat, dec = (\<lambda>bs. Some ([bs], []))\<rparr>\<rparr>"

definition quiet_turn :: "(unit, request_pool, bytes) turn" where
  "quiet_turn = demo_turn\<lparr>tn_peer := (\<lambda>a m. No_Connection)\<rparr>"

lemma quiet_process: "fst (process_decryption_request quiet_node quiet_turn req l) \<noteq> Panic p"
  by (simp add: process_decryption_request_def request_verdict_def quiet_node_def quiet_turn_def demo_node_def demo_turn_def
      verify_intents_def verify_intent_def get_gadget_def register_gadget_def password_gadget_def share_message_def
      deliver_def opaque_into_addr_def Let_def)

lemma demo_pool_service_ok: "service_ok (\<lambda>w. w) (\<lambda>b. b) demo_ink_pool (request_id (\<lambda>b. b) demo_bytes_codec)"
proof -
  have "codec_ok (pool_list demo_ink_pool)" by (simp add: demo_ink_pool_def demo_pool_list_ok)
  then show ?thesis
    using codec_inject [OF request_codec_ok [OF demo_bytes_codec_ok]]
    by (simp add: service_ok_def demo_hosts_pool inj_on_def request_id_def)
qed

lemma demo_service_run:
  "(service_step (\<lambda>w. w) (\<lambda>b. b) demo_ink_pool ident E)\<^sup>*\<^sup>* (spawn_pool_watcher demo_pool0)
     ((spawn_pool_watcher demo_pool0)\<lparr>ps_chain := demo_pool1\<rparr>)"
  by (rule r_into_rtranclp, rule chain_moves) (simp add: spawn_pool_watcher_def demo_reach1)

lemma demo_service_starts: "service_starts (\<lambda>w. w) (spawn_pool_watcher demo_pool0)"
  using demo_new by (auto simp: service_starts_def)


section \<open>Properties\<close>

text \<open>
  C3. The service handles the pool in order: however the watcher, the worker and the chain are
  interleaved, the requests the worker took are the first ones of the contract's listing, each once
  and in the order in which they were added, its log is the one of handling exactly these one after
  the other, and every message it wrote to a peer is the share for a listed request whose witness
  every gadget of the file accepted.
\<close>

theorem service_handles_pool_in_order:
  assumes "service_ok view H P ident" and "service_starts view s0" and "(service_step view H P ident E)\<^sup>*\<^sup>* s0 s"
  shows "prefix (map snd (ps_taken s)) (map from_contract (pool_read_all (view (ps_chain s))))
    \<and> worker_loop E (ps_taken s) worker_start = (ps_working s, ps_log s)
    \<and> (\<forall>x \<in> set (delivered (ps_log s)). \<exists>t req c. (t, req) \<in> set (ps_taken s)
         \<and> req \<in> set (map from_contract (pool_read_all (view (ps_chain s))))
         \<and> authorised E t req c \<and> share_of E t req c (snd x))"
proof -
  have inv: "service_inv view H ident E s"
    by (rule service_reachable_inv [OF assms])
  then have pre: "prefix (map snd (ps_taken s)) (listing view (ps_chain s))"
    and run: "worker_loop E (ps_taken s) worker_start = (ps_working s, ps_log s)"
    by (auto simp: service_inv_def intro: prefix_order.trans)
  have "\<exists>t req c. (t, req) \<in> set (ps_taken s) \<and> authorised E t req c \<and> share_of E t req c (snd x)"
    if "x \<in> set (delivered (ps_log s))" for x
    using worker_loop_log [of x E "ps_taken s" worker_start] that unfolding run by (auto simp: worker_start_def)
  moreover have "req \<in> set (listing view (ps_chain s))" if "(t, req) \<in> set (ps_taken s)" for t req
    using set_mono_prefix [OF pre] that by force
  ultimately show ?thesis
    using pre run unfolding listing_def by blast
qed

theorem service_handles_pool_in_order_witness:
  "prefix (map snd (ps_taken (service_take quiet_node quiet_turn
       (service_poll demo_ink_pool (request_id (\<lambda>b. b) demo_bytes_codec)
         ((spawn_pool_watcher demo_pool0)\<lparr>ps_chain := demo_pool1\<rparr>)))))
     (map from_contract (pool_read_all (ps_chain (service_take quiet_node quiet_turn
       (service_poll demo_ink_pool (request_id (\<lambda>b. b) demo_bytes_codec)
         ((spawn_pool_watcher demo_pool0)\<lparr>ps_chain := demo_pool1\<rparr>))))))"
proof -
  let ?ident = "request_id (\<lambda>b. b) demo_bytes_codec"
  let ?s = "(spawn_pool_watcher demo_pool0)\<lparr>ps_chain := demo_pool1\<rparr>"
  have "(service_step (\<lambda>w. w) (\<lambda>b. b) demo_ink_pool ?ident quiet_node)\<^sup>*\<^sup>* (spawn_pool_watcher demo_pool0)
      (service_take quiet_node quiet_turn (service_poll demo_ink_pool ?ident ?s))"
    by (rule rtranclp.rtrancl_into_rtrancl [OF rtranclp.rtrancl_into_rtrancl [OF demo_service_run polls] takes])
  from service_handles_pool_in_order [OF demo_pool_service_ok demo_service_starts this] show ?thesis ..
qed

text \<open>
  C4. The service catches up: from every reachable state in which both tasks run, one poll and as many
  takes as requests are outstanding make the worker handle every request the contract lists, when in
  these turns no request makes it panic.
\<close>

theorem service_catches_up:
  assumes "service_ok view H P ident" and "service_starts view s0" and "(service_step view H P ident E)\<^sup>*\<^sup>* s0 s"
    and "ps_watching s" and "ps_working s"
    and "\<forall>req \<in> set (map from_contract (pool_read_all (view (ps_chain s)))). \<forall>l p.
       fst (process_decryption_request E t req l) \<noteq> Panic p"
  shows "map snd (ps_taken ((service_take E t ^^ (length (pool_read_all (view (ps_chain s))) - length (ps_taken s)))
      (service_poll P ident s))) = map from_contract (pool_read_all (view (ps_chain s)))"
proof -
  let ?l = "listing view (ps_chain s)"
  have inv: "service_inv view H ident E s"
    by (rule service_reachable_inv [OF assms(1-3)])
  then have pre: "prefix (map snd (ps_taken s)) ?l"
    and run: "worker_loop E (ps_taken s) worker_start = (True, ps_log s)"
    using assms(5) by (auto simp: service_inv_def intro: prefix_order.trans)
  obtain w where w: "service_poll P ident s = s\<lparr>ps_watcher := w\<rparr>" "w_sent w = ?l"
    using service_poll_run [OF assms(1) inv assms(4)] assms(5) by auto
  obtain reqs where reqs: "?l = map snd (ps_taken s) @ reqs" using pre by (auto simp: prefix_def)
  have "length reqs = length ?l - length (ps_taken s)" by (simp add: reqs)
  moreover have "map snd (ps_taken ((service_take E t ^^ length reqs) (service_poll P ident s))) = ?l"
    using service_takes [of E "service_poll P ident s" reqs t] run assms(5,6) reqs w
    by (auto simp: listing_def)
  ultimately show ?thesis by (simp add: listing_def)
qed

theorem service_catches_up_witness:
  "map snd (ps_taken ((service_take quiet_node quiet_turn ^^ length (pool_read_all demo_pool1))
     (service_poll demo_ink_pool (request_id (\<lambda>b. b) demo_bytes_codec)
       ((spawn_pool_watcher demo_pool0)\<lparr>ps_chain := demo_pool1\<rparr>))))
   = map from_contract (pool_read_all demo_pool1)"
  using service_catches_up [OF demo_pool_service_ok demo_service_starts
      demo_service_run [of "request_id (\<lambda>b. b) demo_bytes_codec" quiet_node], of quiet_turn] quiet_process
  by (simp add: spawn_pool_watcher_def)

end
