(* ===== verification/Psp22_Token.thy ===== *)
theory Psp22_Token
  imports Gadgets
begin

text \<open>
  The token contract, \<open>contract/psp22/lib.rs\<close>: its storage is the data of the pendzl library and its
  messages are the library's default implementations, which are parameters here; the constructor is
  the contract's own. What the token means for the token gadget is shown on a chain that hosts it.
\<close>

section \<open>The library's implementation\<close>

text \<open>
  \<open>PSP22Data\<close> is \<open>'d\<close>; \<open>_mint_to\<close> is internal, \<open>mint\<close> is the message that pendzl's mintable extension
  adds, with its caller.
\<close>

record 'd psp22_impl =
  tk_default :: 'd
  tk_mint_to :: "bytes \<Rightarrow> u128 \<Rightarrow> ('d, unit, string) action"
  tk_mint :: "bytes \<Rightarrow> bytes \<Rightarrow> u128 \<Rightarrow> ('d, unit, string) action"
  tk_balance_of :: "'d \<Rightarrow> bytes \<Rightarrow> u128"
  tk_total_supply :: "'d \<Rightarrow> u128"

text \<open>
  What pendzl documents: the default storage is empty, no balance exceeds the supply, minting adds to
  the receiver's balance and to the supply or fails when the supply would overflow, and the default
  \<open>mint\<close> mints for whoever calls it. \<open>occurs\<close> holds of the storages that occur.
\<close>

definition mints :: "'d psp22_impl \<Rightarrow> ('d \<Rightarrow> bool) \<Rightarrow> bytes \<Rightarrow> u128 \<Rightarrow> 'd \<Rightarrow> 'd \<Rightarrow> bool" where
  "mints K occurs receiver n s s' \<longleftrightarrow>
     occurs s' \<and> unat (tk_total_supply K s) + unat n < 2 ^ 128 \<and> tk_total_supply K s' = tk_total_supply K s + n
     \<and> (\<forall>a. tk_balance_of K s' a = (if a = receiver then tk_balance_of K s a + n else tk_balance_of K s a))"

definition psp22_impl_ok :: "'d psp22_impl \<Rightarrow> ('d \<Rightarrow> bool) \<Rightarrow> bool" where
  "psp22_impl_ok K occurs \<longleftrightarrow>
     occurs (tk_default K) \<and> tk_total_supply K (tk_default K) = 0 \<and> (\<forall>a. tk_balance_of K (tk_default K) a = 0)
     \<and> (\<forall>s a. occurs s \<longrightarrow> tk_balance_of K s a \<le> tk_total_supply K s)
     \<and> (\<forall>s receiver n. occurs s \<longrightarrow>
          (if unat (tk_total_supply K s) + unat n < 2 ^ 128
           then \<exists>s'. tk_mint_to K receiver n s = (Ok (), s') \<and> mints K occurs receiver n s s'
           else \<exists>e. tk_mint_to K receiver n s = (Err e, s)))
     \<and> (\<forall>caller. tk_mint K caller = tk_mint_to K)"


section \<open>The constructor\<close>

definition token_new :: "'d psp22_impl \<Rightarrow> bytes \<Rightarrow> u128 \<Rightarrow> ('d, string) outcome" where
  "token_new K caller total_supply =
     (case tk_mint_to K caller total_supply (tk_default K) of
        (r, s) \<Rightarrow> and_then (expect_result ''Should mint'' r) (\<lambda>_. Ok s))"


section \<open>Lemmas\<close>

lemma mint_result:
  assumes "psp22_impl_ok K occurs" and "occurs s" and "tk_mint K caller receiver n s = (Ok (), s')"
  shows "mints K occurs receiver n s s'"
proof -
  have same: "tk_mint_to K receiver n s = (Ok (), s')" using assms(1,3) by (simp add: psp22_impl_ok_def)
  have "if unat (tk_total_supply K s) + unat n < 2 ^ 128
      then \<exists>s'. tk_mint_to K receiver n s = (Ok (), s') \<and> mints K occurs receiver n s s'
      else \<exists>e. tk_mint_to K receiver n s = (Err e, s)"
    using assms(1,2) by (simp add: psp22_impl_ok_def)
  then show ?thesis using same by (auto split: if_splits)
qed

text \<open>Minting does not wrap: the receiver has at least what was minted.\<close>

lemma minted_balance:
  assumes "psp22_impl_ok K occurs" and "occurs s" and "mints K occurs receiver n s s'"
  shows "n \<le> tk_balance_of K s' receiver"
proof -
  let ?b = "tk_balance_of K s receiver"
  have "?b \<le> tk_total_supply K s" using assms(1,2) by (simp add: psp22_impl_ok_def)
  then have "unat ?b \<le> unat (tk_total_supply K s)" by (simp add: word_le_nat_alt)
  then have "unat ?b + unat n < 2 ^ LENGTH(128)" using assms(3) by (simp add: mints_def)
  then have "unat (?b + n) = unat ?b + unat n" by (simp add: unat_word_ariths)
  then show ?thesis using assms(3) by (simp add: mints_def word_le_nat_alt)
qed


section \<open>A concrete implementation\<close>

definition demo_token :: "((bytes \<Rightarrow> u128) \<times> u128) psp22_impl" where
  "demo_token =
     (let mint = (\<lambda>receiver n (b, t). if unat t + unat n < 2 ^ 128 then (Ok (), (b(receiver := b receiver + n), t + n))
        else (Err ''overflow'', (b, t)))
      in \<lparr>tk_default = (\<lambda>_. 0, 0), tk_mint_to = mint, tk_mint = (\<lambda>_. mint), tk_balance_of = fst, tk_total_supply = snd\<rparr>)"

definition demo_token_inv :: "(bytes \<Rightarrow> u128) \<times> u128 \<Rightarrow> bool" where
  "demo_token_inv s \<longleftrightarrow> (\<forall>a. fst s a \<le> snd s)"

lemma u128_add_mono:
  assumes "(x::u128) \<le> y" and "unat y + unat n < 2 ^ 128"
  shows "x \<le> y + n \<and> x + n \<le> y + n"
proof -
  have "unat x \<le> unat y" using assms(1) by (simp add: word_le_nat_alt)
  moreover from this assms(2) have "unat (x + n) = unat x + unat n" "unat (y + n) = unat y + unat n"
    by (simp_all add: unat_word_ariths)
  ultimately show ?thesis by (simp add: word_le_nat_alt)
qed

lemma demo_token_ok: "psp22_impl_ok demo_token demo_token_inv"
proof -
  have "mints demo_token demo_token_inv receiver n (b, t) (b(receiver := b receiver + n), t + n)"
    if "demo_token_inv (b, t)" "unat t + unat n < 2 ^ 128" for receiver n b t
    using that u128_add_mono by (auto simp: mints_def demo_token_inv_def demo_token_def Let_def)
  then show ?thesis
    by (auto simp: psp22_impl_ok_def demo_token_def demo_token_inv_def Let_def)
qed


section \<open>Properties\<close>

text \<open>
  A new token belongs to its creator: the constructor never panics, whatever the supply, and then
  the caller has the whole supply and nobody else anything.
\<close>

lemma token_created:
  assumes "psp22_impl_ok K occurs"
  shows "\<exists>s. token_new K caller total_supply = Ok s \<and> occurs s \<and> tk_total_supply K s = total_supply
    \<and> (\<forall>a. tk_balance_of K s a = (if a = caller then total_supply else 0))"
proof -
  have d: "occurs (tk_default K)" "tk_total_supply K (tk_default K) = 0" "\<forall>a. tk_balance_of K (tk_default K) a = 0"
    using assms by (simp_all add: psp22_impl_ok_def)
  have "unat total_supply < 2 ^ LENGTH(128)" by (rule unsigned_less)
  then have "unat (tk_total_supply K (tk_default K)) + unat total_supply < 2 ^ 128" by (simp add: d(2))
  moreover have "if unat (tk_total_supply K (tk_default K)) + unat total_supply < 2 ^ 128
      then \<exists>s'. tk_mint_to K caller total_supply (tk_default K) = (Ok (), s') \<and> mints K occurs caller total_supply (tk_default K) s'
      else \<exists>e. tk_mint_to K caller total_supply (tk_default K) = (Err e, tk_default K)"
    using assms d(1) by (simp add: psp22_impl_ok_def)
  ultimately obtain s' where "tk_mint_to K caller total_supply (tk_default K) = (Ok (), s')"
    "mints K occurs caller total_supply (tk_default K) s'" by auto
  then show ?thesis using d by (auto simp: token_new_def mints_def)
qed

lemma token_created_witness:
  "\<exists>s. token_new demo_token [1] 1000 = Ok s \<and> tk_balance_of demo_token s [1] = 1000 \<and> tk_balance_of demo_token s [2] = 0"
  using token_created [OF demo_token_ok, of "[1]" 1000] by force

text \<open>
  C19. A token that anyone can mint protects nothing: on a chain that hosts the token, once anyone at all
  minted at least the minimum of a token intent to an account, the gadget accepts that account's
  address as the witness, whatever its balance was before.
\<close>

theorem open_mint_opens_token_intents:
  assumes "psp22_impl_ok K occurs" and "ss58_ok A" and "codec_ok C"
    and "psp22_parse A data = Ok st" and "from_utf8 witness = Some holder"
    and "occurs (view w)" and "tk_mint K caller (decode_public_key A holder) n (view w) = (Ok (), view w')"
    and "u128_from_le_bytes (take 16 (drop 32 st)) \<le> n"
    and "read w' (take 32 st) ''PSP22::balance_of'' (Some (decode_public_key A holder))
       = Ok (Some (0 # enc C (tk_balance_of K (view w') (decode_public_key A holder))))"
  shows "psp22_verify A C decode_error read w' witness st = Ok True"
proof -
  let ?h = "decode_public_key A holder"
  have "mints K occurs ?h n (view w) (view w')" by (rule mint_result [OF assms(1,6,7)])
  then have "n \<le> tk_balance_of K (view w') ?h" by (rule minted_balance [OF assms(1,6)])
  then have enough: "u128_from_le_bytes (take 16 (drop 32 st)) \<le> tk_balance_of K (view w') ?h"
    using assms(8) by (rule order.trans [rotated])
  obtain p0 m where "st = decode_contract_addr A (trim p0) @ u128_to_le_bytes m"
    using assms(4) by (auto simp: psp22_parse_Ok_iff [OF assms(2)])
  then have "length st = 48" by (rule psp22_statement_fields(1) [OF assms(2)])
  moreover have "dec C (tl (0 # enc C (tk_balance_of K (view w') ?h))) = Some (tk_balance_of K (view w') ?h, [])"
    using codec_ok_exact [OF assms(3)] by simp
  ultimately show ?thesis
    using psp22_verify_statement [where read = "read" and w = w' and C = C, OF assms(2) _ assms(5) assms(9)] enough by simp
qed

theorem open_mint_opens_token_intents_witness:
  "\<exists>st w'. psp22_parse demo_ss58 (''X'' @ '','' @ show_nat (unat (100 :: u128))) = Ok st
    \<and> tk_mint demo_token [7] (decode_public_key demo_ss58 []) 250 (tk_default demo_token) = (Ok (), w')
    \<and> psp22_verify demo_ss58 (lib_u128 demo_libs) (lib_u128_error demo_libs)
        (\<lambda>w a m d. Ok (Some (0 # enc (lib_u128 demo_libs) (tk_balance_of demo_token w (the d))))) w' [] st = Ok True"
proof -
  let ?st = "decode_contract_addr demo_ss58 ''X'' @ u128_to_le_bytes 100"
  have t: "trim ''X'' = ''X''"
    by (simp add: trim_def white_space_defs starts_with_def trim_with.simps)
  have "CHR '','' \<notin> set (show_nat 100)"
    using show_nat_digits [of 100] by (auto simp: digit_value_def)
  then have "split_char CHR '','' (''X'' @ '','' @ show_nat 100) = [''X'', show_nat 100]"
    using split_char_no [of "CHR '',''" "show_nat 100"] by simp
  then have p: "psp22_parse demo_ss58 (''X'' @ '','' @ show_nat (unat (100 :: u128))) = Ok ?st"
    unfolding psp22_parse_Ok_iff [OF demo_ss58_ok]
    using parse_u128_show [of 100]
    by (intro exI [of _ "''X''"] exI [of _ "show_nat 100"] exI [of _ 100]) (simp add: t trim_show_nat)
  obtain w' where m: "tk_mint demo_token [7] (decode_public_key demo_ss58 []) 250 (tk_default demo_token) = (Ok (), w')"
    by (simp add: demo_token_def Let_def)
  have c: "codec_ok (lib_u128 demo_libs)"
    by (simp add: demo_libs_def map_codec_ok demo_bytes_codec_ok)
  have u: "from_utf8 [] = Some []" by (simp add: from_utf8_def)
  have "u128_from_le_bytes (take 16 (drop 32 ?st)) = 100"
    by (rule psp22_statement_fields(3) [OF demo_ss58_ok refl])
  then have le: "u128_from_le_bytes (take 16 (drop 32 ?st)) \<le> 250" by simp
  have i: "demo_token_inv (tk_default demo_token)" by (simp add: demo_token_inv_def demo_token_def Let_def)
  have "psp22_verify demo_ss58 (lib_u128 demo_libs) (lib_u128_error demo_libs)
      (\<lambda>w a m d. Ok (Some (0 # enc (lib_u128 demo_libs) (tk_balance_of demo_token w (the d))))) w' [] ?st = Ok True"
    by (rule open_mint_opens_token_intents [OF demo_token_ok demo_ss58_ok c p u, where view = "\<lambda>w. w"
          and w = "tk_default demo_token" and caller = "[7]" and n = 250])
      (use i m le in simp_all)
  with p m show ?thesis by blast
qed

end
