(* ===== verification/Node_State.thy ===== *)
theory Node_State
  imports Libraries
begin

text \<open>
  What nodes tell each other and what they remember of it: \<open>fangorn/src/types.rs\<close>, and the task
  of \<open>fangorn/src/node/node.rs\<close> that applies announcements to the state. Config, hints and
  system keys are opaque values of the threshold encryption crate, which is a parameter.
\<close>

section \<open>Data\<close>

definition RPC_KEY_PREFIX :: string where
  "RPC_KEY_PREFIX = ''rpc-addr-''"

definition CONFIG_KEY :: string where
  "CONFIG_KEY = ''config-key-''"

definition SYSTEM_KEYS_KEY :: string where
  "SYSTEM_KEYS_KEY = ''sys-keys-''"

definition MAX_COMMITTEE_SIZE :: nat where
  "MAX_COMMITTEE_SIZE = 2"

datatype tag = Tag_Config | Tag_Hint | Tag_Doc | Tag_SystemKeys | Tag_DecryptionRequest

record announcement =
  ann_tag :: tag
  ann_data :: bytes

record ('crs, 'lag) config =
  crs :: 'crs
  lag_polys :: 'lag
  config_size :: nat

text \<open>
  The crates \<open>silent_threshold_encryption\<close> and \<open>ark_serialize\<close>: key generation, and the
  serialization of its values. \<open>None\<close> is an error. The draws of \<open>OsRng\<close> are part of \<open>crs_new\<close>.
\<close>

record ('crs, 'lag, 'pk, 'sk) ste_lib =
  crs_new :: "nat \<Rightarrow> 'crs option"
  lag_new :: "nat \<Rightarrow> 'lag option"
  ser_config :: "('crs, 'lag) config \<Rightarrow> bytes option"
  des_config :: "bytes \<Rightarrow> ('crs, 'lag) config option"
  ser_pk :: "'pk \<Rightarrow> bytes option"
  des_pk :: "bytes \<Rightarrow> 'pk option"
  system_keys_new :: "'pk list \<Rightarrow> 'crs \<Rightarrow> 'lag \<Rightarrow> nat \<Rightarrow> ('sk, string) outcome"
  ser_system_keys :: "'sk \<Rightarrow> (bytes, string) outcome"

text \<open>The documented law of the serialization: what was written is read back.\<close>

definition ste_ok :: "('crs, 'lag, 'pk, 'sk) ste_lib \<Rightarrow> bool" where
  "ste_ok S \<longleftrightarrow>
     (\<forall>c bs. ser_config S c = Some bs \<longrightarrow> des_config S bs = Some c)
     \<and> (\<forall>k bs. ser_pk S k = Some bs \<longrightarrow> des_pk S bs = Some k)"

record ('crs, 'lag, 'pk, 'sk) node_state =
  st_config :: "('crs, 'lag) config option"
  st_hints :: "'pk list option"
  st_system_keys :: "'sk option"


section \<open>Operations\<close>

definition config_rand :: "('crs, 'lag, 'pk, 'sk) ste_lib \<Rightarrow> nat \<Rightarrow> (('crs, 'lag) config, string) outcome" where
  "config_rand S n =
     and_then (unwrap_decoded (crs_new S n)) (\<lambda>c.
     and_then (unwrap_decoded (lag_new S n)) (\<lambda>l.
       Ok \<lparr>crs = c, lag_polys = l, config_size = n\<rparr>))"

definition state_empty :: "('crs, 'lag, 'pk, 'sk) node_state" where
  "state_empty = \<lparr>st_config = None, st_hints = None, st_system_keys = None\<rparr>"

text \<open>
  \<open>State::update\<close>: a config replaces the config, a hint is appended to the hints, every other tag
  is ignored. Bytes that do not deserialize are a panic.
\<close>

definition state_update ::
  "('crs, 'lag, 'pk, 'sk) ste_lib \<Rightarrow> announcement
   \<Rightarrow> (('crs, 'lag, 'pk, 'sk) node_state, unit, string) action" where
  "state_update S a s =
     (case ann_tag a of
        Tag_Config \<Rightarrow>
          (case des_config S (ann_data a) of
             None \<Rightarrow> (Panic Unwrap_Err, s)
           | Some c \<Rightarrow> (Ok (), s\<lparr>st_config := Some c\<rparr>))
      | Tag_Hint \<Rightarrow>
          (case des_pk S (ann_data a) of
             None \<Rightarrow> (Panic Unwrap_Err, s)
           | Some hint \<Rightarrow>
               (case st_hints s of
                  Some h \<Rightarrow> (Ok (), s\<lparr>st_hints := Some (h @ [hint])\<rparr>)
                | None \<Rightarrow> (Ok (), s\<lparr>st_hints := Some [hint]\<rparr>)))
      | _ \<Rightarrow> (Ok (), s))"

text \<open>
  The task of \<open>Node::build\<close>: it receives announcements and updates the state until the channel
  closes; a panic ends it, and what is still in the channel is not applied.
\<close>

fun state_task ::
  "('crs, 'lag, 'pk, 'sk) ste_lib \<Rightarrow> announcement list
   \<Rightarrow> (('crs, 'lag, 'pk, 'sk) node_state, unit, string) action" where
  "state_task S [] s = (Ok (), s)"
| "state_task S (a # as) s = bind_action (state_update S a) (\<lambda>_. state_task S as) s"


section \<open>What the state means\<close>

text \<open>The hints and the last config that a list of announcements carries.\<close>

definition hints_of :: "('crs, 'lag, 'pk, 'sk) ste_lib \<Rightarrow> announcement list \<Rightarrow> 'pk list" where
  "hints_of S as = List.map_filter (\<lambda>a. if ann_tag a = Tag_Hint then des_pk S (ann_data a) else None) as"

definition configs_of :: "('crs, 'lag, 'pk, 'sk) ste_lib \<Rightarrow> announcement list \<Rightarrow> ('crs, 'lag) config list" where
  "configs_of S as =
     List.map_filter (\<lambda>a. if ann_tag a = Tag_Config then des_config S (ann_data a) else None) as"

text \<open>An announcement that does not make the task panic.\<close>

definition readable :: "('crs, 'lag, 'pk, 'sk) ste_lib \<Rightarrow> announcement \<Rightarrow> bool" where
  "readable S a \<longleftrightarrow>
     (ann_tag a = Tag_Config \<longrightarrow> des_config S (ann_data a) \<noteq> None)
     \<and> (ann_tag a = Tag_Hint \<longrightarrow> des_pk S (ann_data a) \<noteq> None)"

definition hint_list :: "('crs, 'lag, 'pk, 'sk) node_state \<Rightarrow> 'pk list" where
  "hint_list s = (case st_hints s of None \<Rightarrow> [] | Some h \<Rightarrow> h)"

lemma hints_of_simps [simp]:
  "hints_of S [] = []"
  "hints_of S (a # as) =
     (if ann_tag a = Tag_Hint then (case des_pk S (ann_data a) of None \<Rightarrow> [] | Some k \<Rightarrow> [k]) else [])
     @ hints_of S as"
  by (auto simp: hints_of_def List.map_filter_def split: option.splits)

lemma configs_of_simps [simp]:
  "configs_of S [] = []"
  "configs_of S (a # as) =
     (if ann_tag a = Tag_Config then (case des_config S (ann_data a) of None \<Rightarrow> [] | Some c \<Rightarrow> [c]) else [])
     @ configs_of S as"
  by (auto simp: configs_of_def List.map_filter_def split: option.splits)

text \<open>Never an empty list of hints: either none has come or there is one.\<close>

definition hints_inv :: "('crs, 'lag, 'pk, 'sk) node_state \<Rightarrow> bool" where
  "hints_inv s \<longleftrightarrow> st_hints s \<noteq> Some []"

inductive state_step :: "('crs, 'lag, 'pk, 'sk) ste_lib
   \<Rightarrow> ('crs, 'lag, 'pk, 'sk) node_state \<Rightarrow> ('crs, 'lag, 'pk, 'sk) node_state \<Rightarrow> bool" for S where
  announce: "state_update S a s = (Ok (), t) \<Longrightarrow> state_step S s t"

inductive_cases state_step_cases: "state_step S s t"

lemma state_update_cases:
  assumes "state_update S a s = (r, t)"
  shows "(\<exists>c. ann_tag a = Tag_Config \<and> des_config S (ann_data a) = Some c \<and> r = Ok () \<and> t = s\<lparr>st_config := Some c\<rparr>)
       \<or> (\<exists>k. ann_tag a = Tag_Hint \<and> des_pk S (ann_data a) = Some k \<and> r = Ok ()
            \<and> t = s\<lparr>st_hints := Some (hint_list s @ [k])\<rparr>)
       \<or> (readable S a \<and> ann_tag a \<notin> {Tag_Config, Tag_Hint} \<and> r = Ok () \<and> t = s)
       \<or> (\<not> readable S a \<and> r = Panic Unwrap_Err \<and> t = s)"
  using assms
  by (auto simp: state_update_def readable_def hint_list_def split: tag.splits option.splits)

lemma state_step_hints_inv: "hints_inv s \<Longrightarrow> state_step S s t \<Longrightarrow> hints_inv t"
  by (erule state_step_cases, drule state_update_cases) (auto simp: hints_inv_def)

interpretation node_ts: transition_system "\<lambda>s. s = state_empty" "state_step S" hints_inv for S
  by unfold_locales (simp add: hints_inv_def state_empty_def, rule state_step_hints_inv)

lemma state_step_hints_grow:
  assumes "state_step S s t"
  shows "\<exists>new. hint_list t = hint_list s @ new"
proof -
  obtain a where "state_update S a s = (Ok (), t)"
    using assms by (rule state_step_cases)
  from state_update_cases [OF this] show ?thesis by (auto simp: hint_list_def)
qed

interpretation hint_log: growing_log "\<lambda>s. s = state_empty" "state_step S" hints_inv hint_list for S
  by unfold_locales (rule state_step_hints_grow)

lemma state_task_readable:
  "\<forall>a \<in> set as. readable S a \<Longrightarrow>
   fst (state_task S as s) = Ok ()
   \<and> hint_list (snd (state_task S as s)) = hint_list s @ hints_of S as
   \<and> st_config (snd (state_task S as s)) =
       (if configs_of S as = [] then st_config s else Some (last (configs_of S as)))"
proof (induction as arbitrary: s)
  case (Cons a as)
  obtain r t where step: "state_update S a s = (r, t)" by force
  have "readable S a" using Cons.prems by simp
  with state_update_cases [OF step] Cons.IH [of t] Cons.prems show ?case
    by (auto simp: step hint_list_def)
qed simp

lemma state_task_stops:
  "\<forall>b \<in> set as. readable S b \<Longrightarrow> \<not> readable S a \<Longrightarrow>
   state_task S (as @ a # bs) s = (Panic Unwrap_Err, snd (state_task S as s))"
proof (induction as arbitrary: s)
  case Nil
  obtain r t where step: "state_update S a s = (r, t)" by force
  from state_update_cases [OF step] Nil step show ?case by (auto simp: readable_def)
next
  case (Cons b as)
  obtain r t where step: "state_update S b s = (r, t)" by force
  have "readable S b" using Cons.prems by simp
  with state_update_cases [OF step] have "r = Ok ()" by auto
  with Cons step show ?case by simp
qed


section \<open>Properties\<close>

text \<open>A concrete choice of the crates, for the witnesses.\<close>

definition demo_ste :: "(bytes, unit, bytes, bytes list) ste_lib" where
  "demo_ste = \<lparr>crs_new = (\<lambda>n. Some (replicate n 7)), lag_new = (\<lambda>n. Some ()),
     ser_config = (\<lambda>c. if config_size c < 256 then Some (of_nat (config_size c) # crs c) else None),
     des_config = (\<lambda>bs. case bs of [] \<Rightarrow> None
        | b # bs' \<Rightarrow> Some \<lparr>crs = bs', lag_polys = (), config_size = unat b\<rparr>),
     ser_pk = (\<lambda>k. if k = [] then None else Some k), des_pk = (\<lambda>bs. if bs = [] then None else Some bs),
     system_keys_new = (\<lambda>ks c l k. Ok ks), ser_system_keys = (\<lambda>ks. Ok (concat ks))\<rparr>"

lemma demo_ste_ok: "ste_ok demo_ste"
  by (auto simp: ste_ok_def demo_ste_def unat_of_nat split: if_splits)

text \<open>
  C14. The state is a function of what was announced: as long as configs and hints deserialize, it
  holds the last config announced and the hints in the order they came, each as often as it
  was announced, and never an empty list of hints.
\<close>

theorem state_is_announcements:
  assumes "\<forall>a \<in> set as. readable S a"
  shows "fst (state_task S as state_empty) = Ok ()
    \<and> st_config (snd (state_task S as state_empty)) =
        (if configs_of S as = [] then None else Some (last (configs_of S as)))
    \<and> st_hints (snd (state_task S as state_empty)) =
        (if hints_of S as = [] then None else Some (hints_of S as))"
proof -
  let ?t = "snd (state_task S as state_empty)"
  have run: "\<forall>a \<in> set bs. readable S a \<Longrightarrow> (state_step S)\<^sup>*\<^sup>* s (snd (state_task S bs s))" for bs s
  proof (induction bs arbitrary: s)
    case (Cons b bs)
    obtain r t where step: "state_update S b s = (r, t)" by force
    with state_update_cases [OF step] Cons.prems have "r = Ok ()" by auto
    with step have "state_step S s t" by (auto intro: announce)
    moreover have "(state_step S)\<^sup>*\<^sup>* t (snd (state_task S bs t))" using Cons by simp
    ultimately show ?case using step \<open>r = Ok ()\<close> by (simp add: converse_rtranclp_into_rtranclp)
  qed simp
  have "hints_inv ?t" using node_ts.reachable_inv [OF refl run [OF assms]] by simp
  then show ?thesis
    using state_task_readable [OF assms, of state_empty]
    by (auto simp: hints_inv_def hint_list_def state_empty_def split: option.splits)
qed

theorem state_is_announcements_witness:
  "st_hints (snd (state_task demo_ste
      [\<lparr>ann_tag = Tag_Hint, ann_data = [1]\<rparr>, \<lparr>ann_tag = Tag_Config, ann_data = [2, 9]\<rparr>,
       \<lparr>ann_tag = Tag_Hint, ann_data = [1]\<rparr>, \<lparr>ann_tag = Tag_Doc, ann_data = []\<rparr>] state_empty))
   = Some [[1], [1]]"
  using state_is_announcements [of "[\<lparr>ann_tag = Tag_Hint, ann_data = [1]\<rparr>, \<lparr>ann_tag = Tag_Config, ann_data = [2, 9]\<rparr>,
       \<lparr>ann_tag = Tag_Hint, ann_data = [1]\<rparr>, \<lparr>ann_tag = Tag_Doc, ann_data = []\<rparr>]" demo_ste]
  by (simp del: state_task.simps) (simp add: readable_def demo_ste_def)


end
