(* ===== verification/Key_Vault.thy ===== *)
theory Key_Vault
  imports Node_State
begin

text \<open>
  The key vaults, \<open>fangorn/src/crypto/keyvault.rs\<close>: an sr25519 pair, an iroh key and a threshold
  encryption key, each kept as bytes under a name in a password-protected vault; \<open>create_vaults\<close>
  of \<open>node/node.rs\<close>; and the signer of \<open>backend/substrate.rs\<close>. The crates \<open>rust_vault\<close>, \<open>sp_core\<close>
  and \<open>iroh\<close> are parameters, and random draws are arguments.
\<close>

section \<open>The vault\<close>

text \<open>
  \<open>'h\<close> is a value of type \<open>Vault\<close>, \<open>'v\<close> what all of them keep, in memory and on disk; a clone is a
  value of its own, of which nothing is assumed: it may or may not see what is stored through the
  other. Reading changes the state as well. The locks of the code are uncontended here: one call at
  a time, and a panic ends the program.
\<close>

record ('v, 'h) vault_lib =
  vault_clone :: "'h \<Rightarrow> 'v \<Rightarrow> 'h \<times> 'v"
  store_bytes :: "'h \<Rightarrow> string \<Rightarrow> bytes \<Rightarrow> string \<Rightarrow> string \<Rightarrow> ('v, unit, string) action"
  vault_get :: "'h \<Rightarrow> string \<Rightarrow> string \<Rightarrow> string \<Rightarrow> ('v, bytes, string) action"
  vault_list :: "'v \<Rightarrow> 'h \<Rightarrow> string list"
  vault_contains :: "'v \<Rightarrow> 'h \<Rightarrow> string \<Rightarrow> bool"

definition vault_holds ::
  "('v, 'h) vault_lib \<Rightarrow> 'v \<Rightarrow> 'h \<Rightarrow> string \<Rightarrow> string \<Rightarrow> string \<Rightarrow> bytes \<Rightarrow> bool" where
  "vault_holds V v h name vp fp bs \<longleftrightarrow> (\<exists>v'. vault_get V h name vp fp v = (Ok bs, v'))"

text \<open>
  The documented behaviour: bytes stored under a name are read back through the same value with the
  same passwords, and stay when something is read, or stored under another name, through any value.
\<close>

definition vault_ok :: "('v, 'h) vault_lib \<Rightarrow> bool" where
  "vault_ok V \<longleftrightarrow>
     (\<forall>h n b vp fp v v'. store_bytes V h n b vp fp v = (Ok (), v') \<longrightarrow>
        vault_holds V v' h n vp fp b
        \<and> (\<forall>h2 n2 vp2 fp2 b2. n2 \<noteq> n \<longrightarrow> vault_holds V v h2 n2 vp2 fp2 b2 \<longrightarrow> vault_holds V v' h2 n2 vp2 fp2 b2))
     \<and> (\<forall>h n vp fp v b v'. vault_get V h n vp fp v = (Ok b, v') \<longrightarrow>
        (\<forall>h2 n2 vp2 fp2 b2. vault_holds V v h2 n2 vp2 fp2 b2 \<longrightarrow> vault_holds V v' h2 n2 vp2 fp2 b2))"

datatype key_vault_error =
    Keystore string
  | KeyNotFound
  | InvalidSignature
  | Io string
  | Secret_String string

record 'h key_vault =
  kv_vault :: 'h
  key_name :: string
  key_password :: "string option"
  vault_password :: "string option"
  storing_passwords :: bool

text \<open>\<open>get_secure_password\<close> of all three vaults.\<close>

definition get_secure_password :: "string \<Rightarrow> (string, key_vault_error) outcome" where
  "get_secure_password password_name = Err (Keystore ''This function is not yet implemented'')"

text \<open>
  The passwords an operation uses, vault first: the stored ones, or those of
  \<^const>\<open>get_secure_password\<close>, unwrapped.
\<close>

definition passwords :: "'h key_vault \<Rightarrow> (string \<times> string, key_vault_error) outcome" where
  "passwords k =
     (if storing_passwords k then
        and_then (unwrap_option (vault_password k)) (\<lambda>vp.
        and_then (unwrap_option (key_password k)) (\<lambda>fp. Ok (vp, fp)))
      else
        and_then (unwrap_result (get_secure_password ''vault_password'')) (\<lambda>vp.
        and_then (unwrap_result (get_secure_password ''file_password'')) (\<lambda>fp. Ok (vp, fp))))"

definition unwrap_in :: "('s, 'a, string) action \<Rightarrow> ('s, 'a, key_vault_error) action" where
  "unwrap_in m s = (case m s of (r, t) \<Rightarrow> (unwrap_result r, t))"

definition read_key :: "('v, 'h) vault_lib \<Rightarrow> 'h key_vault \<Rightarrow> ('v, bytes, key_vault_error) action" where
  "read_key V k =
     bind_action (pure_action (passwords k)) (\<lambda>(vp, fp). unwrap_in (vault_get V (kv_vault k) (key_name k) vp fp))"

definition write_key :: "('v, 'h) vault_lib \<Rightarrow> 'h key_vault \<Rightarrow> bytes \<Rightarrow> ('v, unit, key_vault_error) action" where
  "write_key V k bs =
     bind_action (pure_action (passwords k)) (\<lambda>(vp, fp). unwrap_in (store_bytes V (kv_vault k) (key_name k) bs vp fp))"

definition list_keys :: "('v, 'h) vault_lib \<Rightarrow> 'h key_vault \<Rightarrow> 'v \<Rightarrow> (string list, key_vault_error) outcome" where
  "list_keys V k v = Ok (vault_list V v (kv_vault k))"

definition has_key :: "('v, 'h) vault_lib \<Rightarrow> 'h key_vault \<Rightarrow> string \<Rightarrow> 'v \<Rightarrow> bool" where
  "has_key V k name v = vault_contains V v (kv_vault k) name"


text \<open>
  The contract of a place for secrets: what was stored under a key is loaded again, whatever is
  loaded or stored under other keys in between.
\<close>

locale secret_store =
  fixes lib_ok :: "'l \<Rightarrow> bool"
    and same_slot :: "'k \<Rightarrow> 'k \<Rightarrow> bool"
    and holds :: "'l \<Rightarrow> 'v \<Rightarrow> 'k \<Rightarrow> bytes \<Rightarrow> bool"
    and store :: "'l \<Rightarrow> 'k \<Rightarrow> bytes \<Rightarrow> ('v, unit, 'e) action"
    and load :: "'l \<Rightarrow> 'k \<Rightarrow> ('v, bytes, 'e) action"
  assumes store_holds: "lib_ok l \<Longrightarrow> store l k b v = (Ok u, v') \<Longrightarrow> holds l v' k b"
    and store_keeps: "lib_ok l \<Longrightarrow> store l k b v = (Ok u, v') \<Longrightarrow> \<not> same_slot k k2
          \<Longrightarrow> holds l v k2 b2 \<Longrightarrow> holds l v' k2 b2"
    and load_keeps: "lib_ok l \<Longrightarrow> load l k v = (Ok b, v') \<Longrightarrow> holds l v k2 b2 \<Longrightarrow> holds l v' k2 b2"
    and holds_load: "lib_ok l \<Longrightarrow> holds l v k b \<Longrightarrow> \<exists>v'. load l k v = (Ok b, v')"
begin

lemma load_holding:
  assumes "lib_ok l" and "holds l v k b"
  obtains v' where "load l k v = (Ok b, v')" and "holds l v' k b"
  using assms holds_load load_keeps by metis

lemma two_secrets:
  assumes "lib_ok l" and "store l k1 b1 v = (Ok u, v1)" and "store l k2 b2 v1 = (Ok u, v2)"
    and "\<not> same_slot k2 k1"
  shows "holds l v2 k1 b1" and "holds l v2 k2 b2"
  using assms store_holds store_keeps by metis+

end

definition key_held :: "('v, 'h) vault_lib \<Rightarrow> 'v \<Rightarrow> 'h key_vault \<Rightarrow> bytes \<Rightarrow> bool" where
  "key_held V v k b \<longleftrightarrow> (\<exists>vp fp. passwords k = Ok (vp, fp) \<and> vault_holds V v (kv_vault k) (key_name k) vp fp b)"

definition same_name :: "'h key_vault \<Rightarrow> 'h key_vault \<Rightarrow> bool" where
  "same_name k1 k2 \<longleftrightarrow> key_name k1 = key_name k2"

lemma unwrap_in_Ok_iff: "unwrap_in m s = (Ok a, t) \<longleftrightarrow> m s = (Ok a, t)"
  by (auto simp: unwrap_in_def outcome_simps split: prod.splits)

lemma write_key_Ok_iff:
  "write_key V k b v = (Ok u, v') \<longleftrightarrow>
     (\<exists>vp fp. passwords k = Ok (vp, fp) \<and> store_bytes V (kv_vault k) (key_name k) b vp fp v = (Ok u, v'))"
  by (auto simp: write_key_def outcome_simps unwrap_in_Ok_iff)

lemma read_key_Ok_iff:
  "read_key V k v = (Ok b, v') \<longleftrightarrow>
     (\<exists>vp fp. passwords k = Ok (vp, fp) \<and> vault_get V (kv_vault k) (key_name k) vp fp v = (Ok b, v'))"
  by (auto simp: read_key_def outcome_simps unwrap_in_Ok_iff)

lemma vault_ok_store:
  assumes "vault_ok V" and "store_bytes V h n b vp fp v = (Ok u, v')"
  shows "vault_holds V v' h n vp fp b"
    and "n2 \<noteq> n \<Longrightarrow> vault_holds V v h2 n2 vp2 fp2 b2 \<Longrightarrow> vault_holds V v' h2 n2 vp2 fp2 b2"
  using assms unfolding vault_ok_def by (cases u; blast)+

lemma vault_ok_get:
  assumes "vault_ok V" and "vault_get V h n vp fp v = (Ok b, v')" and "vault_holds V v h2 n2 vp2 fp2 b2"
  shows "vault_holds V v' h2 n2 vp2 fp2 b2"
  using assms unfolding vault_ok_def by blast

interpretation keys: secret_store vault_ok same_name key_held write_key read_key
proof unfold_locales
  fix V :: "('a, 'b) vault_lib" and k k2 b b2 v u v'
  assume ok: "vault_ok V"
  { assume "write_key V k b v = (Ok u, v')"
    then show "key_held V v' k b"
      using vault_ok_store(1) [OF ok] by (auto simp: write_key_Ok_iff key_held_def) }
  { assume "write_key V k b v = (Ok u, v')" "\<not> same_name k k2" "key_held V v k2 b2"
    then show "key_held V v' k2 b2"
      using vault_ok_store(2) [OF ok] by (fastforce simp: write_key_Ok_iff key_held_def same_name_def) }
  { assume "read_key V k v = (Ok b, v')" "key_held V v k2 b2"
    then show "key_held V v' k2 b2"
      using vault_ok_get [OF ok] by (fastforce simp: read_key_Ok_iff key_held_def) }
  { assume "key_held V v k b"
    then show "\<exists>v'. read_key V k v = (Ok b, v')"
      by (auto simp: read_key_Ok_iff key_held_def vault_holds_def) }
qed


section \<open>\<open>Sr25519KeyVault\<close>\<close>

record ('p, 'k, 'g) pair_lib =
  from_phrase :: "string \<Rightarrow> ('p \<times> bytes) option"
  from_seed_slice :: "bytes \<Rightarrow> 'p option"
  pair_public :: "'p \<Rightarrow> 'k"
  pair_sign :: "'p \<Rightarrow> bytes \<Rightarrow> 'g"
  pair_verify :: "'g \<Rightarrow> bytes \<Rightarrow> 'k \<Rightarrow> bool"
  to_ss58check :: "'k \<Rightarrow> string"
  from_ss58check :: "string \<Rightarrow> 'k option"

definition pair_ok :: "('p, 'k, 'g) pair_lib \<Rightarrow> bool" where
  "pair_ok P \<longleftrightarrow>
     (\<forall>m p seed. from_phrase P m = Some (p, seed) \<longrightarrow> from_seed_slice P seed = Some p)
     \<and> (\<forall>p msg. pair_verify P (pair_sign P p msg) msg (pair_public P p))
     \<and> (\<forall>k. from_ss58check P (to_ss58check P k) = Some k)"

definition sr25519_new :: "'h \<Rightarrow> string \<Rightarrow> 'h key_vault" where
  "sr25519_new vault name = \<lparr>kv_vault = vault, key_name = name, key_password = None, vault_password = None, storing_passwords = False\<rparr>"

definition sr25519_new_store_info :: "'h \<Rightarrow> string \<Rightarrow> string \<Rightarrow> string \<Rightarrow> 'h key_vault" where
  "sr25519_new_store_info vault vp name kp =
     \<lparr>kv_vault = vault, key_name = name, key_password = Some kp, vault_password = Some vp, storing_passwords = True\<rparr>"

definition to_ss58 :: "('p, 'k, 'g) pair_lib \<Rightarrow> 'k \<Rightarrow> string" where
  "to_ss58 P public = to_ss58check P public"

definition from_ss58 :: "('p, 'k, 'g) pair_lib \<Rightarrow> string \<Rightarrow> ('k, key_vault_error) outcome" where
  "from_ss58 P address = ok_or (Keystore ''Invalid SS58 address'') (from_ss58check P address)"

text \<open>
  \<open>mnemonic\<close> is the phrase drawn; with stored passwords the pair is made before the vault is opened,
  otherwise the passwords come first.
\<close>

definition sr25519_generate_key_print_mnemonic ::
  "('v, 'h) vault_lib \<Rightarrow> ('p, 'k, 'g) pair_lib \<Rightarrow> 'h key_vault \<Rightarrow> string \<Rightarrow> ('v, 'k, key_vault_error) action" where
  "sr25519_generate_key_print_mnemonic V P k mnemonic =
     (let make = pure_action (expect_option ''Failed to generate keypair from mnemonic'' (from_phrase P mnemonic))
      in if storing_passwords k then
           bind_action make (\<lambda>(pair, seed). bind_action (write_key V k seed) (\<lambda>_. pure_action (Ok (pair_public P pair))))
         else
           bind_action (pure_action (passwords k)) (\<lambda>_.
           bind_action make (\<lambda>(pair, seed). bind_action (write_key V k seed) (\<lambda>_. pure_action (Ok (pair_public P pair))))))"

text \<open>\<open>generate_key\<close> never uses stored passwords.\<close>

definition sr25519_generate_key ::
  "('v, 'h) vault_lib \<Rightarrow> ('p, 'k, 'g) pair_lib \<Rightarrow> 'h key_vault \<Rightarrow> string \<Rightarrow> ('v, 'k, key_vault_error) action" where
  "sr25519_generate_key V P k mnemonic =
     bind_action (pure_action (expect_option ''Failed to generate keypair from mnemonic'' (from_phrase P mnemonic)))
       (\<lambda>(pair, seed).
     bind_action (pure_action (unwrap_result (get_secure_password ''vault_password''))) (\<lambda>vp.
     bind_action (pure_action (unwrap_result (get_secure_password ''file_password''))) (\<lambda>fp.
     bind_action (unwrap_in (store_bytes V (kv_vault k) (key_name k) seed vp fp)) (\<lambda>_.
       pure_action (Ok (pair_public P pair))))))"

definition sr25519_pair ::
  "('v, 'h) vault_lib \<Rightarrow> ('p, 'k, 'g) pair_lib \<Rightarrow> 'h key_vault \<Rightarrow> ('v, 'p, key_vault_error) action" where
  "sr25519_pair V P k =
     bind_action (read_key V k) (\<lambda>seed_bytes. pure_action (unwrap_decoded (from_seed_slice P seed_bytes)))"

definition sr25519_get_public_key ::
  "('v, 'h) vault_lib \<Rightarrow> ('p, 'k, 'g) pair_lib \<Rightarrow> 'h key_vault \<Rightarrow> ('v, 'k, key_vault_error) action" where
  "sr25519_get_public_key V P k = bind_action (sr25519_pair V P k) (\<lambda>pair. pure_action (Ok (pair_public P pair)))"

definition sr25519_sign ::
  "('v, 'h) vault_lib \<Rightarrow> ('p, 'k, 'g) pair_lib \<Rightarrow> 'h key_vault \<Rightarrow> bytes \<Rightarrow> ('v, 'g, key_vault_error) action" where
  "sr25519_sign V P k message = bind_action (sr25519_pair V P k) (\<lambda>pair. pure_action (Ok (pair_sign P pair message)))"

definition sr25519_vault_verify :: "('p, 'k, 'g) pair_lib \<Rightarrow> 'k \<Rightarrow> bytes \<Rightarrow> 'g \<Rightarrow> bool" where
  "sr25519_vault_verify P public message signature = pair_verify P signature message public"

text \<open>\<open>PolkadotSigner\<close>: the account is the vault's public key, read once.\<close>

definition signer_new ::
  "('v, 'h) vault_lib \<Rightarrow> ('p, 'k, 'g) pair_lib \<Rightarrow> 'h key_vault \<Rightarrow> ('v, 'k \<times> 'h key_vault, key_vault_error) action" where
  "signer_new V P k =
     bind_action (\<lambda>v. case sr25519_get_public_key V P k v of (r, v') \<Rightarrow> (unwrap_result r, v'))
       (\<lambda>account_id. pure_action (Ok (account_id, k)))"

definition signer_sign ::
  "('v, 'h) vault_lib \<Rightarrow> ('p, 'k, 'g) pair_lib \<Rightarrow> 'k \<times> 'h key_vault \<Rightarrow> bytes \<Rightarrow> ('v, 'g, key_vault_error) action" where
  "signer_sign V P s payload v =
     (case sr25519_sign V P (snd s) payload v of (r, v') \<Rightarrow> (unwrap_result r, v'))"


section \<open>\<open>IrohKeyVault\<close>\<close>

record ('s, 'k, 'g) iroh_keys =
  sk_to_bytes :: "'s \<Rightarrow> bytes"
  sk_from_bytes :: "bytes \<Rightarrow> 's"
  sk_public :: "'s \<Rightarrow> 'k"
  sk_sign :: "'s \<Rightarrow> bytes \<Rightarrow> 'g"
  pk_verify :: "'k \<Rightarrow> bytes \<Rightarrow> 'g \<Rightarrow> bool"

definition iroh_keys_ok :: "('s, 'k, 'g) iroh_keys \<Rightarrow> bool" where
  "iroh_keys_ok K \<longleftrightarrow>
     (\<forall>s. length (sk_to_bytes K s) = 32 \<and> sk_from_bytes K (sk_to_bytes K s) = s)
     \<and> (\<forall>s m. pk_verify K (sk_public K s) m (sk_sign K s m))"

definition iroh_key_name :: "nat \<Rightarrow> string" where
  "iroh_key_name index = ''iroh_key_idx_'' @ show_nat index"

definition iroh_vault_new :: "'h \<Rightarrow> nat \<Rightarrow> 'h key_vault" where
  "iroh_vault_new vault index =
     \<lparr>kv_vault = vault, key_name = iroh_key_name index, key_password = None, vault_password = None, storing_passwords = False\<rparr>"

definition iroh_vault_new_store_info :: "'h \<Rightarrow> string \<Rightarrow> string \<Rightarrow> nat \<Rightarrow> 'h key_vault" where
  "iroh_vault_new_store_info vault vp kp index =
     \<lparr>kv_vault = vault, key_name = iroh_key_name index, key_password = Some kp, vault_password = Some vp, storing_passwords = True\<rparr>"

text \<open>The secret bytes are read into a buffer of 32 zero bytes.\<close>

definition iroh_get_secret_key ::
  "('v, 'h) vault_lib \<Rightarrow> ('s, 'k, 'g) iroh_keys \<Rightarrow> 'h key_vault \<Rightarrow> ('v, 's, key_vault_error) action" where
  "iroh_get_secret_key V K k =
     bind_action (read_key V k) (\<lambda>secret.
     let secret_bytes = take 32 secret @ replicate (32 - length secret) 0
     in pure_action (Ok (sk_from_bytes K secret_bytes)))"

text \<open>\<open>sk\<close> is the key drawn.\<close>

definition iroh_generate_key ::
  "('v, 'h) vault_lib \<Rightarrow> ('s, 'k, 'g) iroh_keys \<Rightarrow> 'h key_vault \<Rightarrow> 's \<Rightarrow> ('v, 'k, key_vault_error) action" where
  "iroh_generate_key V K k sk =
     bind_action (write_key V k (sk_to_bytes K sk)) (\<lambda>_. pure_action (Ok (sk_public K sk)))"

definition iroh_get_public_key ::
  "('v, 'h) vault_lib \<Rightarrow> ('s, 'k, 'g) iroh_keys \<Rightarrow> 'h key_vault \<Rightarrow> ('v, 'k, key_vault_error) action" where
  "iroh_get_public_key V K k = bind_action (iroh_get_secret_key V K k) (\<lambda>sk. pure_action (Ok (sk_public K sk)))"

definition iroh_sign ::
  "('v, 'h) vault_lib \<Rightarrow> ('s, 'k, 'g) iroh_keys \<Rightarrow> 'h key_vault \<Rightarrow> bytes \<Rightarrow> ('v, 'g, key_vault_error) action" where
  "iroh_sign V K k message = bind_action (iroh_get_secret_key V K k) (\<lambda>sk. pure_action (Ok (sk_sign K sk message)))"

definition iroh_vault_verify :: "('s, 'k, 'g) iroh_keys \<Rightarrow> 'k \<Rightarrow> bytes \<Rightarrow> 'g \<Rightarrow> bool" where
  "iroh_vault_verify K public message signature = pk_verify K public message signature"


section \<open>\<open>SteKeyVault\<close>\<close>

record ('s, 'crs, 'pk, 'ct, 'pd) ste_keys =
  ser_sk :: "'s \<Rightarrow> bytes option"
  des_sk :: "bytes \<Rightarrow> 's option"
  sk_get_pk :: "'s \<Rightarrow> 'crs \<Rightarrow> 'pk"
  sk_partial_decryption :: "'s \<Rightarrow> 'ct \<Rightarrow> 'pd"

definition ste_keys_ok :: "('s, 'crs, 'pk, 'ct, 'pd) ste_keys \<Rightarrow> bool" where
  "ste_keys_ok K \<longleftrightarrow> (\<forall>s bs. ser_sk K s = Some bs \<longrightarrow> des_sk K bs = Some s)"

definition ste_key_name :: "nat \<Rightarrow> string" where
  "ste_key_name index = ''ste_key_idx_'' @ show_nat index"

definition ste_vault_new :: "'h \<Rightarrow> nat \<Rightarrow> 'h key_vault" where
  "ste_vault_new vault index =
     \<lparr>kv_vault = vault, key_name = ste_key_name index, key_password = None, vault_password = None, storing_passwords = False\<rparr>"

definition ste_vault_new_store_info :: "'h \<Rightarrow> string \<Rightarrow> string \<Rightarrow> nat \<Rightarrow> 'h key_vault" where
  "ste_vault_new_store_info vault vp kp index =
     \<lparr>kv_vault = vault, key_name = ste_key_name index, key_password = Some kp, vault_password = Some vp, storing_passwords = True\<rparr>"

text \<open>\<open>sk\<close> is the key drawn for the vault's index.\<close>

definition ste_generate_key ::
  "('v, 'h) vault_lib \<Rightarrow> ('s, 'crs, 'pk, 'ct, 'pd) ste_keys \<Rightarrow> 'h key_vault \<Rightarrow> 's \<Rightarrow> ('v, unit, key_vault_error) action" where
  "ste_generate_key V K k sk =
     bind_action (pure_action (unwrap_decoded (ser_sk K sk))) (\<lambda>sk_bytes. write_key V k sk_bytes)"

definition ste_secret ::
  "('v, 'h) vault_lib \<Rightarrow> ('s, 'crs, 'pk, 'ct, 'pd) ste_keys \<Rightarrow> 'h key_vault \<Rightarrow> ('v, 's, key_vault_error) action" where
  "ste_secret V K k = bind_action (read_key V k) (\<lambda>sk_bytes. pure_action (unwrap_decoded (des_sk K sk_bytes)))"

definition ste_get_pk ::
  "('v, 'h) vault_lib \<Rightarrow> ('s, 'crs, 'pk, 'ct, 'pd) ste_keys \<Rightarrow> 'h key_vault \<Rightarrow> 'crs \<Rightarrow> ('v, 'pk, key_vault_error) action" where
  "ste_get_pk V K k c = bind_action (ste_secret V K k) (\<lambda>sk. pure_action (Ok (sk_get_pk K sk c)))"

definition ste_partial_decryption ::
  "('v, 'h) vault_lib \<Rightarrow> ('s, 'crs, 'pk, 'ct, 'pd) ste_keys \<Rightarrow> 'h key_vault \<Rightarrow> 'ct \<Rightarrow> ('v, 'pd, key_vault_error) action" where
  "ste_partial_decryption V K k ct =
     bind_action (ste_secret V K k) (\<lambda>sk. pure_action (Ok (sk_partial_decryption K sk ct)))"


section \<open>\<open>create_vaults\<close>\<close>

record vault_config =
  vc_vault_dir :: string
  vc_substrate_name :: string
  vc_vault_pswd :: "string option"
  vc_iroh_key_pswd :: "string option"
  vc_ste_key_pswd :: "string option"
  vc_substrate_pswd :: "string option"

definition vault_config_default :: vault_config where
  "vault_config_default = \<lparr>vc_vault_dir = ''tmp/keystore'', vc_substrate_name = ''sr25519'', vc_vault_pswd = None,
     vc_iroh_key_pswd = None, vc_ste_key_pswd = None, vc_substrate_pswd = None\<rparr>"

text \<open>
  \<open>vault_open dir password\<close> is \<open>Vault::open_or_create\<close>: the vault of a directory with the state then. The
  iroh key vault gets a clone of it, the threshold key vault the vault itself.
\<close>

definition create_vaults ::
  "(string \<Rightarrow> string \<Rightarrow> ('h \<times> 'v, string) outcome) \<Rightarrow> ('v, 'h) vault_lib \<Rightarrow> vault_config \<Rightarrow> nat
   \<Rightarrow> ('v \<times> 'h key_vault \<times> 'h key_vault, key_vault_error) outcome" where
  "create_vaults vault_open V cfg index =
     (case vc_vault_pswd cfg of
        Some vp \<Rightarrow>
          and_then (unwrap_result (vault_open (vc_vault_dir cfg) vp)) (\<lambda>(vault, v).
          and_then (unwrap_option (vc_iroh_key_pswd cfg)) (\<lambda>iroh_password.
          case vault_clone V vault v of (clone, v') \<Rightarrow>
          let iroh_vault = iroh_vault_new_store_info clone vp iroh_password index
          in and_then (unwrap_option (vc_ste_key_pswd cfg)) (\<lambda>ste_password.
             let ste_vault = ste_vault_new_store_info vault vp ste_password index
             in Ok (v', iroh_vault, ste_vault))))
      | None \<Rightarrow>
          and_then (unwrap_result (vault_open ''tmp/keystore'' ''vault_password'')) (\<lambda>(vault, v).
          case vault_clone V vault v of (clone, v') \<Rightarrow>
          let iroh_vault = iroh_vault_new clone index;
              ste_vault = ste_vault_new vault index
          in Ok (v', iroh_vault, ste_vault)))"

text \<open>The start of \<open>Node::build\<close>: both keys are drawn anew and must be stored.\<close>

definition build_keys ::
  "(string \<Rightarrow> string \<Rightarrow> ('h \<times> 'v, string) outcome) \<Rightarrow> ('v, 'h) vault_lib \<Rightarrow> ('a, 'k, 'g) iroh_keys
   \<Rightarrow> ('s, 'crs, 'pk, 'ct, 'pd) ste_keys \<Rightarrow> vault_config \<Rightarrow> nat \<Rightarrow> 'a \<Rightarrow> 's
   \<Rightarrow> ('v \<times> 'h key_vault \<times> 'h key_vault, key_vault_error) outcome" where
  "build_keys vault_open V K T cfg index iroh_sk ste_sk =
     and_then (unwrap_result (create_vaults vault_open V cfg index)) (\<lambda>(v, iroh_vault, ste_vault).
       case bind_action (iroh_generate_key V K iroh_vault iroh_sk) (\<lambda>_. ste_generate_key V T ste_vault ste_sk) v of
         (r, v') \<Rightarrow> and_then (unwrap_result r) (\<lambda>_. Ok (v', iroh_vault, ste_vault)))"


section \<open>Keys that were stored\<close>

lemma passwords_not_stored:
  assumes "\<not> storing_passwords k"
  shows "passwords k = Panic Unwrap_Err"
  using assms by (simp add: passwords_def get_secure_password_def)

lemma passwords_sr25519 [simp]: "passwords (sr25519_new_store_info vault vp name kp) = Ok (vp, kp)"
  by (simp add: passwords_def sr25519_new_store_info_def)

lemma passwords_iroh [simp]: "passwords (iroh_vault_new_store_info vault vp kp i) = Ok (vp, kp)"
  by (simp add: passwords_def iroh_vault_new_store_info_def)

lemma passwords_ste [simp]: "passwords (ste_vault_new_store_info vault vp kp i) = Ok (vp, kp)"
  by (simp add: passwords_def ste_vault_new_store_info_def)

lemma key_ops_not_stored:
  assumes "\<not> storing_passwords k"
  shows "read_key V k v = (Panic Unwrap_Err, v)" and "write_key V k b v = (Panic Unwrap_Err, v)"
  using assms by (simp_all add: read_key_def write_key_def passwords_not_stored)

lemma iroh_ste_names: "\<not> same_name (ste_vault_new_store_info h a b i) (iroh_vault_new_store_info h' c d j)"
  by (simp add: same_name_def ste_vault_new_store_info_def iroh_vault_new_store_info_def
      ste_key_name_def iroh_key_name_def)

lemma sr25519_pair_held:
  assumes "vault_ok V" and "key_held V v k seed" and "from_seed_slice P seed = Some pair"
  obtains v' where "sr25519_pair V P k v = (Ok pair, v')" and "key_held V v' k seed"
  by (rule keys.load_holding [OF assms(1,2)]) (use assms(3) that in \<open>simp add: sr25519_pair_def\<close>)

lemma sr25519_generated:
  assumes "pair_ok P" and "vault_ok V"
    and "sr25519_generate_key_print_mnemonic V P k mnemonic v = (Ok pk, v')"
  obtains pair seed where "key_held V v' k seed" and "from_seed_slice P seed = Some pair"
    and "pair_public P pair = pk"
proof -
  obtain pair seed v0 where p: "from_phrase P mnemonic = Some (pair, seed)" "pair_public P pair = pk"
    and w: "write_key V k seed v0 = (Ok (), v')"
    using assms(3)
    by (auto simp: sr25519_generate_key_print_mnemonic_def Let_def outcome_simps split: if_splits)
  have "key_held V v' k seed"
    using keys.store_holds [OF assms(2) w] .
  moreover have "from_seed_slice P seed = Some pair"
    using assms(1) p(1) unfolding pair_ok_def by blast
  ultimately show ?thesis
    using p(2) that by blast
qed

text \<open>
  The account of a stored sr25519 key. When key generation with the stored passwords returns a
  public key, the vault gives back that public key, whatever it signs verifies under it, and a
  signer made from the vault has it as its account and signs transactions that verify under it.
\<close>

lemma generated_key_signs:
  assumes "vault_ok V" and "pair_ok P"
    and "sr25519_generate_key_print_mnemonic V P k mnemonic v = (Ok pk, v1)"
  shows "(\<exists>v2. sr25519_get_public_key V P k v1 = (Ok pk, v2))
    \<and> (\<exists>g v2. sr25519_sign V P k msg v1 = (Ok g, v2) \<and> sr25519_vault_verify P pk msg g)
    \<and> (\<exists>v2 g v3. signer_new V P k v1 = (Ok (pk, k), v2)
           \<and> signer_sign V P (pk, k) msg v2 = (Ok g, v3) \<and> sr25519_vault_verify P pk msg g)"
proof -
  obtain pair seed where h: "key_held V v1 k seed" and s: "from_seed_slice P seed = Some pair"
    and pk: "pair_public P pair = pk"
    using sr25519_generated [OF assms(2,1,3)] .
  have ver: "pair_verify P (pair_sign P pair msg) msg pk"
    using assms(2) pk unfolding pair_ok_def by blast
  obtain v2 where p2: "sr25519_pair V P k v1 = (Ok pair, v2)" and h2: "key_held V v2 k seed"
    using sr25519_pair_held [OF assms(1) h s] .
  obtain v3 where p3: "sr25519_pair V P k v2 = (Ok pair, v3)"
    using sr25519_pair_held [OF assms(1) h2 s] .
  note defs = sr25519_get_public_key_def sr25519_sign_def sr25519_vault_verify_def signer_new_def
    signer_sign_def pk ver
  show ?thesis
    using p2 p3 by (simp add: defs bind_action_def)
qed

text \<open>
  A vault for the witnesses: a list of names with the passwords and the bytes stored under them.
\<close>

type_synonym demo_vault_state = "(string \<times> string \<times> string \<times> bytes) list"

definition demo_vault :: "(demo_vault_state, unit) vault_lib" where
  "demo_vault = \<lparr>
     vault_clone = Pair,
     store_bytes = (\<lambda>h n b vp fp v. (Ok (), (n, vp, fp, b) # v)),
     vault_get = (\<lambda>h n vp fp v.
        (case map_of v n of
           None \<Rightarrow> Err ''not found''
         | Some (vp', fp', b) \<Rightarrow> if vp = vp' \<and> fp = fp' then Ok b else Err ''wrong password'', v)),
     vault_list = (\<lambda>v h. map fst v),
     vault_contains = (\<lambda>v h n. n \<in> set (map fst v))\<rparr>"

lemma demo_vault_ok: "vault_ok demo_vault"
  by (auto simp: vault_ok_def vault_holds_def demo_vault_def split: option.splits prod.splits)

text \<open>Pairs whose seed is the phrase's bytes; a signature repeats the key and the message.\<close>

definition demo_pairs :: "(bytes, bytes, bytes \<times> bytes) pair_lib" where
  "demo_pairs = \<lparr>
     from_phrase = (\<lambda>m. Some (as_bytes m, as_bytes m)),
     from_seed_slice = Some,
     pair_public = (\<lambda>p. p),
     pair_sign = (\<lambda>p m. (p, m)),
     pair_verify = (\<lambda>g m k. g = (k, m)),
     to_ss58check = map char_of_byte,
     from_ss58check = (\<lambda>s. Some (as_bytes s))\<rparr>"

lemma demo_pairs_ok: "pair_ok demo_pairs"
  by (simp add: pair_ok_def demo_pairs_def)

definition demo_key :: "unit key_vault" where
  "demo_key = sr25519_new_store_info () ''v'' ''sr25519'' ''k''"

lemma demo_vault_write:
  "write_key demo_vault demo_key b v = (Ok (), (''sr25519'', ''v'', ''k'', b) # v)"
  by (simp add: write_key_def demo_key_def unwrap_in_def demo_vault_def)
    (simp add: sr25519_new_store_info_def)

lemma demo_vault_generate:
  "sr25519_generate_key_print_mnemonic demo_vault demo_pairs demo_key m v
    = (Ok (as_bytes m), (''sr25519'', ''v'', ''k'', as_bytes m) # v)"
proof -
  have "storing_passwords demo_key"
    by (simp add: demo_key_def sr25519_new_store_info_def)
  moreover have "from_phrase demo_pairs m = Some (as_bytes m, as_bytes m)" "pair_public demo_pairs p = p" for p
    by (simp_all only: demo_pairs_def pair_lib.simps)
  ultimately show ?thesis
    by (simp add: sr25519_generate_key_print_mnemonic_def demo_vault_write)
qed

lemma generated_key_signs_witness:
  "\<exists>pk v1. sr25519_generate_key_print_mnemonic demo_vault demo_pairs demo_key ''bottom'' [] = (Ok pk, v1)
    \<and> (\<exists>g v2. sr25519_sign demo_vault demo_pairs demo_key [7] v1 = (Ok g, v2)
         \<and> sr25519_vault_verify demo_pairs pk [7] g)"
  using generated_key_signs [OF demo_vault_ok demo_pairs_ok demo_vault_generate [of "''bottom''" "[]"], of "[7]"]
    demo_vault_generate [of "''bottom''" "[]"]
  by blast


section \<open>Starting a node\<close>

lemma create_vaults_stored:
  assumes "vc_vault_pswd cfg \<noteq> None"
    and "create_vaults vault_open V cfg index = Ok (v, iroh_vault, ste_vault)"
  obtains h h' vp ip sp where "iroh_vault = iroh_vault_new_store_info h vp ip index"
    and "ste_vault = ste_vault_new_store_info h' vp sp index"
  using assms by (auto simp: create_vaults_def outcome_simps Let_def case_prod_beta)

lemma build_keys_OkE:
  assumes "build_keys vault_open V K T cfg index isk tsk = Ok (v, iroh_vault, ste_vault)"
  obtains v0 where "create_vaults vault_open V cfg index = Ok (v0, iroh_vault, ste_vault)"
    and "bind_action (iroh_generate_key V K iroh_vault isk) (\<lambda>_. ste_generate_key V T ste_vault tsk) v0
      = (Ok (), v)"
proof (cases "create_vaults vault_open V cfg index")
  case (Ok w)
  obtain v0 iv sv where w: "w = (v0, iv, sv)" by (cases w)
  obtain r v' where g: "bind_action (iroh_generate_key V K iv isk) (\<lambda>_. ste_generate_key V T sv tsk) v0 = (r, v')"
    by fastforce
  from assms have "and_then (unwrap_result r) (\<lambda>_. Ok (v', iv, sv))
      = (Ok (v, iroh_vault, ste_vault) :: (_, key_vault_error) outcome)"
    by (simp add: build_keys_def Ok w g)
  then have "r = Ok ()" "v' = v" "iv = iroh_vault" "sv = ste_vault"
    by (simp_all add: outcome_simps)
  with Ok w g that show ?thesis by simp
qed (use assms in \<open>simp_all add: build_keys_def\<close>)

text \<open>What the vault of a node holds when its keys were made.\<close>

lemma build_keys_held:
  assumes "vault_ok V" and "ste_keys_ok T" and "vc_vault_pswd cfg \<noteq> None"
    and "build_keys vault_open V K T cfg index isk tsk = Ok (v, iroh_vault, ste_vault)"
  obtains b where "key_held V v iroh_vault (sk_to_bytes K isk)" and "key_held V v ste_vault b"
    and "des_sk T b = Some tsk"
proof -
  obtain v0 where c: "create_vaults vault_open V cfg index = Ok (v0, iroh_vault, ste_vault)"
    and g: "bind_action (iroh_generate_key V K iroh_vault isk) (\<lambda>_. ste_generate_key V T ste_vault tsk) v0
      = (Ok (), v)"
    using assms(4) by (rule build_keys_OkE)
  obtain h h' vp ip sp where iv: "iroh_vault = iroh_vault_new_store_info h vp ip index"
    and sv: "ste_vault = ste_vault_new_store_info h' vp sp index"
    using create_vaults_stored [OF assms(3) c] .
  obtain b v' where b: "ser_sk T tsk = Some b"
    and w1: "write_key V iroh_vault (sk_to_bytes K isk) v0 = (Ok (), v')"
    and w2: "write_key V ste_vault b v' = (Ok (), v)"
    using g by (auto simp: outcome_simps iroh_generate_key_def ste_generate_key_def)
  have "\<not> same_name ste_vault iroh_vault" unfolding iv sv by (rule iroh_ste_names)
  note held = keys.two_secrets [OF assms(1) w1 w2 this]
  have "des_sk T b = Some tsk"
    using assms(2) b unfolding ste_keys_ok_def by blast
  with held that show ?thesis by blast
qed

lemma build_keys_pswd:
  assumes "build_keys vault_open V K T cfg index isk tsk = Ok w"
  shows "vc_vault_pswd cfg \<noteq> None"
proof
  assume n: "vc_vault_pswd cfg = None"
  obtain v iv sv where w: "w = (v, iv, sv)" by (cases w)
  obtain v0 where c: "create_vaults vault_open V cfg index = Ok (v0, iv, sv)"
    and g: "bind_action (iroh_generate_key V K iv isk) (\<lambda>_. ste_generate_key V T sv tsk) v0 = (Ok (), v)"
    using assms unfolding w by (rule build_keys_OkE)
  from c n obtain h where "iv = iroh_vault_new h index"
    by (auto simp: create_vaults_def outcome_simps Let_def case_prod_beta)
  then have "\<not> storing_passwords iv" by (simp add: iroh_vault_new_def)
  with g show False by (simp add: iroh_generate_key_def bind_action_def key_ops_not_stored)
qed

text \<open>Reading the iroh secret of a key that is held.\<close>

lemma iroh_secret_held:
  assumes "vault_ok V" and "iroh_keys_ok K" and "key_held V v k (sk_to_bytes K sk)"
  obtains v' where "iroh_get_secret_key V K k v = (Ok sk, v')"
    and "\<forall>k2 b. key_held V v k2 b \<longrightarrow> key_held V v' k2 b"
proof -
  obtain v' where r: "read_key V k v = (Ok (sk_to_bytes K sk), v')"
    using keys.load_holding [OF assms(1,3)] .
  have "length (sk_to_bytes K sk) = 32" "sk_from_bytes K (sk_to_bytes K sk) = sk"
    using assms(2) unfolding iroh_keys_ok_def by blast+
  then have "iroh_get_secret_key V K k v = (Ok sk, v')"
    by (simp add: iroh_get_secret_key_def r)
  with that keys.load_keeps [OF assms(1) r] show ?thesis by blast
qed

lemma ste_secret_held:
  assumes "vault_ok V" and "key_held V v k b" and "des_sk T b = Some sk"
  obtains v' where "ste_secret V T k v = (Ok sk, v')"
    and "\<forall>k2 b. key_held V v k2 b \<longrightarrow> key_held V v' k2 b"
proof -
  obtain v' where r: "read_key V k v = (Ok b, v')"
    using keys.load_holding [OF assms(1,2)] .
  then have "ste_secret V T k v = (Ok sk, v')"
    using assms(3) by (simp add: ste_secret_def)
  with that keys.load_keeps [OF assms(1) r] show ?thesis by blast
qed

text \<open>
  C16. The keys of a node that was given its passwords. When building the node with a vault password
  succeeds, the vault it leaves holds both drawn secrets, under different names: the iroh identity
  and the threshold public key read from it are those of the drawn keys, partial decryptions are
  made with the drawn threshold secret, and reading one key does not disturb the other.
\<close>

theorem built_node_uses_its_keys:
  assumes "vault_ok V" and "iroh_keys_ok K" and "ste_keys_ok T"
    and "vc_vault_pswd cfg \<noteq> None"
    and "build_keys vault_open V K T cfg index isk tsk = Ok (v, iroh_vault, ste_vault)"
  shows "\<exists>v1 v2 v3. iroh_get_public_key V K iroh_vault v = (Ok (sk_public K isk), v1)
    \<and> ste_get_pk V T ste_vault common v1 = (Ok (sk_get_pk T tsk common), v2)
    \<and> ste_partial_decryption V T ste_vault ct v2 = (Ok (sk_partial_decryption T tsk ct), v3)"
proof -
  obtain b where i: "key_held V v iroh_vault (sk_to_bytes K isk)" and s: "key_held V v ste_vault b"
    and b: "des_sk T b = Some tsk"
    using build_keys_held [OF assms(1,3-5)] .
  obtain v1 where r1: "iroh_get_secret_key V K iroh_vault v = (Ok isk, v1)" and h1: "key_held V v1 ste_vault b"
    using iroh_secret_held [OF assms(1,2) i] s by blast
  obtain v2 where r2: "ste_secret V T ste_vault v1 = (Ok tsk, v2)" and h2: "key_held V v2 ste_vault b"
    using ste_secret_held [OF assms(1) h1 b] h1 by blast
  obtain v3 where "ste_secret V T ste_vault v2 = (Ok tsk, v3)"
    using ste_secret_held [OF assms(1) h2 b] by blast
  with r1 r2 show ?thesis
    by (simp add: iroh_get_public_key_def ste_get_pk_def ste_partial_decryption_def)
qed

text \<open>Keys that are one byte, for the witness.\<close>

definition demo_iroh_keys :: "(byte, byte, byte \<times> bytes) iroh_keys" where
  "demo_iroh_keys = \<lparr>sk_to_bytes = replicate 32, sk_from_bytes = hd,
     sk_public = (\<lambda>s. s), sk_sign = Pair, pk_verify = (\<lambda>k m g. g = (k, m))\<rparr>"

definition demo_ste_keys :: "(byte, byte, byte, byte, byte) ste_keys" where
  "demo_ste_keys = \<lparr>ser_sk = (\<lambda>s. Some [s]), des_sk = (\<lambda>b. case b of [s] \<Rightarrow> Some s | _ \<Rightarrow> None),
     sk_get_pk = (+), sk_partial_decryption = (*)\<rparr>"

lemma demo_iroh_keys_ok: "iroh_keys_ok demo_iroh_keys"
  by (simp add: iroh_keys_ok_def demo_iroh_keys_def)

lemma demo_ste_keys_ok: "ste_keys_ok demo_ste_keys"
  by (simp add: ste_keys_ok_def demo_ste_keys_def)

definition demo_vault_config :: vault_config where
  "demo_vault_config = vault_config_default
     \<lparr>vc_vault_pswd := Some ''v'', vc_iroh_key_pswd := Some ''i'', vc_ste_key_pswd := Some ''s''\<rparr>"

theorem built_node_uses_its_keys_witness:
  "\<exists>v iroh_vault ste_vault v1.
     build_keys (\<lambda>_ _. Ok ((), [])) demo_vault demo_iroh_keys demo_ste_keys demo_vault_config 3 5 9
       = Ok (v, iroh_vault, ste_vault)
     \<and> iroh_get_public_key demo_vault demo_iroh_keys iroh_vault v = (Ok 5, v1)"
proof -
  have pw: "vc_vault_pswd demo_vault_config \<noteq> None"
    by (simp add: demo_vault_config_def)
  obtain v iv sv where run:
    "build_keys (\<lambda>_ _. Ok ((), [])) demo_vault demo_iroh_keys demo_ste_keys demo_vault_config 3 5 9
       = Ok (v, iv, sv)"
    by (simp add: build_keys_def create_vaults_def demo_vault_config_def iroh_generate_key_def
        ste_generate_key_def write_key_def unwrap_in_def demo_vault_def demo_ste_keys_def bind_action_def Let_def)
  have "sk_public demo_iroh_keys 5 = 5"
    by (simp add: demo_iroh_keys_def)
  with built_node_uses_its_keys [OF demo_vault_ok demo_iroh_keys_ok demo_ste_keys_ok pw run] run
  show ?thesis by metis
qed

text \<open>
  \<open>generate_key\<close> of the sr25519 vault never succeeds, whatever passwords are stored.
\<close>

lemma sr25519_generate_key_panics:
  "sr25519_generate_key V P k mnemonic v =
     (case from_phrase P mnemonic of
        None \<Rightarrow> Panic (Expect ''Failed to generate keypair from mnemonic'')
      | Some _ \<Rightarrow> Panic Unwrap_Err, v)"
  by (simp add: sr25519_generate_key_def get_secure_password_def bind_action_def split: option.splits)

lemmas key_ops = iroh_generate_key_def iroh_get_secret_key_def iroh_get_public_key_def iroh_sign_def ste_generate_key_def
  ste_secret_def ste_get_pk_def ste_partial_decryption_def sr25519_pair_def sr25519_get_public_key_def sr25519_sign_def
  sr25519_generate_key_print_mnemonic_def

text \<open>
  C27. A node without stored passwords does not start, because no operation that needs a key works. When
  the configuration has no vault password, opening the vaults succeeds, but building the node panics
  and leaves nothing; and with a key vault of any of the three kinds that was made without stored
  passwords, generating a key, reading it, and using it, for a public key, a signature or a partial
  decryption, panics and leaves the vaults as they were. (A threshold key is serialized first, the
  pair of a phrase made first by one generator: if these fail, that is the panic.) Listing the keys needs
  no password and returns.
\<close>

theorem build_needs_stored_passwords:
  assumes "vc_vault_pswd cfg = None" and "vault_open ''tmp/keystore'' ''vault_password'' = Ok (h, v)"
  shows "\<exists>hc v'. vault_clone V h v = (hc, v')
    \<and> create_vaults vault_open V cfg index = Ok (v', iroh_vault_new hc index, ste_vault_new h index)
    \<and> build_keys vault_open V K T cfg index isk tsk = Panic Unwrap_Err
    \<and> (\<forall>u. iroh_generate_key V K (iroh_vault_new hc index) isk u = (Panic Unwrap_Err, u)
         \<and> iroh_get_secret_key V K (iroh_vault_new hc index) u = (Panic Unwrap_Err, u)
         \<and> iroh_get_public_key V K (iroh_vault_new hc index) u = (Panic Unwrap_Err, u)
         \<and> iroh_sign V K (iroh_vault_new hc index) msg u = (Panic Unwrap_Err, u)
         \<and> ste_generate_key V T (ste_vault_new h index) tsk u = (Panic Unwrap_Err, u)
         \<and> ste_get_pk V T (ste_vault_new h index) common u = (Panic Unwrap_Err, u)
         \<and> ste_partial_decryption V T (ste_vault_new h index) ct u = (Panic Unwrap_Err, u)
         \<and> sr25519_generate_key_print_mnemonic V P (sr25519_new h name) mnemonic u = (Panic Unwrap_Err, u)
         \<and> (\<exists>p. sr25519_generate_key V P (sr25519_new h name) mnemonic u = (Panic p, u))
         \<and> sr25519_get_public_key V P (sr25519_new h name) u = (Panic Unwrap_Err, u)
         \<and> sr25519_sign V P (sr25519_new h name) msg u = (Panic Unwrap_Err, u)
         \<and> list_keys V (sr25519_new h name) u = Ok (vault_list V u h))"
proof -
  obtain hc v' where clone: "vault_clone V h v = (hc, v')" by fastforce
  have n: "\<not> storing_passwords (iroh_vault_new hc index)" "\<not> storing_passwords (ste_vault_new h index)"
    "\<not> storing_passwords (sr25519_new h name)"
    by (simp_all add: iroh_vault_new_def ste_vault_new_def sr25519_new_def)
  note panics = key_ops_not_stored [OF n(1)] key_ops_not_stored [OF n(2)] key_ops_not_stored [OF n(3)]
  have c: "create_vaults vault_open V cfg index = Ok (v', iroh_vault_new hc index, ste_vault_new h index)"
    by (simp add: create_vaults_def assms clone)
  have "build_keys vault_open V K T cfg index isk tsk = Panic Unwrap_Err"
    using c by (simp add: build_keys_def key_ops panics)
  moreover have "ser_sk T tsk = None \<or> (\<exists>b. ser_sk T tsk = Some b)" by (cases "ser_sk T tsk") auto
  then have "ste_generate_key V T (ste_vault_new h index) tsk u = (Panic Unwrap_Err, u)" for u
    by (auto simp: ste_generate_key_def bind_action_def panics)
  moreover have "\<exists>p. sr25519_generate_key V P (sr25519_new h name) mnemonic u = (Panic p, u)" for u
    by (simp add: sr25519_generate_key_panics split: option.split)
  moreover have "list_keys V (sr25519_new h name) u = Ok (vault_list V u h)" for u
    by (simp add: list_keys_def sr25519_new_def)
  ultimately show ?thesis
    using clone c by (simp add: key_ops panics n(3) passwords_not_stored Let_def)
qed

theorem build_needs_stored_passwords_witness:
  "build_keys (\<lambda>_ _. Ok ((), [])) demo_vault demo_iroh_keys demo_ste_keys vault_config_default 0 1 2
     = (Panic Unwrap_Err :: (_, key_vault_error) outcome)"
proof -
  have "vc_vault_pswd vault_config_default = None"
    by (simp add: vault_config_default_def)
  then show ?thesis
    using build_needs_stored_passwords
      [of vault_config_default "\<lambda>_ _. Ok ((), [])" "()" "[]" demo_vault 0 demo_iroh_keys demo_ste_keys 1 2] by blast
qed

end
