(* ===== verification/Roots_Cli.thy ===== *)
theory Roots_Cli
  imports Key_Vault
begin

text \<open>
  The key tool, \<open>roots/src/main.rs\<close>: it opens the vault of a directory, and generates, shows or uses
  the key of the chosen kind. The state is that of the vaults, in memory and on disk. What the tool
  prints is its result; the command line arguments are parsed by \<open>clap\<close>.
\<close>

section \<open>Commands\<close>

datatype store_type = Polkadot | Fangorn

record key_args =
  ka_keystore_dir :: string
  ka_key_name :: string
  ka_vault_pswd :: string
  ka_key_password :: string
  ka_store_type :: store_type
  ka_index :: "nat option"

datatype roots_command =
    Keygen key_args bool
  | Inspect key_args
  | Sign key_args u32
  | Verify key_args string u32

datatype ('k, 'ik) roots_output =
    New_Polkadot_Key 'k
  | New_Fangorn_Key 'ik
  | Polkadot_Key 'k
  | Fangorn_Key 'ik
  | Signature_Hex string
  | Was_Verified bool
  | No_Output


section \<open>Vaults on disk and the bytes of signatures\<close>

text \<open>
  \<open>Vault::open_or_create\<close> and \<open>Vault::open\<close>, with a directory and a password, and whether a directory
  has a vault.
\<close>

record ('v, 'h) vault_files =
  vf_open_or_create :: "string \<Rightarrow> string \<Rightarrow> ('v, 'h, string) action"
  vf_open :: "string \<Rightarrow> string \<Rightarrow> ('v, 'h, string) action"
  vf_exists :: "'v \<Rightarrow> string \<Rightarrow> bool"

record ('p, 'k, 'g, 's, 'ik, 'ig, 'v, 'h) roots_libs =
  rl_files :: "('v, 'h) vault_files"
  rl_vault :: "('v, 'h) vault_lib"
  rl_pairs :: "('p, 'k, 'g) pair_lib"
  rl_iroh :: "('s, 'ik, 'ig) iroh_keys"
  rl_to_hex :: "bytes \<Rightarrow> string"
  rl_from_hex :: "string \<Rightarrow> bytes option"
  rl_sig_bytes :: "'g \<Rightarrow> bytes"
  rl_sig_from_slice :: "bytes \<Rightarrow> 'g option"
  rl_iroh_sig_bytes :: "'ig \<Rightarrow> bytes"
  rl_iroh_sig_from_bytes :: "bytes \<Rightarrow> 'ig"

definition roots_ok :: "('p, 'k, 'g, 's, 'ik, 'ig, 'v, 'h) roots_libs \<Rightarrow> bool" where
  "roots_ok R \<longleftrightarrow> vault_ok (rl_vault R) \<and> pair_ok (rl_pairs R) \<and> iroh_keys_ok (rl_iroh R)
     \<and> (\<forall>bs. rl_from_hex R (rl_to_hex R bs) = Some bs)
     \<and> (\<forall>g. rl_sig_from_slice R (rl_sig_bytes R g) = Some g)
     \<and> (\<forall>g. length (rl_iroh_sig_bytes R g) = 64 \<and> rl_iroh_sig_from_bytes R (rl_iroh_sig_bytes R g) = g)"


section \<open>The tool\<close>

text \<open>
  The keys drawn, a phrase for the Polkadot kind and a secret for the Fangorn kind, are arguments.
\<close>

definition polkadot_vault :: "'h \<Rightarrow> key_args \<Rightarrow> 'h key_vault" where
  "polkadot_vault vault a = sr25519_new_store_info vault (ka_vault_pswd a) (ka_key_name a) (ka_key_password a)"

definition fangorn_vault :: "'h \<Rightarrow> key_args \<Rightarrow> 'h key_vault" where
  "fangorn_vault vault a =
     iroh_vault_new_store_info vault (ka_vault_pswd a) (ka_key_password a)
       (case ka_index a of None \<Rightarrow> 0 | Some i \<Rightarrow> i)"

definition roots_keygen ::
  "('p, 'k, 'g, 's, 'ik, 'ig, 'v, 'h) roots_libs \<Rightarrow> string \<Rightarrow> 's \<Rightarrow> 'h \<Rightarrow> key_args \<Rightarrow> bool
   \<Rightarrow> ('v, ('k, 'ik) roots_output, key_vault_error) action" where
  "roots_keygen R mnemonic secret vault a print_mnemonic =
     (case ka_store_type a of
        Polkadot \<Rightarrow>
          bind_action
            (if print_mnemonic
             then sr25519_generate_key_print_mnemonic (rl_vault R) (rl_pairs R) (polkadot_vault vault a) mnemonic
             else sr25519_generate_key (rl_vault R) (rl_pairs R) (polkadot_vault vault a) mnemonic)
            (\<lambda>pk. pure_action (Ok (New_Polkadot_Key pk)))
      | Fangorn \<Rightarrow>
          bind_action (iroh_generate_key (rl_vault R) (rl_iroh R) (fangorn_vault vault a) secret)
            (\<lambda>pk. pure_action (Ok (New_Fangorn_Key pk))))"

definition roots_inspect ::
  "('p, 'k, 'g, 's, 'ik, 'ig, 'v, 'h) roots_libs \<Rightarrow> 'h \<Rightarrow> key_args \<Rightarrow> ('v, ('k, 'ik) roots_output, key_vault_error) action" where
  "roots_inspect R vault a =
     (case ka_store_type a of
        Polkadot \<Rightarrow>
          bind_action (sr25519_get_public_key (rl_vault R) (rl_pairs R) (polkadot_vault vault a))
            (\<lambda>pk. pure_action (Ok (Polkadot_Key pk)))
      | Fangorn \<Rightarrow>
          bind_action (iroh_get_public_key (rl_vault R) (rl_iroh R) (fangorn_vault vault a))
            (\<lambda>pk. pure_action (Ok (Fangorn_Key pk))))"

definition roots_sign ::
  "('p, 'k, 'g, 's, 'ik, 'ig, 'v, 'h) roots_libs \<Rightarrow> 'h \<Rightarrow> key_args \<Rightarrow> u32
   \<Rightarrow> ('v, ('k, 'ik) roots_output, key_vault_error) action" where
  "roots_sign R vault a nonce =
     (let message_bytes = u32_to_le_bytes nonce
      in case ka_store_type a of
           Polkadot \<Rightarrow>
             bind_action (sr25519_sign (rl_vault R) (rl_pairs R) (polkadot_vault vault a) message_bytes)
               (\<lambda>g. pure_action (Ok (Signature_Hex (rl_to_hex R (rl_sig_bytes R g)))))
         | Fangorn \<Rightarrow>
             bind_action (iroh_sign (rl_vault R) (rl_iroh R) (fangorn_vault vault a) message_bytes)
               (\<lambda>g. pure_action (Ok (Signature_Hex (rl_to_hex R (rl_iroh_sig_bytes R g))))))"

definition roots_verify ::
  "('p, 'k, 'g, 's, 'ik, 'ig, 'v, 'h) roots_libs \<Rightarrow> 'h \<Rightarrow> key_args \<Rightarrow> string \<Rightarrow> u32
   \<Rightarrow> ('v, ('k, 'ik) roots_output, key_vault_error) action" where
  "roots_verify R vault a signature_hex nonce =
     (let message_bytes = u32_to_le_bytes nonce
      in case ka_store_type a of
           Polkadot \<Rightarrow>
             bind_action (sr25519_get_public_key (rl_vault R) (rl_pairs R) (polkadot_vault vault a)) (\<lambda>public_key.
             bind_action (pure_action (unwrap_decoded (rl_from_hex R signature_hex))) (\<lambda>sig_vec.
             bind_action (pure_action (unwrap_decoded (rl_sig_from_slice R sig_vec))) (\<lambda>sig.
               pure_action (Ok (Was_Verified (sr25519_vault_verify (rl_pairs R) public_key message_bytes sig))))))
         | Fangorn \<Rightarrow>
             bind_action (iroh_get_public_key (rl_vault R) (rl_iroh R) (fangorn_vault vault a)) (\<lambda>public_key.
             bind_action (pure_action (unwrap_decoded (rl_from_hex R signature_hex))) (\<lambda>sig_vec.
             bind_action (pure_action (if length sig_vec = 64 then Ok sig_vec else Panic Unwrap_Err)) (\<lambda>sig_bytes.
               pure_action (Ok (Was_Verified
                 (iroh_vault_verify (rl_iroh R) public_key message_bytes (rl_iroh_sig_from_bytes R sig_bytes))))))))"

text \<open>Every error of a key operation is unwrapped by the tool.\<close>

definition unwrap_key_error :: "('s, 'a, key_vault_error) action \<Rightarrow> ('s, 'a, key_vault_error) action" where
  "unwrap_key_error m s = (case m s of (r, t) \<Rightarrow> (unwrap_result r, t))"

definition roots_main ::
  "('p, 'k, 'g, 's, 'ik, 'ig, 'v, 'h) roots_libs \<Rightarrow> string \<Rightarrow> 's \<Rightarrow> roots_command option
   \<Rightarrow> ('v, ('k, 'ik) roots_output, key_vault_error) action" where
  "roots_main R mnemonic secret command =
     (case command of
        Some (Keygen a print_mnemonic) \<Rightarrow>
          bind_action (unwrap_in (vf_open_or_create (rl_files R) (ka_keystore_dir a) (ka_vault_pswd a))) (\<lambda>vault.
            unwrap_key_error (roots_keygen R mnemonic secret vault a print_mnemonic))
      | Some (Inspect a) \<Rightarrow>
          bind_action (unwrap_in (vf_open (rl_files R) (ka_keystore_dir a) (ka_vault_pswd a))) (\<lambda>vault.
            unwrap_key_error (roots_inspect R vault a))
      | Some (Sign a nonce) \<Rightarrow>
          bind_action (unwrap_in (vf_open (rl_files R) (ka_keystore_dir a) (ka_vault_pswd a))) (\<lambda>vault.
            unwrap_key_error (roots_sign R vault a nonce))
      | Some (Verify a signature_hex nonce) \<Rightarrow>
          bind_action (unwrap_in (vf_open (rl_files R) (ka_keystore_dir a) (ka_vault_pswd a))) (\<lambda>vault.
            unwrap_key_error (roots_verify R vault a signature_hex nonce))
      | None \<Rightarrow> pure_action (Ok No_Output))"


section \<open>A key and its signatures\<close>

text \<open>
  The documented behaviour of vaults on disk: \<open>serves v h d p\<close> says that \<open>h\<close> was opened on the directory
  \<open>d\<close> with the password \<open>p\<close>, which reading and storing do not change; then the directory can be opened
  again with the password, and what is opened has all that was stored. \<open>open\<close> makes no vault.
\<close>

definition vault_files_ok ::
  "('v, 'h) vault_lib \<Rightarrow> ('v, 'h) vault_files \<Rightarrow> ('v \<Rightarrow> 'h \<Rightarrow> string \<Rightarrow> string \<Rightarrow> bool) \<Rightarrow> bool" where
  "vault_files_ok V F serves \<longleftrightarrow>
     (\<forall>d p v h v'. vf_open_or_create F d p v = (Ok h, v') \<longrightarrow> serves v' h d p \<and> vf_exists F v' d)
     \<and> (\<forall>d p v h v'. vf_open F d p v = (Ok h, v') \<longrightarrow> serves v' h d p)
     \<and> (\<forall>d p v h. serves v h d p \<longrightarrow> (\<exists>h' v'. vf_open F d p v = (Ok h', v')
          \<and> (\<forall>n vp fp b. vault_holds V v h n vp fp b \<longrightarrow> vault_holds V v' h' n vp fp b)))
     \<and> (\<forall>d p v h h2 n b vp fp r v'. store_bytes V h2 n b vp fp v = (r, v') \<longrightarrow> serves v h d p \<longrightarrow> serves v' h d p)
     \<and> (\<forall>d p v h h2 n vp fp r v'. vault_get V h2 n vp fp v = (r, v') \<longrightarrow> serves v h d p \<longrightarrow> serves v' h d p)
     \<and> (\<forall>d p v. \<not> vf_exists F v d \<longrightarrow> (\<exists>e. vf_open F d p v = (Err e, v)))"

lemma vault_files_okD:
  assumes "vault_files_ok V F serves"
  shows "vf_open_or_create F d p v = (Ok h, v') \<Longrightarrow> serves v' h d p \<and> vf_exists F v' d"
    and "vf_open F d p v = (Ok h, v') \<Longrightarrow> serves v' h d p"
    and "serves v h d p \<Longrightarrow> \<exists>h' v'. vf_open F d p v = (Ok h', v')
          \<and> (\<forall>n vp fp b. vault_holds V v h n vp fp b \<longrightarrow> vault_holds V v' h' n vp fp b)"
    and "store_bytes V h2 n b vp fp v = (r, v') \<Longrightarrow> serves v h d p \<Longrightarrow> serves v' h d p"
    and "vault_get V h2 n vp fp v = (r', v') \<Longrightarrow> serves v h d p \<Longrightarrow> serves v' h d p"
    and "\<not> vf_exists F v d \<Longrightarrow> \<exists>e. vf_open F d p v = (Err e, v)"
proof -
  note laws = assms [unfolded vault_files_ok_def]
  note 1 = laws [THEN conjunct1] and more = laws [THEN conjunct2]
  note 2 = more [THEN conjunct1] and more = more [THEN conjunct2]
  note 3 = more [THEN conjunct1] and more = more [THEN conjunct2]
  note 4 = more [THEN conjunct1] and more = more [THEN conjunct2]
  note 5 = more [THEN conjunct1] and 6 = more [THEN conjunct2]
  show "vf_open_or_create F d p v = (Ok h, v') \<Longrightarrow> serves v' h d p \<and> vf_exists F v' d" using 1 by blast
  show "vf_open F d p v = (Ok h, v') \<Longrightarrow> serves v' h d p" using 2 by blast
  show "serves v h d p \<Longrightarrow> \<exists>h' v'. vf_open F d p v = (Ok h', v')
          \<and> (\<forall>n vp fp b. vault_holds V v h n vp fp b \<longrightarrow> vault_holds V v' h' n vp fp b)" using 3 by blast
  show "store_bytes V h2 n b vp fp v = (r, v') \<Longrightarrow> serves v h d p \<Longrightarrow> serves v' h d p" using 4 by blast
  show "vault_get V h2 n vp fp v = (r', v') \<Longrightarrow> serves v h d p \<Longrightarrow> serves v' h d p" using 5 by blast
  show "\<not> vf_exists F v d \<Longrightarrow> \<exists>e. vf_open F d p v = (Err e, v)" using 6 by blast
qed

lemma write_key_serves:
  assumes "vault_files_ok V F serves" and "write_key V k b v = (Ok u, v')" and "serves v h d p"
  shows "serves v' h d p"
  using assms(2,3) vault_files_okD(4) [OF assms(1)] by (auto simp: write_key_Ok_iff)

lemma read_key_serves:
  assumes "vault_files_ok V F serves" and "read_key V k v = (Ok b, v')" and "serves v h d p"
  shows "serves v' h d p"
  using assms(2,3) vault_files_okD(5) [OF assms(1)] by (auto simp: read_key_Ok_iff)

lemma open_again:
  assumes "vault_files_ok V F serves" and "serves v h d p"
  obtains h' v' where "vf_open F d p v = (Ok h', v')" and "serves v' h' d p"
    and "\<forall>n vp fp b. vault_holds V v h n vp fp b \<longrightarrow> vault_holds V v' h' n vp fp b"
  using vault_files_okD(2,3) [OF assms(1)] assms(2) by metis

text \<open>
  A vault with the key that the arguments name: what \<open>inspect\<close> prints of it and the hex of its
  signature on a nonce.
\<close>

definition key_ready ::
  "('p, 'k, 'g, 's, 'ik, 'ig, 'v, 'h) roots_libs \<Rightarrow> ('v \<Rightarrow> 'h \<Rightarrow> string \<Rightarrow> string \<Rightarrow> bool) \<Rightarrow> key_args
   \<Rightarrow> ('k, 'ik) roots_output \<Rightarrow> (u32 \<Rightarrow> string) \<Rightarrow> 'h \<Rightarrow> 'v \<Rightarrow> bool" where
  "key_ready R serves a shown sig_hex h v \<longleftrightarrow>
     serves v h (ka_keystore_dir a) (ka_vault_pswd a)
     \<and> (case ka_store_type a of
          Polkadot \<Rightarrow> \<exists>seed pair. key_held (rl_vault R) v (polkadot_vault h a) seed
            \<and> from_seed_slice (rl_pairs R) seed = Some pair
            \<and> shown = Polkadot_Key (pair_public (rl_pairs R) pair)
            \<and> sig_hex = (\<lambda>n. rl_to_hex R (rl_sig_bytes R (pair_sign (rl_pairs R) pair (u32_to_le_bytes n))))
        | Fangorn \<Rightarrow> \<exists>sk. key_held (rl_vault R) v (fangorn_vault h a) (sk_to_bytes (rl_iroh R) sk)
            \<and> shown = Fangorn_Key (sk_public (rl_iroh R) sk)
            \<and> sig_hex = (\<lambda>n. rl_to_hex R (rl_iroh_sig_bytes R (sk_sign (rl_iroh R) sk (u32_to_le_bytes n)))))"

definition key_used ::
  "('p, 'k, 'g, 's, 'ik, 'ig, 'v, 'h) roots_libs \<Rightarrow> ('v \<Rightarrow> 'h \<Rightarrow> string \<Rightarrow> string \<Rightarrow> bool) \<Rightarrow> key_args
   \<Rightarrow> ('k, 'ik) roots_output \<Rightarrow> (u32 \<Rightarrow> string)
   \<Rightarrow> ('k, 'ik) roots_output \<Rightarrow> ('h \<Rightarrow> ('v, ('k, 'ik) roots_output, key_vault_error) action) \<Rightarrow> 'h \<Rightarrow> 'v \<Rightarrow> bool" where
  "key_used R serves a shown sig_hex out m h v \<longleftrightarrow>
     (\<exists>v'. m h v = (Ok out, v') \<and> key_ready R serves a shown sig_hex h v')"

text \<open>A key stays ready when its vault is opened again.\<close>

lemma key_held_again:
  assumes "\<forall>n vp fp b. vault_holds V v h n vp fp b \<longrightarrow> vault_holds V v' h' n vp fp b"
  shows "key_held V v (polkadot_vault h a) b \<Longrightarrow> key_held V v' (polkadot_vault h' a) b"
    and "key_held V v (fangorn_vault h a) b \<Longrightarrow> key_held V v' (fangorn_vault h' a) b"
  using assms by (simp_all add: key_held_def polkadot_vault_def fangorn_vault_def)
    (simp_all add: sr25519_new_store_info_def iroh_vault_new_store_info_def)

lemma key_ready_again:
  assumes "vault_files_ok (rl_vault R) (rl_files R) serves" and "key_ready R serves a shown sig_hex h v"
  obtains h' v' where "vf_open (rl_files R) (ka_keystore_dir a) (ka_vault_pswd a) v = (Ok h', v')"
    and "key_ready R serves a shown sig_hex h' v'"
proof -
  have "serves v h (ka_keystore_dir a) (ka_vault_pswd a)" using assms(2) by (simp add: key_ready_def)
  then obtain h' v' where o: "vf_open (rl_files R) (ka_keystore_dir a) (ka_vault_pswd a) v = (Ok h', v')"
    "serves v' h' (ka_keystore_dir a) (ka_vault_pswd a)"
    and holds: "\<forall>n vp fp b. vault_holds (rl_vault R) v h n vp fp b \<longrightarrow> vault_holds (rl_vault R) v' h' n vp fp b"
    by (rule open_again [OF assms(1)])
  note again = key_held_again [OF holds, of a]
  have "key_ready R serves a shown sig_hex h' v'"
    using assms(2) o(2) unfolding key_ready_def
    by (cases "ka_store_type a"; simp; use again in blast)
  with o(1) that show ?thesis by blast
qed

lemma roots_okD:
  assumes "roots_ok R"
  shows "vault_ok (rl_vault R)" "pair_ok (rl_pairs R)" "iroh_keys_ok (rl_iroh R)"
    "rl_from_hex R (rl_to_hex R bs) = Some bs" "rl_sig_from_slice R (rl_sig_bytes R g) = Some g"
    "length (rl_iroh_sig_bytes R ig) = 64" "rl_iroh_sig_from_bytes R (rl_iroh_sig_bytes R ig) = ig"
  using assms unfolding roots_ok_def by simp_all

lemma iroh_keys_okD:
  assumes "iroh_keys_ok K"
  shows "length (sk_to_bytes K s) = 32" "sk_from_bytes K (sk_to_bytes K s) = s"
    "pk_verify K (sk_public K s) m (sk_sign K s m)"
  using assms unfolding iroh_keys_ok_def by blast+

text \<open>Each use of the key gives what it should and leaves it ready.\<close>

lemma ready_key_uses:
  assumes ok: "roots_ok R" and files: "vault_files_ok (rl_vault R) (rl_files R) serves"
    and ready: "key_ready R serves a shown sig_hex vault v"
  shows "key_used R serves a shown sig_hex shown (\<lambda>vault. roots_inspect R vault a) vault v
    \<and> key_used R serves a shown sig_hex (Signature_Hex (sig_hex n)) (\<lambda>vault. roots_sign R vault a n) vault v
    \<and> key_used R serves a shown sig_hex (Was_Verified True) (\<lambda>vault. roots_verify R vault a (sig_hex n) n) vault v"
proof -
  note ok = roots_okD [OF ok]
  have served: "serves v vault (ka_keystore_dir a) (ka_vault_pswd a)"
    using ready by (simp add: key_ready_def)
  show ?thesis
  proof (cases "ka_store_type a")
    case Polkadot
    then obtain seed pair where held: "key_held (rl_vault R) v (polkadot_vault vault a) seed"
      and pair: "from_seed_slice (rl_pairs R) seed = Some pair"
      and eqs: "shown = Polkadot_Key (pair_public (rl_pairs R) pair)"
        "sig_hex = (\<lambda>n. rl_to_hex R (rl_sig_bytes R (pair_sign (rl_pairs R) pair (u32_to_le_bytes n))))"
      using ready by (auto simp: key_ready_def)
    obtain v' where read: "read_key (rl_vault R) (polkadot_vault vault a) v = (Ok seed, v')"
      and held': "key_held (rl_vault R) v' (polkadot_vault vault a) seed"
      using keys.load_holding [OF ok(1) held] .
    have after: "key_ready R serves a shown sig_hex vault v'"
      using held' pair eqs read_key_serves [OF files read served] Polkadot by (auto simp: key_ready_def)
    have "pair_verify (rl_pairs R) (pair_sign (rl_pairs R) pair m) m (pair_public (rl_pairs R) pair)" for m
      using ok(2) by (simp add: pair_ok_def)
    with read pair after Polkadot show ?thesis
      by (simp add: key_used_def roots_inspect_def roots_sign_def roots_verify_def sr25519_get_public_key_def
          sr25519_sign_def sr25519_pair_def sr25519_vault_verify_def eqs ok)
  next
    case Fangorn
    then obtain sk where held: "key_held (rl_vault R) v (fangorn_vault vault a) (sk_to_bytes (rl_iroh R) sk)"
      and eqs: "shown = Fangorn_Key (sk_public (rl_iroh R) sk)"
        "sig_hex = (\<lambda>n. rl_to_hex R (rl_iroh_sig_bytes R (sk_sign (rl_iroh R) sk (u32_to_le_bytes n))))"
      using ready by (auto simp: key_ready_def)
    obtain v' where read: "read_key (rl_vault R) (fangorn_vault vault a) v = (Ok (sk_to_bytes (rl_iroh R) sk), v')"
      and held': "key_held (rl_vault R) v' (fangorn_vault vault a) (sk_to_bytes (rl_iroh R) sk)"
      using keys.load_holding [OF ok(1) held] .
    have after: "key_ready R serves a shown sig_hex vault v'"
      using held' eqs read_key_serves [OF files read served] Fangorn by (auto simp: key_ready_def)
    have "iroh_get_secret_key (rl_vault R) (rl_iroh R) (fangorn_vault vault a) v = (Ok sk, v')"
      by (simp add: iroh_get_secret_key_def read iroh_keys_okD [OF ok(3)])
    with after Fangorn show ?thesis
      by (simp add: key_used_def roots_inspect_def roots_sign_def roots_verify_def iroh_get_public_key_def
          iroh_sign_def iroh_vault_verify_def eqs ok iroh_keys_okD [OF ok(3)])
  qed
qed

text \<open>How the key that \<open>keygen\<close> prints is printed by \<open>inspect\<close>.\<close>

fun inspected :: "('k, 'ik) roots_output \<Rightarrow> ('k, 'ik) roots_output" where
  "inspected (New_Polkadot_Key k) = Polkadot_Key k"
| "inspected (New_Fangorn_Key k) = Fangorn_Key k"
| "inspected out = out"

lemma unwrap_key_error_Ok: "unwrap_key_error m v = (Ok a, v') \<longleftrightarrow> m v = (Ok a, v')"
  by (auto simp: unwrap_key_error_def outcome_simps split: prod.splits)

lemma keygen_ready:
  assumes ok: "roots_ok R" and files: "vault_files_ok (rl_vault R) (rl_files R) serves"
    and gen: "roots_main R mnemonic secret (Some (Keygen a pm)) u = (Ok out, v)"
  obtains sig_hex vault where "key_ready R serves a (inspected out) sig_hex vault v"
proof -
  note ok = roots_okD [OF ok]
  obtain v0 vault where opened: "vf_open_or_create (rl_files R) (ka_keystore_dir a) (ka_vault_pswd a) u = (Ok vault, v0)"
    and run: "roots_keygen R mnemonic secret vault a pm v0 = (Ok out, v)"
    using gen by (auto simp: roots_main_def bind_action_Ok_iff unwrap_in_Ok_iff unwrap_key_error_Ok)
  have served: "serves v0 vault (ka_keystore_dir a) (ka_vault_pswd a)"
    using vault_files_okD(1) [OF files opened] by blast
  have "\<exists>sig_hex. key_ready R serves a (inspected out) sig_hex vault v"
  proof (cases "ka_store_type a")
    case Polkadot
    obtain pair seed where ph: "from_phrase (rl_pairs R) mnemonic = Some (pair, seed)"
      and w: "write_key (rl_vault R) (polkadot_vault vault a) seed v0 = (Ok (), v)"
      and out: "out = New_Polkadot_Key (pair_public (rl_pairs R) pair)"
      using run Polkadot
      by (auto simp: roots_keygen_def sr25519_generate_key_print_mnemonic_def sr25519_generate_key_panics
          Let_def outcome_simps split: if_splits option.splits)
    have "from_seed_slice (rl_pairs R) seed = Some pair"
      using ok(2) ph unfolding pair_ok_def by blast
    then show ?thesis
      using keys.store_holds [OF ok(1) w] write_key_serves [OF files w served] Polkadot
      by (auto simp: key_ready_def out)
  next
    case Fangorn
    have w: "write_key (rl_vault R) (fangorn_vault vault a) (sk_to_bytes (rl_iroh R) secret) v0 = (Ok (), v)"
      and out: "out = New_Fangorn_Key (sk_public (rl_iroh R) secret)"
      using run Fangorn by (auto simp: roots_keygen_def iroh_generate_key_def outcome_simps)
    show ?thesis
      using keys.store_holds [OF ok(1) w] write_key_serves [OF files w served] Fangorn
      by (auto simp: key_ready_def out)
  qed
  with that show ?thesis by blast
qed

lemma main_uses_key:
  assumes "vault_files_ok (rl_vault R) (rl_files R) serves" and "key_ready R serves a shown sig_hex vault v"
    and "\<And>vault v. key_ready R serves a shown sig_hex vault v \<Longrightarrow> key_used R serves a shown sig_hex out m vault v"
  shows "\<exists>vault' v'. bind_action (unwrap_in (vf_open (rl_files R) (ka_keystore_dir a) (ka_vault_pswd a)))
      (\<lambda>vault. unwrap_key_error (m vault)) v = (Ok out, v') \<and> key_ready R serves a shown sig_hex vault' v'"
proof -
  obtain h' v1 where opened: "vf_open (rl_files R) (ka_keystore_dir a) (ka_vault_pswd a) v = (Ok h', v1)"
    and ready: "key_ready R serves a shown sig_hex h' v1"
    using key_ready_again [OF assms(1,2)] .
  obtain v' where "m h' v1 = (Ok out, v')" "key_ready R serves a shown sig_hex h' v'"
    using assms(3) [OF ready] by (auto simp: key_used_def)
  then show ?thesis
    using opened by (auto simp: bind_action_Ok_iff unwrap_in_Ok_iff unwrap_key_error_Ok)
qed

text \<open>
  C28. The key tool round trip. After \<open>keygen\<close> succeeded, of either kind and in a new or an existing
  vault, \<open>inspect\<close> with the same arguments shows the same public key, \<open>sign\<close> prints the hex of a
  signature on the nonce, and \<open>verify\<close> of that hex and nonce says true, in the state the commands
  before it left; each command opens the vault of the directory anew.
\<close>

theorem signature_verifies:
  assumes "roots_ok R" and "vault_files_ok (rl_vault R) (rl_files R) serves"
    and "roots_main R mnemonic secret (Some (Keygen a pm)) v = (Ok out, v1)"
  shows "\<exists>v2 signature_hex v3 v4.
      roots_main R m2 s2 (Some (Inspect a)) v1 = (Ok (inspected out), v2)
    \<and> roots_main R m3 s3 (Some (Sign a nonce)) v2 = (Ok (Signature_Hex signature_hex), v3)
    \<and> roots_main R m4 s4 (Some (Verify a signature_hex nonce)) v3 = (Ok (Was_Verified True), v4)"
proof -
  obtain sig_hex h1 where r1: "key_ready R serves a (inspected out) sig_hex h1 v1"
    using keygen_ready [OF assms] .
  note uses = ready_key_uses [OF assms(1,2), of a "inspected out" sig_hex _ _ nonce]
  obtain h2 v2 where run2: "roots_main R m2 s2 (Some (Inspect a)) v1 = (Ok (inspected out), v2)"
    and r2: "key_ready R serves a (inspected out) sig_hex h2 v2"
    using main_uses_key [OF assms(2) r1 uses [THEN conjunct1]] unfolding roots_main_def by auto
  obtain h3 v3 where run3: "roots_main R m3 s3 (Some (Sign a nonce)) v2 = (Ok (Signature_Hex (sig_hex nonce)), v3)"
    and r3: "key_ready R serves a (inspected out) sig_hex h3 v3"
    using main_uses_key [OF assms(2) r2 uses [THEN conjunct2, THEN conjunct1]] unfolding roots_main_def by auto
  obtain h4 v4 where "roots_main R m4 s4 (Some (Verify a (sig_hex nonce) nonce)) v3 = (Ok (Was_Verified True), v4)"
    using main_uses_key [OF assms(2) r3 uses [THEN conjunct2, THEN conjunct2]] unfolding roots_main_def by auto
  with run2 run3 show ?thesis by blast
qed

text \<open>
  Libraries for the witnesses: each directory has a vault that any password opens, signatures are the
  key with the message, hexadecimal digits.
\<close>

type_synonym demo_vaults = "string \<rightharpoonup> demo_vault_state"

definition demo_dir :: "demo_vaults \<Rightarrow> string \<Rightarrow> demo_vault_state" where
  "demo_dir v d = (case v d of None \<Rightarrow> [] | Some l \<Rightarrow> l)"

definition demo_dir_vault :: "(demo_vaults, string) vault_lib" where
  "demo_dir_vault = \<lparr>
     vault_clone = Pair,
     store_bytes = (\<lambda>d n b vp fp v. (Ok (), v(d \<mapsto> (n, vp, fp, b) # demo_dir v d))),
     vault_get = (\<lambda>d n vp fp v.
        (case map_of (demo_dir v d) n of
           None \<Rightarrow> Err ''not found''
         | Some (vp', fp', b) \<Rightarrow> if vp = vp' \<and> fp = fp' then Ok b else Err ''wrong password'', v)),
     vault_list = (\<lambda>v d. map fst (demo_dir v d)),
     vault_contains = (\<lambda>v d n. n \<in> set (map fst (demo_dir v d)))\<rparr>"

lemma demo_dir_vault_ok: "vault_ok demo_dir_vault"
  by (auto simp: vault_ok_def vault_holds_def demo_dir_vault_def demo_dir_def split: option.splits prod.splits if_splits)

definition demo_files :: "(demo_vaults, string) vault_files" where
  "demo_files = \<lparr>
     vf_open_or_create = (\<lambda>d p v. (Ok d, v(d \<mapsto> demo_dir v d))),
     vf_open = (\<lambda>d p v. (if v d = None then Err ''no vault'' else Ok d, v)),
     vf_exists = (\<lambda>v d. v d \<noteq> None)\<rparr>"

definition demo_serves :: "demo_vaults \<Rightarrow> string \<Rightarrow> string \<Rightarrow> string \<Rightarrow> bool" where
  "demo_serves v h d p \<longleftrightarrow> h = d \<and> v d \<noteq> None"

lemma demo_files_ok: "vault_files_ok demo_dir_vault demo_files demo_serves"
  by (auto simp: vault_files_ok_def demo_dir_vault_def demo_files_def demo_serves_def split: if_splits)

definition demo_roots :: "(bytes, bytes, bytes, byte, byte, byte, demo_vaults, string) roots_libs" where
  "demo_roots = \<lparr>
     rl_files = demo_files, rl_vault = demo_dir_vault,
     rl_pairs = \<lparr>from_phrase = (\<lambda>m. Some (as_bytes m, as_bytes m)), from_seed_slice = Some,
       pair_public = (\<lambda>p. p), pair_sign = (@), pair_verify = (\<lambda>g m k. g = k @ m),
       to_ss58check = map char_of_byte, from_ss58check = (\<lambda>s. Some (as_bytes s))\<rparr>,
     rl_iroh = \<lparr>sk_to_bytes = replicate 32, sk_from_bytes = hd, sk_public = (\<lambda>s. s),
       sk_sign = (\<lambda>s m. s + sum_list m), pk_verify = (\<lambda>k m g. g = k + sum_list m)\<rparr>,
     rl_to_hex = (\<lambda>bs. map char_of_byte (hex_encode demo_hex bs)),
     rl_from_hex = (\<lambda>s. hex_decode demo_hex (as_bytes s)),
     rl_sig_bytes = (\<lambda>g. g), rl_sig_from_slice = Some,
     rl_iroh_sig_bytes = replicate 64, rl_iroh_sig_from_bytes = hd\<rparr>"

lemma demo_roots_ok: "roots_ok demo_roots" and demo_roots_files_ok:
  "vault_files_ok (rl_vault demo_roots) (rl_files demo_roots) demo_serves"
  by (simp_all add: roots_ok_def demo_roots_def demo_dir_vault_ok pair_ok_def iroh_keys_ok_def
      hex_okD [OF demo_hex_ok] demo_files_ok)

definition demo_key_args :: key_args where
  "demo_key_args = \<lparr>ka_keystore_dir = ''keys'', ka_key_name = ''n'', ka_vault_pswd = ''vault_password'',
     ka_key_password = ''p'', ka_store_type = Fangorn, ka_index = None\<rparr>"

lemma demo_keygen_runs:
  "\<exists>v1. roots_main demo_roots m 9 (Some (Keygen demo_key_args False)) Map.empty
     = (Ok (New_Fangorn_Key 9), v1)"
  by (simp add: roots_main_def demo_key_args_def demo_roots_def demo_files_def bind_action_def
      unwrap_key_error_def roots_keygen_def iroh_generate_key_def write_key_def fangorn_vault_def
      unwrap_in_def demo_dir_vault_def)

theorem signature_verifies_witness:
  "\<exists>v2 signature_hex v3 v4.
      roots_main demo_roots [] 0 (Some (Sign demo_key_args 77)) v2 = (Ok (Signature_Hex signature_hex), v3)
    \<and> roots_main demo_roots [] 0 (Some (Verify demo_key_args signature_hex 77)) v3
        = (Ok (Was_Verified True), v4)"
proof -
  obtain v1 where gen: "roots_main demo_roots [] 9 (Some (Keygen demo_key_args False)) Map.empty
     = (Ok (New_Fangorn_Key 9), v1)"
    using demo_keygen_runs by blast
  show ?thesis
    using signature_verifies [OF demo_roots_ok demo_roots_files_ok gen, of "[]" 0 "[]" 0 77 "[]" 0]
    by blast
qed



end
