(* ===== verification/Doc_Store.thy ===== *)
theory Doc_Store
  imports Node_State
begin

text \<open>
  Content-addressed storage: the \<open>SharedStore\<close> trait of \<open>fangorn/src/storage/mod.rs\<close> as a locale,
  and its two implementations, \<open>LocalDocStore\<close> of \<open>storage/local_store.rs\<close> on files and
  \<open>IrohDocStore\<close> of \<open>storage/iroh_docstore.rs\<close> over \<open>backend/iroh.rs\<close> on a shared document; and
  the plaintext store. A failed future returns its error as a string.
\<close>

section \<open>The shared store\<close>

text \<open>
  \<open>add\<close> and \<open>fetch\<close>, with the environment \<open>e\<close> they run in (directories, libraries). The key of a
  value is computed from the value.
\<close>

locale shared_store =
  fixes env_ok :: "'e \<Rightarrow> bool"
    and add :: "'e \<Rightarrow> 'v \<Rightarrow> ('w, 'k, string) action"
    and fetch :: "'e \<Rightarrow> 'w \<Rightarrow> 'k \<Rightarrow> ('v option, string) outcome"
    and key_of :: "'e \<Rightarrow> 'v \<Rightarrow> 'k"
  assumes add_key: "env_ok e \<Longrightarrow> add e v w = (Ok k, w') \<Longrightarrow> k = key_of e v"
    and add_fetch: "env_ok e \<Longrightarrow> add e v w = (Ok k, w') \<Longrightarrow> fetch e w' k = Ok (Some v)"
    and add_other: "env_ok e \<Longrightarrow> add e v w = (Ok k, w') \<Longrightarrow> k' \<noteq> k \<Longrightarrow>
      fetch e w k' = Ok (Some u) \<Longrightarrow> fetch e w' k' = Ok (Some u)"
begin

text \<open>Documents whose keys differ from everything added later stay.\<close>

lemma add_keeps:
  assumes "env_ok e" and "add e v w = (Ok k, w')" and "fetch e w (key_of e u) = Ok (Some u)"
    and "key_of e u = key_of e v \<Longrightarrow> u = v"
  shows "fetch e w' (key_of e u) = Ok (Some u)"
proof (cases "key_of e u = k")
  case True
  then have "u = v" using add_key [OF assms(1,2)] assms(4) by simp
  with True add_fetch [OF assms(1,2)] show ?thesis by simp
next
  case False
  then show ?thesis using add_other [OF assms(1,2)] assms(3) by blast
qed

end

text \<open>Adding documents one after the other: the keys, or the first failure.\<close>

fun add_all ::
  "('e \<Rightarrow> 'v \<Rightarrow> ('w, 'k, string) action) \<Rightarrow> 'e \<Rightarrow> 'v list \<Rightarrow> ('w, 'k list, string) action" where
  "add_all f e [] w = (Ok [], w)"
| "add_all f e (v # vs) w =
     bind_action (f e v) (\<lambda>k. bind_action (add_all f e vs) (\<lambda>ks. pure_action (Ok (k # ks)))) w"

context shared_store
begin

lemma add_all_keeps:
  assumes "env_ok e"
  shows "add_all add e vs w = (Ok ks, w') \<Longrightarrow> fetch e w (key_of e u) = Ok (Some u) \<Longrightarrow>
    \<forall>v \<in> set vs. key_of e u = key_of e v \<longrightarrow> u = v \<Longrightarrow> fetch e w' (key_of e u) = Ok (Some u)"
proof (induction vs arbitrary: w ks)
  case (Cons v vs)
  then obtain k w1 ks1 where "add e v w = (Ok k, w1)" "add_all add e vs w1 = (Ok ks1, w')"
    by (auto simp: outcome_simps)
  with Cons add_keeps [OF assms] show ?case by (metis list.set_intros)
qed simp

lemma add_all_fetch:
  assumes "env_ok e"
  shows "add_all add e vs w = (Ok ks, w') \<Longrightarrow> inj_on (key_of e) (set vs) \<Longrightarrow>
    ks = map (key_of e) vs \<and> (\<forall>v \<in> set vs. fetch e w' (key_of e v) = Ok (Some v))"
proof (induction vs arbitrary: w ks)
  case (Cons v vs)
  then obtain k w1 ks1 where *: "add e v w = (Ok k, w1)" "add_all add e vs w1 = (Ok ks1, w')"
    "ks = k # ks1"
    by (auto simp: outcome_simps)
  have "fetch e w1 (key_of e v) = Ok (Some v)"
    using add_fetch [OF assms *(1)] add_key [OF assms *(1)] by simp
  then have "fetch e w' (key_of e v) = Ok (Some v)"
    using add_all_keeps [OF assms *(2)] Cons.prems(2) by (auto simp: inj_on_def)
  with Cons.IH [OF *(2)] Cons.prems(2) add_key [OF assms *(1)] *(3) show ?case by auto
qed simp

end


section \<open>Files\<close>

text \<open>
  The disk: the contents of the files, and the paths the operating system refuses. A directory
  that cannot be created is an error, a file that cannot be opened or read is a panic of the code.
\<close>

record disk =
  disk_files :: "string \<rightharpoonup> bytes"
  disk_refuses :: "string \<Rightarrow> bool"

definition create_dir_all :: "string \<Rightarrow> (disk, unit, string) action" where
  "create_dir_all dir d = (if disk_refuses d dir then (Err ''create_dir_all'', d) else (Ok (), d))"

definition write_file :: "bytes \<Rightarrow> string \<Rightarrow> (disk, unit, string) action" where
  "write_file bs path d =
     (if disk_refuses d path then (Panic Unwrap_Err, d)
      else (Ok (), d\<lparr>disk_files := (disk_files d)(path \<mapsto> bs)\<rparr>))"

definition read_file :: "string \<Rightarrow> string \<Rightarrow> disk \<Rightarrow> (bytes, string) outcome" where
  "read_file msg path d =
     (case disk_files d path of
        Some bs \<Rightarrow> if disk_refuses d path then Panic (Expect msg) else Ok bs
      | None \<Rightarrow> Panic (Expect msg))"

text \<open>\<open>PathBuf::join\<close>: an absolute second part replaces the first; a separator is added if needed.\<close>

definition path_join :: "string \<Rightarrow> string \<Rightarrow> string" where
  "path_join dir name =
     (if name \<noteq> [] \<and> hd name = CHR ''/'' then name
      else if dir = [] \<or> last dir = CHR ''/'' then dir @ name
      else dir @ ''/'' @ name)"

lemma path_join_inject:
  assumes "CHR ''/'' \<notin> set a" and "CHR ''/'' \<notin> set b"
  shows "path_join dir a = path_join dir b \<longleftrightarrow> a = b"
proof -
  have "\<not> (x \<noteq> [] \<and> hd x = CHR ''/'')" if "CHR ''/'' \<notin> set x" for x
    using that by (cases x) auto
  with assms have "\<not> (a \<noteq> [] \<and> hd a = CHR ''/'')" and "\<not> (b \<noteq> [] \<and> hd b = CHR ''/'')" by blast+
  then show ?thesis by (simp only: path_join_def if_False) simp
qed

lemma read_file_update:
  "read_file msg p (d\<lparr>disk_files := (disk_files d)(path \<mapsto> bs)\<rparr>) =
    (if p \<noteq> path then read_file msg p d else if disk_refuses d p then Panic (Expect msg) else Ok bs)"
  by (simp add: read_file_def cong: option.case_cong)


section \<open>\<open>LocalDocStore\<close>\<close>

definition RAW :: u64 where
  "RAW = 0x55"

record 'c local_env =
  docs_dir :: string
  local_hex :: hex_lib
  local_cid :: "'c cid_lib"

definition local_store_new :: "hex_lib \<Rightarrow> 'c cid_lib \<Rightarrow> string \<Rightarrow> 'c local_env" where
  "local_store_new X C dir = \<lparr>docs_dir = dir, local_hex = X, local_cid = C\<rparr>"

definition local_env_ok :: "'c local_env \<Rightarrow> bool" where
  "local_env_ok e \<longleftrightarrow> hex_ok (local_hex e) \<and> cid_ok (local_cid e)"

definition build_cid :: "'c cid_lib \<Rightarrow> bytes \<Rightarrow> 'c" where
  "build_cid C data = (let hash = sha2_256_digest C data in cid_new_v1 C RAW hash)"

definition ensure_dir :: "string \<Rightarrow> (disk, unit, string) action" where
  "ensure_dir dir = create_dir_all dir"

definition cid_to_filename :: "'c local_env \<Rightarrow> string \<Rightarrow> string" where
  "cid_to_filename e c = path_join (docs_dir e) c"

definition write_to_disk :: "hex_lib \<Rightarrow> bytes \<Rightarrow> string \<Rightarrow> (disk, unit, string) action" where
  "write_to_disk X data filepath = (let hex_enc = hex_encode X data in write_file hex_enc filepath)"

definition local_add :: "'c local_env \<Rightarrow> bytes \<Rightarrow> (disk, 'c, string) action" where
  "local_add e data =
     bind_action (ensure_dir (docs_dir e)) (\<lambda>_.
     let c = build_cid (local_cid e) data;
         filepath = cid_to_filename e (cid_to_string (local_cid e) c)
     in bind_action (write_to_disk (local_hex e) data filepath) (\<lambda>_. pure_action (Ok c)))"

definition local_fetch :: "'c local_env \<Rightarrow> disk \<Rightarrow> 'c \<Rightarrow> (bytes option, string) outcome" where
  "local_fetch e d c =
     (let filepath = cid_to_filename e (cid_to_string (local_cid e) c)
      in if disk_files d filepath = None then Ok None
         else and_then (read_file ''you must provide a ciphertext.'' filepath d) (\<lambda>content.
              and_then (expect_option ''you must provide a ciphertext.'' (from_utf8 content)) (\<lambda>ciphertext_hex.
              and_then (unwrap_decoded (hex_decode (local_hex e) (as_bytes ciphertext_hex)))
                (\<lambda>ciphertext_bytes. Ok (Some ciphertext_bytes)))))"

lemma cid_to_filename_inject:
  "cid_ok (local_cid e) \<Longrightarrow>
   cid_to_filename e (cid_to_string (local_cid e) a) = cid_to_filename e (cid_to_string (local_cid e) b)
    \<longleftrightarrow> a = b"
  by (simp add: cid_to_filename_def path_join_inject cid_okD)

lemma local_add_Ok:
  assumes "local_add e v d = (Ok c, d')"
  shows "c = build_cid (local_cid e) v"
    and "\<not> disk_refuses d (cid_to_filename e (cid_to_string (local_cid e) c))"
    and "d' = d\<lparr>disk_files := (disk_files d)
      (cid_to_filename e (cid_to_string (local_cid e) c) \<mapsto> hex_encode (local_hex e) v)\<rparr>"
  using assms
  by (auto simp: local_add_def outcome_simps Let_def ensure_dir_def create_dir_all_def
      write_to_disk_def write_file_def split: if_splits)

interpretation local_docs: shared_store local_env_ok local_add local_fetch "\<lambda>e. build_cid (local_cid e)"
proof unfold_locales
  fix e :: "'c local_env" and v w k w' k' u
  assume e: "local_env_ok e" and add: "local_add e v w = (Ok k, w')"
  note w' = local_add_Ok [OF add]
  show "k = build_cid (local_cid e) v" by (rule w'(1))
  show "local_fetch e w' k = Ok (Some v)"
    using e w'(2) by (simp add: local_fetch_def w'(3) read_file_update hex_utf8 local_env_ok_def hex_okD)
  assume "k' \<noteq> k" and "local_fetch e w k' = Ok (Some u)"
  then show "local_fetch e w' k' = Ok (Some u)"
    using e by (simp add: local_fetch_def w'(3) read_file_update cid_to_filename_inject local_env_ok_def Let_def
        split: if_splits)
qed


section \<open>\<open>IrohBackend\<close>\<close>

text \<open>\<open>backend/iroh.rs\<close>: the entry of an exact key and its blob; a write as the default author.\<close>

definition iroh_read :: "'d iroh_lib \<Rightarrow> 'd \<Rightarrow> string \<Rightarrow> (bytes option, string) outcome" where
  "iroh_read I d key =
     and_then (get_one I d (as_bytes key)) (\<lambda>ent.
       case ent of
         Some hash \<Rightarrow> and_then (get_bytes I d hash) (\<lambda>content. Ok (Some content))
       | None \<Rightarrow> Ok None)"

definition iroh_write :: "'d iroh_lib \<Rightarrow> string \<Rightarrow> bytes \<Rightarrow> ('d, bytes, string) action" where
  "iroh_write I key val d =
     (case author_default I d of
        Ok author \<Rightarrow> bind_action (set_bytes I author (as_bytes key) val) (\<lambda>result. pure_action (Ok result)) d
      | Err _ \<Rightarrow> (Panic Unwrap_Err, d)
      | Panic p \<Rightarrow> (Panic p, d))"

lemma iroh_read_iff: "iroh_read I d key = Ok (Some v) \<longleftrightarrow> reads_as I d key v"
  by (auto simp: iroh_read_def reads_as_def outcome_simps split: option.splits)

lemma iroh_write_Ok:
  assumes "iroh_ok I" and "iroh_write I key v d = (Ok r, d')"
  shows "reads_as I d' key v" and "k \<noteq> key \<Longrightarrow> reads_as I d k u \<Longrightarrow> reads_as I d' k u"
proof -
  obtain a where "set_bytes I a (as_bytes key) v d = (Ok r, d')"
    using assms(2) by (auto simp: iroh_write_def outcome_simps split: outcome.splits)
  from iroh_okD [OF assms(1) this] show "reads_as I d' key v"
    and "k \<noteq> key \<Longrightarrow> reads_as I d k u \<Longrightarrow> reads_as I d' k u" by auto
qed


section \<open>\<open>IrohDocStore\<close>\<close>

record ('c, 'd) iroh_env =
  iroh_docs_lib :: "'d iroh_lib"
  iroh_cid :: "'c cid_lib"
  iroh_ann :: "announcement codec"

definition iroh_env_ok :: "('c, 'd) iroh_env \<Rightarrow> bool" where
  "iroh_env_ok e \<longleftrightarrow> iroh_ok (iroh_docs_lib e) \<and> cid_ok (iroh_cid e) \<and> codec_ok (iroh_ann e)"

definition iroh_add :: "('c, 'd) iroh_env \<Rightarrow> bytes \<Rightarrow> ('d, 'c, string) action" where
  "iroh_add e data =
     (let c = build_cid (iroh_cid e) data;
          ann = \<lparr>ann_tag = Tag_Doc, ann_data = data\<rparr>
      in bind_action (iroh_write (iroh_docs_lib e) (cid_to_string (iroh_cid e) c) (enc (iroh_ann e) ann))
           (\<lambda>_. pure_action (Ok c)))"

definition iroh_fetch :: "('c, 'd) iroh_env \<Rightarrow> 'd \<Rightarrow> 'c \<Rightarrow> (bytes option, string) outcome" where
  "iroh_fetch e d c =
     and_then (iroh_read (iroh_docs_lib e) d (cid_to_string (iroh_cid e) c)) (\<lambda>r.
       case r of
         Some content \<Rightarrow>
           and_then (ok_or ''decode'' (dec (iroh_ann e) content)) (\<lambda>(ann, _). Ok (Some (ann_data ann)))
       | None \<Rightarrow> Ok None)"

lemma iroh_fetch_iff:
  "iroh_fetch e d c = Ok (Some v) \<longleftrightarrow>
    (\<exists>content ann rest. reads_as (iroh_docs_lib e) d (cid_to_string (iroh_cid e) c) content
       \<and> dec (iroh_ann e) content = Some (ann, rest) \<and> ann_data ann = v)"
  by (auto simp: iroh_fetch_def outcome_simps iroh_read_iff [symmetric] split: option.splits prod.splits)

interpretation iroh_docs: shared_store iroh_env_ok iroh_add iroh_fetch "\<lambda>e. build_cid (iroh_cid e)"
proof unfold_locales
  fix e :: "('c, 'd) iroh_env" and v w k w' k' u
  assume e: "iroh_env_ok e" and add: "iroh_add e v w = (Ok k, w')"
  let ?ann = "\<lparr>ann_tag = Tag_Doc, ann_data = v\<rparr>"
  obtain r where k: "k = build_cid (iroh_cid e) v"
    and wr: "iroh_write (iroh_docs_lib e) (cid_to_string (iroh_cid e) k) (enc (iroh_ann e) ?ann) w = (Ok r, w')"
    using add by (auto simp: iroh_add_def outcome_simps Let_def)
  show "k = build_cid (iroh_cid e) v" by (rule k)
  have ok: "iroh_ok (iroh_docs_lib e)" "cid_ok (iroh_cid e)" "codec_ok (iroh_ann e)"
    using e by (auto simp: iroh_env_ok_def)
  show "iroh_fetch e w' k = Ok (Some v)"
    using iroh_write_Ok(1) [OF ok(1) wr] codec_ok_exact [OF ok(3), of ?ann]
    unfolding iroh_fetch_iff by fastforce
  assume "k' \<noteq> k" and "iroh_fetch e w k' = Ok (Some u)"
  then show "iroh_fetch e w' k' = Ok (Some u)"
    using iroh_write_Ok(2) [OF ok(1) wr] cid_okD(1) [OF ok(2), of k' k]
    unfolding iroh_fetch_iff by blast
qed


section \<open>The plaintext store\<close>

definition read_plaintext :: "string \<Rightarrow> disk \<Rightarrow> (bytes, string) outcome" where
  "read_plaintext message_path d = read_file ''you must provide a path to a plaintext file.'' message_path d"

text \<open>The path is the directory and the file name put together, without a separator.\<close>

definition write_plaintext :: "string \<Rightarrow> string \<Rightarrow> bytes \<Rightarrow> (disk, unit, string) action" where
  "write_plaintext pt_dir fname data =
     bind_action (ensure_dir pt_dir) (\<lambda>_.
     let filepath = pt_dir @ fname
     in bind_action (write_file data filepath) (\<lambda>_. pure_action (Ok ())))"

lemma write_plaintext_Ok:
  assumes "write_plaintext dir fname data d = (Ok (), d')"
  shows "read_plaintext (dir @ fname) d' = Ok data"
    and "p \<noteq> dir @ fname \<Longrightarrow> read_plaintext p d' = read_plaintext p d"
  using assms
  by (auto simp: write_plaintext_def outcome_simps Let_def ensure_dir_def create_dir_all_def write_file_def
      read_plaintext_def read_file_update split: if_splits)


section \<open>Properties\<close>

definition demo_ann :: "announcement codec" where
  "demo_ann = map_codec
     (\<lambda>a. ((case ann_tag a of Tag_Config \<Rightarrow> [0] | Tag_Hint \<Rightarrow> [1] | Tag_Doc \<Rightarrow> [2]
             | Tag_SystemKeys \<Rightarrow> [3] | Tag_DecryptionRequest \<Rightarrow> [4]), ann_data a))
     (\<lambda>(t, bs). \<lparr>ann_tag = (if t = [0] then Tag_Config else if t = [1] then Tag_Hint else if t = [2] then Tag_Doc
             else if t = [3] then Tag_SystemKeys else Tag_DecryptionRequest), ann_data = bs\<rparr>)
     (pair_codec demo_bytes_codec demo_bytes_codec)"

lemma demo_ann_ok: "codec_ok demo_ann"
  unfolding demo_ann_def
proof (rule map_codec_ok)
  show "codec_ok (pair_codec demo_bytes_codec demo_bytes_codec)"
    by (intro pair_codec_ok demo_bytes_codec_ok)
qed (simp split: tag.splits)

definition demo_iroh_env :: "(bytes, bytes \<rightharpoonup> bytes) iroh_env" where
  "demo_iroh_env = \<lparr>iroh_docs_lib = demo_iroh, iroh_cid = demo_cid, iroh_ann = demo_ann\<rparr>"

lemma demo_iroh_env_ok: "iroh_env_ok demo_iroh_env"
  by (simp add: iroh_env_ok_def demo_iroh_env_def demo_iroh_ok demo_cid_ok demo_ann_ok)

definition demo_local_env :: "bytes local_env" where
  "demo_local_env = local_store_new demo_hex demo_cid ''tmp/docs/''"

lemma demo_local_env_ok: "local_env_ok demo_local_env"
  by (simp add: local_env_ok_def demo_local_env_def local_store_new_def demo_hex_ok demo_cid_ok)

text \<open>
  C21. Ciphertexts in the shared document: after adding any documents with different content
  identifiers, the identifiers returned are those of the documents in order, and every document
  is fetched back under its identifier, byte for byte.
\<close>

theorem iroh_documents_retrievable:
  assumes "iroh_env_ok e" and "add_all iroh_add e vs d = (Ok cids, d')"
    and "inj_on (build_cid (iroh_cid e)) (set vs)"
  shows "cids = map (build_cid (iroh_cid e)) vs
    \<and> (\<forall>v \<in> set vs. iroh_fetch e d' (build_cid (iroh_cid e) v) = Ok (Some v))"
  using iroh_docs.add_all_fetch [OF assms] .

theorem iroh_documents_retrievable_witness:
  "iroh_fetch demo_iroh_env (snd (add_all iroh_add demo_iroh_env [[1], [2, 3]] Map.empty)) [2, 3]
     = Ok (Some [2, 3])"
proof -
  obtain cids d' where run: "add_all iroh_add demo_iroh_env [[1], [2, 3]] Map.empty = (Ok cids, d')"
    by (simp add: demo_iroh_env_def iroh_add_def iroh_write_def demo_iroh_def Let_def)
  have cid: "build_cid (iroh_cid demo_iroh_env) v = v" for v
    by (simp add: build_cid_def demo_iroh_env_def demo_cid_def)
  from iroh_documents_retrievable [OF demo_iroh_env_ok run] show ?thesis
    unfolding run by (simp add: cid)
qed

text \<open>
  The same for the store on files: although it writes hexadecimal text under the text of the
  identifier, every document added is fetched back, as long as no two have the same identifier.
\<close>

lemma local_documents_retrievable:
  assumes "local_env_ok e" and "add_all local_add e vs d = (Ok cids, d')"
    and "inj_on (build_cid (local_cid e)) (set vs)"
  shows "cids = map (build_cid (local_cid e)) vs
    \<and> (\<forall>v \<in> set vs. local_fetch e d' (build_cid (local_cid e) v) = Ok (Some v))"
  using local_docs.add_all_fetch [OF assms] .

lemma local_documents_retrievable_witness:
  "local_fetch demo_local_env
     (snd (add_all local_add demo_local_env [[255], []] \<lparr>disk_files = Map.empty, disk_refuses = (\<lambda>_. False)\<rparr>)) [255]
     = Ok (Some [255])"
proof -
  let ?d = "\<lparr>disk_files = Map.empty, disk_refuses = (\<lambda>_. False)\<rparr>"
  obtain cids d' where run: "add_all local_add demo_local_env [[255], []] ?d = (Ok cids, d')"
    by (simp add: local_add_def Let_def ensure_dir_def create_dir_all_def write_to_disk_def write_file_def)
  have cid: "build_cid (local_cid demo_local_env) v = v" for v
    by (simp add: build_cid_def demo_local_env_def local_store_new_def demo_cid_def)
  from local_documents_retrievable [OF demo_local_env_ok run] show ?thesis
    unfolding run by (simp add: cid)
qed

end
