(* ===== verification/Doc_Service.thy ===== *)
theory Doc_Service
  imports Doc_Store
begin

text \<open>
  How a node joins and keeps in step, \<open>fangorn/src/node/service.rs\<close>: the document with the config,
  the hints of the nodes and the system keys; the channel through which announcements reach the
  node's state; the monitor that republishes system keys when there are new hints.
\<close>

section \<open>The world of the service\<close>

text \<open>
  The document, everything sent into the channel (\<open>tx\<close>), whether its receiver is alive, and the disk.
\<close>

record 'd net =
  net_doc :: 'd
  net_sent :: "announcement list"
  net_receiver :: bool
  net_disk :: disk

definition send_tx :: "announcement \<Rightarrow> ('d net, unit, string) action" where
  "send_tx a s =
     (if net_receiver s then (Ok (), s\<lparr>net_sent := net_sent s @ [a]\<rparr>) else (Err ''sending on a closed channel'', s))"

definition unwrap_action :: "('s, 'a, string) action \<Rightarrow> ('s, 'a, string) action" where
  "unwrap_action m s = (case m s of (r, t) \<Rightarrow> (unwrap_result r, t))"

definition in_doc :: "('d, 'a, string) action \<Rightarrow> ('d net, 'a, string) action" where
  "in_doc m s = (case m (net_doc s) of (r, d) \<Rightarrow> (r, s\<lparr>net_doc := d\<rparr>))"

definition in_disk :: "(disk, 'a, string) action \<Rightarrow> ('d net, 'a, string) action" where
  "in_disk m s = (case m (net_disk s) of (r, d) \<Rightarrow> (r, s\<lparr>net_disk := d\<rparr>))"

lemma unwrap_action_Ok [outcome_simps]: "unwrap_action m s = (Ok a, t) \<longleftrightarrow> m s = (Ok a, t)"
  by (auto simp: unwrap_action_def outcome_simps split: prod.splits)

lemma in_doc_Ok [outcome_simps]:
  "in_doc m s = (Ok a, t) \<longleftrightarrow> (\<exists>d. m (net_doc s) = (Ok a, d) \<and> t = s\<lparr>net_doc := d\<rparr>)"
  by (auto simp: in_doc_def split: prod.splits)

lemma in_disk_Ok [outcome_simps]:
  "in_disk m s = (Ok a, t) \<longleftrightarrow> (\<exists>d. m (net_disk s) = (Ok a, d) \<and> t = s\<lparr>net_disk := d\<rparr>)"
  by (auto simp: in_disk_def split: prod.splits)

lemma send_tx_Ok [outcome_simps]:
  "send_tx a s = (Ok x, t) \<longleftrightarrow> net_receiver s \<and> t = s\<lparr>net_sent := net_sent s @ [a]\<rparr>"
  by (auto simp: send_tx_def)

text \<open>The libraries the service calls.\<close>

record ('d, 'crs, 'lag, 'pk, 'sk) service_libs =
  sl_iroh :: "'d iroh_lib"
  sl_ste :: "('crs, 'lag, 'pk, 'sk) ste_lib"
  sl_ann :: "announcement codec"
  sl_hex :: hex_lib

definition service_ok :: "('d, 'crs, 'lag, 'pk, 'sk) service_libs \<Rightarrow> bool" where
  "service_ok L \<longleftrightarrow> iroh_ok (sl_iroh L) \<and> ste_ok (sl_ste L) \<and> codec_ok (sl_ann L) \<and> hex_ok (sl_hex L)"

lemma service_okD:
  assumes "service_ok L"
  shows "iroh_ok (sl_iroh L)" and "ste_ok (sl_ste L)" and "codec_ok (sl_ann L)" and "hex_ok (sl_hex L)"
  using assms by (simp_all add: service_ok_def)


section \<open>Starting and joining\<close>

definition generate_config ::
  "('d, 'crs, 'lag, 'pk, 'sk) service_libs \<Rightarrow> nat \<Rightarrow> ('d net, bytes, string) action" where
  "generate_config L n =
     bind_action (pure_action (config_rand (sl_ste L) n)) (\<lambda>config.
     bind_action (pure_action (unwrap_decoded (ser_config (sl_ste L) config))) (\<lambda>bs.
     bind_action (unwrap_action (in_disk (write_file (hex_encode (sl_hex L) bs) ''config.txt''))) (\<lambda>_.
       pure_action (Ok bs))))"

text \<open>\<open>doc_stream.set_bytes(author_default().unwrap(), key, announcement.encode())\<close>\<close>

definition publish ::
  "('d, 'crs, 'lag, 'pk, 'sk) service_libs \<Rightarrow> string \<Rightarrow> announcement \<Rightarrow> ('d net, bytes, string) action" where
  "publish L key a = in_doc (iroh_write (sl_iroh L) key (enc (sl_ann L) a))"

definition setup_document_stream ::
  "('d, 'crs, 'lag, 'pk, 'sk) service_libs \<Rightarrow> bool \<Rightarrow> string option \<Rightarrow> nat \<Rightarrow> ('d net, string, string) action" where
  "setup_document_stream L is_bootstrap ticket max_committee_size =
     (if is_bootstrap then
        bind_action (unwrap_action (generate_config L max_committee_size)) (\<lambda>config_bytes.
        bind_action (unwrap_action (in_doc (docs_create (sl_iroh L)))) (\<lambda>ticket_string.
        bind_action (unwrap_action (in_disk (write_file (as_bytes ticket_string @ [10]) ''ticket.txt''))) (\<lambda>_.
        bind_action (unwrap_action (in_doc (docs_import (sl_iroh L) ticket_string))) (\<lambda>_.
        let config_announcement = \<lparr>ann_tag = Tag_Config, ann_data = config_bytes\<rparr>
        in bind_action (unwrap_action (send_tx config_announcement)) (\<lambda>_.
           bind_action (unwrap_action (publish L CONFIG_KEY config_announcement)) (\<lambda>_.
             pure_action (Ok ticket_string)))))))
      else
        bind_action (pure_action (unwrap_result (ok_or ''Ticket required'' ticket))) (\<lambda>ticket_str.
        bind_action (unwrap_action (in_doc (docs_import (sl_iroh L) ticket_str))) (\<lambda>_.
          pure_action (Ok ticket_str))))"

text \<open>
  One entry of the document as an announcement: a missing entry is an index out of range of the
  query's result, everything else that fails is unwrapped.
\<close>

definition load_entry ::
  "('d, 'crs, 'lag, 'pk, 'sk) service_libs \<Rightarrow> string \<Rightarrow> 'd \<Rightarrow> (announcement, string) outcome" where
  "load_entry L key d =
     and_then (unwrap_result (get_one (sl_iroh L) d (as_bytes key))) (\<lambda>found.
       case found of
         None \<Rightarrow> Panic Index_Out_Of_Bounds
       | Some hash \<Rightarrow>
           and_then (unwrap_result (get_bytes (sl_iroh L) d hash)) (\<lambda>content.
           and_then (unwrap_decoded (dec (sl_ann L) content)) (\<lambda>(a, _). Ok a)))"

definition distribute :: "('d, 'crs, 'lag, 'pk, 'sk) service_libs \<Rightarrow> string \<Rightarrow> ('d net, unit, string) action" where
  "distribute L key s =
     (case load_entry L key (net_doc s) of
        Ok a \<Rightarrow> unwrap_action (send_tx a) s
      | Err e \<Rightarrow> (Err e, s)
      | Panic p \<Rightarrow> (Panic p, s))"

definition load_and_distribute_config ::
  "('d, 'crs, 'lag, 'pk, 'sk) service_libs \<Rightarrow> ('d net, unit, string) action" where
  "load_and_distribute_config L = distribute L CONFIG_KEY"

fun load_hints :: "('d, 'crs, 'lag, 'pk, 'sk) service_libs \<Rightarrow> nat list \<Rightarrow> ('d net, unit, string) action" where
  "load_hints L [] s = (Ok (), s)"
| "load_hints L (i # is) s = bind_action (distribute L (show_nat i)) (\<lambda>_. load_hints L is) s"

text \<open>The range is \<open>1..(our_index as u32)\<close>: the hint of index 0 is never loaded.\<close>

definition load_previous_hints ::
  "('d, 'crs, 'lag, 'pk, 'sk) service_libs \<Rightarrow> nat \<Rightarrow> ('d net, unit, string) action" where
  "load_previous_hints L our_index = load_hints L [1 ..< our_index mod 2 ^ 32]"

text \<open>\<open>Node::get_pk\<close>: the public key for the config of the node's state; \<open>vault_pk\<close> is the key vault.\<close>

definition get_pk ::
  "('crs \<Rightarrow> ('pk, string) outcome) \<Rightarrow> ('crs, 'lag, 'pk, 'sk) node_state \<Rightarrow> ('pk option, string) outcome" where
  "get_pk vault_pk st =
     (case st_config st of
        Some cfg \<Rightarrow> and_then (unwrap_result (vault_pk (crs cfg))) (\<lambda>pk. Ok (Some pk))
      | None \<Rightarrow> Ok None)"

definition publish_node_hint ::
  "('d, 'crs, 'lag, 'pk, 'sk) service_libs \<Rightarrow> ('crs \<Rightarrow> ('pk, string) outcome)
   \<Rightarrow> ('crs, 'lag, 'pk, 'sk) node_state \<Rightarrow> nat \<Rightarrow> ('d net, unit, string) action" where
  "publish_node_hint L vault_pk st index =
     bind_action (pure_action (and_then (get_pk vault_pk st) (\<lambda>pk. unwrap_result (ok_or ''Failed to compute public key'' pk)))) (\<lambda>pk.
     bind_action (pure_action (unwrap_decoded (ser_pk (sl_ste L) pk))) (\<lambda>pk_bytes.
     let hint_announcement = \<lparr>ann_tag = Tag_Hint, ann_data = pk_bytes\<rparr>
     in bind_action (unwrap_action (send_tx hint_announcement)) (\<lambda>_.
        bind_action (unwrap_action (publish L (show_nat index) hint_announcement)) (\<lambda>_.
          pure_action (Ok ())))))"


section \<open>Synchronization\<close>

datatype live_event = InsertRemote bytes | Other_Event

text \<open>
  The blob of a remote entry: \<open>attempts k\<close> is the result of the \<open>k\<close>th read. The first read forwards
  every announcement; a later one, up to three, does not forward documents.
\<close>

fun retry_event ::
  "('d, 'crs, 'lag, 'pk, 'sk) service_libs \<Rightarrow> (bytes, string) outcome list \<Rightarrow> ('d net, unit, string) action" where
  "retry_event L [] s = (Ok (), s)"
| "retry_event L (Ok bs # rest) s =
     (case dec (sl_ann L) bs of
        None \<Rightarrow> (Panic Unwrap_Err, s)
      | Some (a, _) \<Rightarrow> if ann_tag a \<noteq> Tag_Doc then unwrap_action (send_tx a) s else (Ok (), s))"
| "retry_event L (Err e # rest) s = retry_event L rest s"
| "retry_event L (Panic p # rest) s = (Panic p, s)"

definition sync_event ::
  "('d, 'crs, 'lag, 'pk, 'sk) service_libs \<Rightarrow> live_event \<Rightarrow> (nat \<Rightarrow> (bytes, string) outcome)
   \<Rightarrow> ('d net, unit, string) action" where
  "sync_event L ev attempts s =
     (case ev of
        Other_Event \<Rightarrow> (Ok (), s)
      | InsertRemote hash \<Rightarrow>
          (case attempts 0 of
             Ok bs \<Rightarrow>
               (case dec (sl_ann L) bs of
                  None \<Rightarrow> (Panic Unwrap_Err, s)
                | Some (a, _) \<Rightarrow> unwrap_action (send_tx a) s)
           | Err e \<Rightarrow> retry_event L (map attempts [1, 2, 3]) s
           | Panic p \<Rightarrow> (Panic p, s)))"

fun run_state_sync ::
  "('d, 'crs, 'lag, 'pk, 'sk) service_libs \<Rightarrow> (live_event \<times> (nat \<Rightarrow> (bytes, string) outcome)) list
   \<Rightarrow> ('d net, unit, string) action" where
  "run_state_sync L [] s = (Ok (), s)"
| "run_state_sync L ((ev, attempts) # evs) s =
     bind_action (sync_event L ev attempts) (\<lambda>_. run_state_sync L evs) s"


section \<open>System keys\<close>

text \<open>
  Fewer than two hints are not an error, and nothing is published. The keys go to a local file, to
  the channel and to the document; here the errors of the document are returned, not unwrapped.
\<close>

definition publish_try ::
  "('d, 'crs, 'lag, 'pk, 'sk) service_libs \<Rightarrow> string \<Rightarrow> announcement \<Rightarrow> ('d net, bytes, string) action" where
  "publish_try L key a = in_doc (\<lambda>d.
     case author_default (sl_iroh L) d of
       Ok author \<Rightarrow> set_bytes (sl_iroh L) author (as_bytes key) (enc (sl_ann L) a) d
     | Err e \<Rightarrow> (Err e, d)
     | Panic p \<Rightarrow> (Panic p, d))"

definition publish_system_keys ::
  "('d, 'crs, 'lag, 'pk, 'sk) service_libs \<Rightarrow> ('crs, 'lag, 'pk, 'sk) node_state \<Rightarrow> ('d net, unit, string) action" where
  "publish_system_keys L st =
     bind_action (pure_action (ok_or ''Config not available'' (st_config st))) (\<lambda>config.
     bind_action (pure_action (ok_or ''Hints not available'' (st_hints st))) (\<lambda>hints.
       if length hints \<le> 1 then pure_action (Ok ())
       else
         let k = 1
         in bind_action (pure_action (system_keys_new (sl_ste L) hints (crs config) (lag_polys config) k))
              (\<lambda>system_keys.
            bind_action (pure_action (ser_system_keys (sl_ste L) system_keys)) (\<lambda>bs.
            bind_action (unwrap_action (in_disk (create_dir_all ''tmp/sys''))) (\<lambda>_.
            bind_action (in_disk (write_file bs ''tmp/sys/key'')) (\<lambda>_.
            let ann = \<lparr>ann_tag = Tag_SystemKeys, ann_data = bs\<rparr>
            in bind_action (send_tx ann) (\<lambda>_.
               bind_action (publish_try L SYSTEM_KEYS_KEY ann) (\<lambda>_.
                 pure_action (Ok ())))))))))"

text \<open>One turn of the monitor's loop, with the state it finds; \<open>last_hint_count\<close> is carried along.\<close>

definition updater_tick ::
  "('d, 'crs, 'lag, 'pk, 'sk) service_libs \<Rightarrow> ('crs, 'lag, 'pk, 'sk) node_state \<Rightarrow> nat
   \<Rightarrow> ('d net, nat, string) action" where
  "updater_tick L st last_hint_count s =
     (let current_hint_count = (case st_hints st of None \<Rightarrow> 0 | Some h \<Rightarrow> length h)
      in if current_hint_count > last_hint_count then
           (case publish_system_keys L st s of
              (Ok _, s') \<Rightarrow> (Ok current_hint_count, s')
            | (Err e, s') \<Rightarrow> (Ok last_hint_count, s')
            | (Panic p, s') \<Rightarrow> (Panic p, s'))
         else (Ok last_hint_count, s))"

text \<open>
  \<open>build_full_service\<close>, as far as the document and the channel go. \<open>meanwhile k\<close> is what the rest of
  the system does during the \<open>k\<close>th wait, and \<open>view k\<close> the node's state after it, as far as the state
  task has come with the channel. Before it, the node is built and connects to its peers; after it,
  the pool watcher starts.
\<close>

definition waiting :: "('d net \<Rightarrow> 'd net) \<Rightarrow> ('d net, unit, string) action" where
  "waiting f s = (Ok (), f s)"

definition sync_service ::
  "('d, 'crs, 'lag, 'pk, 'sk) service_libs \<Rightarrow> ('crs \<Rightarrow> ('pk, string) outcome)
   \<Rightarrow> (nat \<Rightarrow> 'd net \<Rightarrow> 'd net) \<Rightarrow> (nat \<Rightarrow> 'd net \<Rightarrow> ('crs, 'lag, 'pk, 'sk) node_state)
   \<Rightarrow> bool \<Rightarrow> nat \<Rightarrow> ('d net, unit, string) action" where
  "sync_service L vault_pk meanwhile view is_bootstrap index =
     bind_action (waiting (meanwhile 0)) (\<lambda>_.
     bind_action (unwrap_action (load_and_distribute_config L)) (\<lambda>_.
     bind_action (if is_bootstrap then pure_action (Ok ()) else unwrap_action (load_previous_hints L index)) (\<lambda>_.
     bind_action (waiting (meanwhile 1)) (\<lambda>_.
     bind_action (\<lambda>s. unwrap_action (publish_node_hint L vault_pk (view 1 s) index) s) (\<lambda>_.
     if is_bootstrap then
       bind_action (waiting (meanwhile 2)) (\<lambda>_.
       bind_action (\<lambda>s. publish_system_keys L (view 2 s) s) (\<lambda>_. pure_action (Ok ())))
     else pure_action (Ok ()))))))"

definition start_service ::
  "('d, 'crs, 'lag, 'pk, 'sk) service_libs \<Rightarrow> ('crs \<Rightarrow> ('pk, string) outcome)
   \<Rightarrow> (nat \<Rightarrow> 'd net \<Rightarrow> 'd net) \<Rightarrow> (nat \<Rightarrow> 'd net \<Rightarrow> ('crs, 'lag, 'pk, 'sk) node_state)
   \<Rightarrow> bool \<Rightarrow> string option \<Rightarrow> nat \<Rightarrow> nat \<Rightarrow> ('d net, string, string) action" where
  "start_service L vault_pk meanwhile view is_bootstrap ticket max_committee_size index =
     bind_action (unwrap_action (setup_document_stream L is_bootstrap ticket max_committee_size)) (\<lambda>ticket.
     bind_action (sync_service L vault_pk meanwhile view is_bootstrap index) (\<lambda>_. pure_action (Ok ticket)))"


section \<open>Lemmas\<close>

lemma pure_Ok [outcome_simps]: "pure_action r s = (Ok a, t) \<longleftrightarrow> r = Ok a \<and> t = s"
  by auto

lemma write_file_Ok: "write_file bs path d = (Ok (), d') \<Longrightarrow> d' = d\<lparr>disk_files := (disk_files d)(path \<mapsto> bs)\<rparr>"
  by (simp add: write_file_def split: if_splits)

lemma publish_try_Ok:
  "publish_try L key a s = (Ok r, t) \<Longrightarrow>
   \<exists>x d. set_bytes (sl_iroh L) x (as_bytes key) (enc (sl_ann L) a) (net_doc s) = (Ok r, d) \<and> t = s\<lparr>net_doc := d\<rparr>"
  by (auto simp: publish_try_def outcome_simps split: outcome.splits)

lemma load_entry_reads:
  assumes "codec_ok (sl_ann L)" and "reads_as (sl_iroh L) d key (enc (sl_ann L) a)"
  shows "load_entry L key d = Ok a"
  using assms(2) codec_ok_exact [OF assms(1), of a] by (auto simp: load_entry_def reads_as_def)

lemma distribute_reads:
  assumes "codec_ok (sl_ann L)" and "reads_as (sl_iroh L) (net_doc s) key (enc (sl_ann L) a)" and "net_receiver s"
  shows "distribute L key s = (Ok (), s\<lparr>net_sent := net_sent s @ [a]\<rparr>)"
  using load_entry_reads [OF assms(1,2)] assms(3)
  by (simp add: distribute_def unwrap_action_def send_tx_def)

lemma load_hints_reads:
  assumes "codec_ok (sl_ann L)"
  shows "list_all2 (\<lambda>i a. reads_as (sl_iroh L) (net_doc s) (show_nat i) (enc (sl_ann L) a)) is as \<Longrightarrow> net_receiver s \<Longrightarrow>
    load_hints L is s = (Ok (), s\<lparr>net_sent := net_sent s @ as\<rparr>)"
proof (induction "is" arbitrary: as s)
  case (Cons i "is")
  then obtain a bs where as: "as = a # bs" and "reads_as (sl_iroh L) (net_doc s) (show_nat i) (enc (sl_ann L) a)"
    and rest: "list_all2 (\<lambda>i a. reads_as (sl_iroh L) (net_doc s) (show_nat i) (enc (sl_ann L) a)) is bs"
    by (auto simp: list_all2_Cons1)
  with distribute_reads [OF assms] Cons.prems(2)
  have "distribute L (show_nat i) s = (Ok (), s\<lparr>net_sent := net_sent s @ [a]\<rparr>)" by simp
  with Cons.IH [of "s\<lparr>net_sent := net_sent s @ [a]\<rparr>" bs] rest Cons.prems(2) as show ?case by simp
qed simp

lemma publish_Ok:
  assumes "iroh_ok (sl_iroh L)" and "publish L key a s = (Ok r, t)"
  shows "reads_as (sl_iroh L) (net_doc t) key (enc (sl_ann L) a)"
    and "k \<noteq> key \<Longrightarrow> reads_as (sl_iroh L) (net_doc s) k v \<Longrightarrow> reads_as (sl_iroh L) (net_doc t) k v"
    and "net_sent t = net_sent s" and "net_receiver t = net_receiver s"
proof -
  obtain d where "iroh_write (sl_iroh L) key (enc (sl_ann L) a) (net_doc s) = (Ok r, d)" "t = s\<lparr>net_doc := d\<rparr>"
    using assms(2) by (auto simp: publish_def outcome_simps)
  with iroh_write_Ok [OF assms(1)] show "reads_as (sl_iroh L) (net_doc t) key (enc (sl_ann L) a)"
    and "k \<noteq> key \<Longrightarrow> reads_as (sl_iroh L) (net_doc s) k v \<Longrightarrow> reads_as (sl_iroh L) (net_doc t) k v"
    and "net_sent t = net_sent s" and "net_receiver t = net_receiver s" by auto
qed

lemma publish_node_hint_Ok:
  assumes "iroh_ok (sl_iroh L)" and "publish_node_hint L vault_pk st i s = (Ok (), t)"
  shows "\<exists>cfg pk bs. st_config st = Some cfg \<and> vault_pk (crs cfg) = Ok pk \<and> ser_pk (sl_ste L) pk = Some bs
    \<and> net_sent t = net_sent s @ [\<lparr>ann_tag = Tag_Hint, ann_data = bs\<rparr>] \<and> net_receiver t
    \<and> reads_as (sl_iroh L) (net_doc t) (show_nat i) (enc (sl_ann L) \<lparr>ann_tag = Tag_Hint, ann_data = bs\<rparr>)
    \<and> (\<forall>k v. k \<noteq> show_nat i \<longrightarrow> reads_as (sl_iroh L) (net_doc s) k v \<longrightarrow> reads_as (sl_iroh L) (net_doc t) k v)"
proof -
  obtain cfg pk bs r where *: "st_config st = Some cfg" "vault_pk (crs cfg) = Ok pk" "ser_pk (sl_ste L) pk = Some bs"
    "net_receiver s"
    "publish L (show_nat i) \<lparr>ann_tag = Tag_Hint, ann_data = bs\<rparr>
       (s\<lparr>net_sent := net_sent s @ [\<lparr>ann_tag = Tag_Hint, ann_data = bs\<rparr>]\<rparr>) = (Ok r, t)"
    using assms(2)
    by (auto simp: publish_node_hint_def get_pk_def outcome_simps Let_def split: option.splits)
  with publish_Ok [OF assms(1) *(5)] show ?thesis by auto
qed

lemma config_key_not_number: "show_nat i \<noteq> CONFIG_KEY"
proof
  assume "show_nat i = CONFIG_KEY"
  then have "CHR ''c'' \<in> set (show_nat i)" by (simp add: CONFIG_KEY_def)
  with show_nat_digits [of i] show False by (auto simp: digit_value_def)
qed


section \<open>A concrete network\<close>

definition demo_service :: "(bytes \<rightharpoonup> bytes, bytes, unit, bytes, bytes list) service_libs" where
  "demo_service = \<lparr>sl_iroh = demo_iroh, sl_ste = demo_ste, sl_ann = demo_ann, sl_hex = demo_hex\<rparr>"

lemma demo_service_ok: "service_ok demo_service"
  by (simp add: service_ok_def demo_service_def demo_iroh_ok demo_ste_ok demo_ann_ok demo_hex_ok)

lemma demo_service_simps:
  "sl_ste demo_service = demo_ste" "sl_hex demo_service = demo_hex" "sl_ann demo_service = demo_ann"
  "docs_create (sl_iroh demo_service) = (\<lambda>d. (Ok ''doc'', d))"
  "docs_import (sl_iroh demo_service) = (\<lambda>ticket d. (Ok (), d))"
  "crs_new demo_ste n = Some (replicate n 7)" "lag_new demo_ste n = Some ()"
  "config_size c < 256 \<Longrightarrow> ser_config demo_ste c = Some (of_nat (config_size c) # crs c)"
  "ser_pk demo_ste k = (if k = [] then None else Some k)"
  "system_keys_new demo_ste ks cr la n = Ok ks" "ser_system_keys demo_ste ks = Ok (concat ks)"
  by (simp_all add: demo_service_def demo_iroh_def demo_ste_def)

definition demo_net :: "(bytes \<rightharpoonup> bytes) net" where
  "demo_net = \<lparr>net_doc = Map.empty, net_sent = [], net_receiver = True,
     net_disk = \<lparr>disk_files = Map.empty, disk_refuses = (\<lambda>_. False)\<rparr>\<rparr>"

definition demo_state :: "bytes list \<Rightarrow> (bytes, unit, bytes, bytes list) node_state" where
  "demo_state hs = \<lparr>st_config = Some \<lparr>crs = [7], lag_polys = (), config_size = 2\<rparr>, st_hints = Some hs,
     st_system_keys = None\<rparr>"

lemma demo_publish:
  "publish demo_service key a s = (Ok (enc demo_ann a), s\<lparr>net_doc := (net_doc s)(as_bytes key \<mapsto> enc demo_ann a)\<rparr>)"
  "publish_try demo_service key a s = (Ok (enc demo_ann a), s\<lparr>net_doc := (net_doc s)(as_bytes key \<mapsto> enc demo_ann a)\<rparr>)"
  by (simp_all add: publish_def publish_try_def in_doc_def iroh_write_def demo_service_def demo_iroh_def)


section \<open>Properties\<close>

text \<open>
  Nodes publish their hints one after the other, each with its own key vault, from the state it has
  then.
\<close>

fun publish_hints ::
  "('d, 'crs, 'lag, 'pk, 'sk) service_libs
   \<Rightarrow> (('crs \<Rightarrow> ('pk, string) outcome) \<times> ('crs, 'lag, 'pk, 'sk) node_state \<times> nat) list \<Rightarrow> ('d net, unit, string) action" where
  "publish_hints L [] s = (Ok (), s)"
| "publish_hints L ((vault_pk, st, i) # ns) s =
     bind_action (publish_node_hint L vault_pk st i) (\<lambda>_. publish_hints L ns) s"

lemma publish_hints_Ok:
  assumes "iroh_ok (sl_iroh L)"
  shows "publish_hints L ns s = (Ok (), t) \<Longrightarrow> distinct (map (\<lambda>(v, st, i). i) ns) \<Longrightarrow>
    \<exists>bss. list_all2 (\<lambda>(vault_pk, st, i) bs. \<exists>cfg pk. st_config st = Some cfg \<and> vault_pk (crs cfg) = Ok pk
         \<and> ser_pk (sl_ste L) pk = Some bs
         \<and> reads_as (sl_iroh L) (net_doc t) (show_nat i) (enc (sl_ann L) \<lparr>ann_tag = Tag_Hint, ann_data = bs\<rparr>)) ns bss
      \<and> (ns \<noteq> [] \<longrightarrow> net_receiver t)
      \<and> (\<forall>k v. k \<notin> show_nat ` (\<lambda>(v, st, i). i) ` set ns \<longrightarrow> reads_as (sl_iroh L) (net_doc s) k v \<longrightarrow>
           reads_as (sl_iroh L) (net_doc t) k v)"
proof (induction ns arbitrary: s)
  case (Cons n ns)
  obtain vp st i where n: "n = (vp, st, i)" by (cases n) auto
  with Cons.prems obtain u where head: "publish_node_hint L vp st i s = (Ok (), u)"
    and tail: "publish_hints L ns u = (Ok (), t)" by (auto simp: outcome_simps)
  from publish_node_hint_Ok [OF assms head] obtain cfg pk bs where
    h: "st_config st = Some cfg" "vp (crs cfg) = Ok pk" "ser_pk (sl_ste L) pk = Some bs" "net_receiver u"
      "reads_as (sl_iroh L) (net_doc u) (show_nat i) (enc (sl_ann L) \<lparr>ann_tag = Tag_Hint, ann_data = bs\<rparr>)"
      "\<And>k v. k \<noteq> show_nat i \<Longrightarrow> reads_as (sl_iroh L) (net_doc s) k v \<Longrightarrow> reads_as (sl_iroh L) (net_doc u) k v"
    by blast
  from Cons.IH [OF tail] Cons.prems(2) n obtain bss where
    t: "list_all2 (\<lambda>(vault_pk, st, i) bs. \<exists>cfg pk. st_config st = Some cfg \<and> vault_pk (crs cfg) = Ok pk
         \<and> ser_pk (sl_ste L) pk = Some bs
         \<and> reads_as (sl_iroh L) (net_doc t) (show_nat i) (enc (sl_ann L) \<lparr>ann_tag = Tag_Hint, ann_data = bs\<rparr>)) ns bss"
      "ns \<noteq> [] \<longrightarrow> net_receiver t"
      "\<And>k v. k \<notin> show_nat ` (\<lambda>(v, st, i). i) ` set ns \<Longrightarrow> reads_as (sl_iroh L) (net_doc u) k v \<Longrightarrow>
           reads_as (sl_iroh L) (net_doc t) k v"
    by auto
  have "show_nat i \<notin> show_nat ` (\<lambda>(v, st, i). i) ` set ns"
    using Cons.prems(2) n by (force simp: show_nat_inject)
  then have "reads_as (sl_iroh L) (net_doc t) (show_nat i) (enc (sl_ann L) \<lparr>ann_tag = Tag_Hint, ann_data = bs\<rparr>)"
    using t(3) h(5) by blast
  moreover have "net_receiver t" using h(4) t(2) tail by (cases ns) auto
  ultimately show ?case
    using h(1-3,6) t(1,3) n by (intro exI [of _ "bs # bss"]) auto
qed simp

lemma published_keys:
  assumes "list_all2 (\<lambda>(vault_pk, st, i) bs. \<exists>cfg pk. st_config st = Some cfg \<and> vault_pk (crs cfg) = Ok pk
         \<and> ser_pk S pk = Some bs \<and> P i bs) ns bss"
  shows "\<exists>pks. list_all2 (\<lambda>(vault_pk, st, i) pk. \<exists>cfg. st_config st = Some cfg \<and> vault_pk (crs cfg) = Ok pk) ns pks
      \<and> map (ser_pk S) pks = map Some bss"
  using assms
proof (induction rule: list_all2_induct)
  case (Cons x xs y ys)
  then obtain pks where "list_all2 (\<lambda>(vault_pk, st, i) pk. \<exists>cfg. st_config st = Some cfg \<and> vault_pk (crs cfg) = Ok pk) xs pks"
    "map (ser_pk S) pks = map Some ys" by blast
  moreover obtain vp st i cfg pk where "x = (vp, st, i)" "st_config st = Some cfg" "vp (crs cfg) = Ok pk"
    "ser_pk S pk = Some y" using Cons.hyps(1) by (cases x) auto
  ultimately show ?case by (intro exI [of _ "pk # pks"]) auto
qed simp

text \<open>A state that is told the serialized keys of nodes lists these keys.\<close>

lemma hint_announcements_state:
  assumes "ste_ok S" and "map (ser_pk S) pks = map Some bss" and "pks \<noteq> []"
  shows "st_hints (snd (state_task S (map (\<lambda>bs. \<lparr>ann_tag = Tag_Hint, ann_data = bs\<rparr>) bss) state_empty)) = Some pks"
proof -
  let ?as = "\<lambda>bss. map (\<lambda>bs. \<lparr>ann_tag = Tag_Hint, ann_data = bs\<rparr>) bss"
  have "map (ser_pk S) ks = map Some bs \<Longrightarrow> hints_of S (?as bs) = ks \<and> (\<forall>a \<in> set (?as bs). readable S a)" for ks bs
  proof (induction bs arbitrary: ks)
    case (Cons b bs)
    then obtain k ks' where "ks = k # ks'" "ser_pk S k = Some b" "map (ser_pk S) ks' = map Some bs"
      by (cases ks) auto
    with Cons.IH assms(1) show ?case by (simp add: readable_def ste_ok_def)
  qed simp
  from this [OF assms(2)] have "hint_list (snd (state_task S (?as bss) state_empty)) = pks"
    using state_task_readable [of "?as bss" S state_empty] by (simp add: hint_list_def state_empty_def)
  with assms(3) show ?thesis by (auto simp: hint_list_def split: option.splits)
qed

text \<open>
  The prompt node: its state task has come with the channel. \<open>build_full_service\<close> waits for it.
\<close>

definition prompt_view ::
  "('d, 'crs, 'lag, 'pk, 'sk) service_libs \<Rightarrow> nat \<Rightarrow> 'd net \<Rightarrow> ('crs, 'lag, 'pk, 'sk) node_state" where
  "prompt_view L k s = snd (state_task (sl_ste L) (net_sent s) state_empty)"

abbreviation config_ann :: "bytes \<Rightarrow> announcement" where
  "config_ann bs \<equiv> \<lparr>ann_tag = Tag_Config, ann_data = bs\<rparr>"

abbreviation hint_ann :: "bytes \<Rightarrow> announcement" where
  "hint_ann bs \<equiv> \<lparr>ann_tag = Tag_Hint, ann_data = bs\<rparr>"

lemma setup_bootstrap_Ok:
  assumes "service_ok L" and "setup_document_stream L True tk n s = (Ok ticket, s1)"
  obtains cfg bs where "config_rand (sl_ste L) n = Ok cfg" and "ser_config (sl_ste L) cfg = Some bs"
    and "net_sent s1 = net_sent s @ [config_ann bs]" and "net_receiver s1"
    and "reads_as (sl_iroh L) (net_doc s1) CONFIG_KEY (enc (sl_ann L) (config_ann bs))"
    and "disk_files (net_disk s1) ''config.txt'' = Some (hex_encode (sl_hex L) bs)"
proof -
  obtain cfg bs d1 d d2 r where *: "config_rand (sl_ste L) n = Ok cfg" "ser_config (sl_ste L) cfg = Some bs"
    "write_file (hex_encode (sl_hex L) bs) ''config.txt'' (net_disk s) = (Ok (), d1)"
    "write_file (as_bytes ticket @ [10]) ''ticket.txt'' d1 = (Ok (), d2)" "net_receiver s"
    "publish L CONFIG_KEY (config_ann bs)
       (s\<lparr>net_disk := d2, net_doc := d, net_sent := net_sent s @ [config_ann bs]\<rparr>) = (Ok r, s1)"
    using assms(2)
    by (auto simp: setup_document_stream_def generate_config_def outcome_simps Let_def)
  note pub = publish_Ok [OF service_okD(1) [OF assms(1)] *(6)]
  have "net_disk s1 = d2"
    using *(6) by (auto simp: publish_def outcome_simps)
  then have "disk_files (net_disk s1) ''config.txt'' = Some (hex_encode (sl_hex L) bs)"
    by (simp add: write_file_Ok [OF *(3)] write_file_Ok [OF *(4)])
  then show ?thesis
    using that [OF *(1,2)] pub(1,3,4) *(5) by simp
qed

lemma waiting_Ok [outcome_simps]: "waiting f s = (Ok u, t) \<longleftrightarrow> t = f s"
  by (auto simp: waiting_def)

lemma unwrap_action_run: "m s = (Ok a, t) \<Longrightarrow> unwrap_action m s = (Ok a, t)"
  by (simp add: unwrap_action_def)

lemma distribute_config_run:
  assumes "service_ok L" and "net_receiver s"
    and "reads_as (sl_iroh L) (net_doc s) CONFIG_KEY (enc (sl_ann L) a)"
  shows "load_and_distribute_config L s = (Ok (), s\<lparr>net_sent := net_sent s @ [a]\<rparr>)"
  unfolding load_and_distribute_config_def
  by (rule distribute_reads [OF service_okD(3) [OF assms(1)] assms(3,2)])

text \<open>What a start as bootstrap leaves when nobody else acts meanwhile.\<close>

lemma start_bootstrap_Ok:
  assumes "service_ok L" and "net_sent s = []"
    and "start_service L vault_pk (\<lambda>_ s. s) (prompt_view L) True tk n i s = (Ok ticket, t)"
  obtains cfg cb pk pb where "config_rand (sl_ste L) n = Ok cfg" and "ser_config (sl_ste L) cfg = Some cb"
    and "vault_pk (crs cfg) = Ok pk" and "ser_pk (sl_ste L) pk = Some pb" and "net_receiver t"
    and "net_sent t = [config_ann cb, config_ann cb, hint_ann pb]"
    and "reads_as (sl_iroh L) (net_doc t) CONFIG_KEY (enc (sl_ann L) (config_ann cb))"
proof -
  note ok = service_okD [OF assms(1)]
  obtain s1 s2 s3 where st: "setup_document_stream L True tk n s = (Ok ticket, s1)"
    "load_and_distribute_config L s1 = (Ok (), s2)"
    "publish_node_hint L vault_pk (prompt_view L 1 s2) i s2 = (Ok (), s3)"
    "publish_system_keys L (prompt_view L 2 s3) s3 = (Ok (), t)"
    using assms(3) by (auto simp: start_service_def sync_service_def outcome_simps)
  obtain cfg cb where c: "config_rand (sl_ste L) n = Ok cfg" "ser_config (sl_ste L) cfg = Some cb"
    "net_sent s1 = [config_ann cb]" "net_receiver s1"
    "reads_as (sl_iroh L) (net_doc s1) CONFIG_KEY (enc (sl_ann L) (config_ann cb))"
    by (rule setup_bootstrap_Ok [OF assms(1) st(1)]) (simp add: assms(2))
  have s2: "s2 = s1\<lparr>net_sent := [config_ann cb, config_ann cb]\<rparr>"
    using distribute_config_run [OF assms(1) c(4,5)] st(2) c(3) by simp
  have dc: "des_config (sl_ste L) cb = Some cfg"
    using ok(2) c(2) by (auto simp: ste_ok_def)
  have v1: "prompt_view L 1 s2 = \<lparr>st_config = Some cfg, st_hints = None, st_system_keys = None\<rparr>"
    by (simp add: prompt_view_def s2 state_update_def state_empty_def dc)
  obtain pk pb where h: "vault_pk (crs cfg) = Ok pk" "ser_pk (sl_ste L) pk = Some pb"
    "net_sent s3 = [config_ann cb, config_ann cb, hint_ann pb]" "net_receiver s3"
    "reads_as (sl_iroh L) (net_doc s3) CONFIG_KEY (enc (sl_ann L) (config_ann cb))"
    using publish_node_hint_Ok [OF ok(1) st(3), unfolded v1] config_key_not_number [of i] c(5)
    by (auto simp: s2)
  have dp: "des_pk (sl_ste L) pb = Some pk"
    using ok(2) h(2) by (auto simp: ste_ok_def)
  have "prompt_view L 2 s3 = \<lparr>st_config = Some cfg, st_hints = Some [pk], st_system_keys = None\<rparr>"
    by (simp add: prompt_view_def h(3) state_update_def state_empty_def dc dp)
  then have "t = s3"
    using st(4) by (simp add: publish_system_keys_def)
  with c(1,2) h that show ?thesis by simp
qed

lemma start_joining_Ok:
  assumes "service_ok L" and "net_sent s = []"
    and "start_service L vault_pk (\<lambda>_ s. s) (prompt_view L) False (Some ticket) n 1 s = (Ok ticket', t)"
    and "\<And>d. docs_import (sl_iroh L) ticket (net_doc s) = (Ok (), d) \<Longrightarrow>
           reads_as (sl_iroh L) d CONFIG_KEY (enc (sl_ann L) (config_ann cb))"
    and "des_config (sl_ste L) cb = Some cfg"
  obtains pk pb where "vault_pk (crs cfg) = Ok pk" and "ser_pk (sl_ste L) pk = Some pb"
    and "net_sent t = [config_ann cb, hint_ann pb]"
    and "reads_as (sl_iroh L) (net_doc t) (show_nat 1) (enc (sl_ann L) (hint_ann pb))"
proof -
  note ok = service_okD [OF assms(1)]
  obtain d s2 s3 where st: "docs_import (sl_iroh L) ticket (net_doc s) = (Ok (), d)"
    "load_and_distribute_config L (s\<lparr>net_doc := d\<rparr>) = (Ok (), s2)"
    "load_previous_hints L 1 s2 = (Ok (), s3)"
    "publish_node_hint L vault_pk (prompt_view L 1 s3) 1 s3 = (Ok (), t)"
    using assms(3) by (auto simp: start_service_def sync_service_def setup_document_stream_def outcome_simps)
  have s3: "s3 = s2"
    using st(3) by (simp add: load_previous_hints_def)
  have rx: "net_receiver s"
    using st(2) by (auto simp: load_and_distribute_config_def distribute_def outcome_simps split: outcome.splits)
  have "reads_as (sl_iroh L) (net_doc (s\<lparr>net_doc := d\<rparr>)) CONFIG_KEY (enc (sl_ann L) (config_ann cb))"
    using assms(4) [OF st(1)] by simp
  from distribute_config_run [OF assms(1) _ this] rx st(2)
  have s2: "s2 = s\<lparr>net_doc := d, net_sent := [config_ann cb]\<rparr>"
    by (simp add: assms(2))
  have "prompt_view L 1 s3 = \<lparr>st_config = Some cfg, st_hints = None, st_system_keys = None\<rparr>"
    by (simp add: prompt_view_def s3 s2 state_update_def state_empty_def assms(5))
  with publish_node_hint_Ok [OF ok(1) st(4)] that show ?thesis
    by (auto simp: s3 s2)
qed

text \<open>
  C5. Two nodes form a committee. When a bootstrap node and then a node that joins with its ticket have
  started, both hold the config that the bootstrap node generated; once the replica of the
  bootstrap node gets the entry the second node published, its state lists exactly the public keys
  that the two key vaults make for that config, in this order, which are the keys it publishes
  system keys for.
\<close>

theorem two_nodes_form_a_committee:
  assumes "service_ok L" and "net_sent b = []" and "net_sent j = []"
    and "start_service L vp0 (\<lambda>_ s. s) (prompt_view L) True tk n 0 b = (Ok ticket, b1)"
    and "start_service L vp1 (\<lambda>_ s. s) (prompt_view L) False (Some ticket) m 1 j = (Ok ticket', j1)"
    and "\<forall>d k v. docs_import (sl_iroh L) ticket (net_doc j) = (Ok (), d) \<longrightarrow>
           reads_as (sl_iroh L) (net_doc b1) k v \<longrightarrow> reads_as (sl_iroh L) d k v"
    and "get_one (sl_iroh L) (net_doc j1) (as_bytes (show_nat 1)) = Ok (Some h)"
    and "attempts 0 = get_bytes (sl_iroh L) (net_doc j1) h"
  shows "\<exists>cfg pk0 pk1 b2. config_rand (sl_ste L) n = Ok cfg \<and> vp0 (crs cfg) = Ok pk0 \<and> vp1 (crs cfg) = Ok pk1
    \<and> st_config (prompt_view L 1 j1) = Some cfg
    \<and> run_state_sync L [(InsertRemote h, attempts)] b1 = (Ok (), b2)
    \<and> prompt_view L 2 b2 = \<lparr>st_config = Some cfg, st_hints = Some [pk0, pk1], st_system_keys = None\<rparr>"
proof -
  note ok = service_okD [OF assms(1)]
  obtain cfg cb pk0 pb0 where b: "config_rand (sl_ste L) n = Ok cfg" "ser_config (sl_ste L) cfg = Some cb"
    "vp0 (crs cfg) = Ok pk0" "ser_pk (sl_ste L) pk0 = Some pb0" "net_receiver b1"
    "net_sent b1 = [config_ann cb, config_ann cb, hint_ann pb0]"
    "reads_as (sl_iroh L) (net_doc b1) CONFIG_KEY (enc (sl_ann L) (config_ann cb))"
    by (rule start_bootstrap_Ok [OF assms(1,2,4)])
  have dc: "des_config (sl_ste L) cb = Some cfg" and dp: "\<And>k bs. ser_pk (sl_ste L) k = Some bs \<Longrightarrow> des_pk (sl_ste L) bs = Some k"
    using ok(2) b(2) by (auto simp: ste_ok_def)
  obtain pk1 pb1 where j: "vp1 (crs cfg) = Ok pk1" "ser_pk (sl_ste L) pk1 = Some pb1"
    "net_sent j1 = [config_ann cb, hint_ann pb1]"
    "reads_as (sl_iroh L) (net_doc j1) (show_nat 1) (enc (sl_ann L) (hint_ann pb1))"
    by (rule start_joining_Ok [OF assms(1,3,5) _ dc]) (use assms(6) b(7) in blast)+
  have "attempts 0 = Ok (enc (sl_ann L) (hint_ann pb1))"
    using j(4) assms(7,8) by (auto simp: reads_as_def)
  then have sync: "run_state_sync L [(InsertRemote h, attempts)] b1
      = (Ok (), b1\<lparr>net_sent := net_sent b1 @ [hint_ann pb1]\<rparr>)"
    using b(5) by (simp add: sync_event_def codec_ok_exact [OF ok(3)] unwrap_action_def send_tx_def)
  show ?thesis
    using b(1,3) j(1) sync
    by (intro exI [of _ cfg] exI [of _ pk0] exI [of _ pk1] exI [of _ "b1\<lparr>net_sent := net_sent b1 @ [hint_ann pb1]\<rparr>"])
      (simp add: prompt_view_def b(6) j(3) state_update_def state_empty_def dc dp [OF b(4)] dp [OF j(2)])
qed

text \<open>The demonstration nodes start.\<close>

lemma demo_des:
  "des_config demo_ste [2, 7, 7] = Some \<lparr>crs = [7, 7], lag_polys = (), config_size = 2\<rparr>"
  "des_pk demo_ste [x] = Some [x]"
  by (simp_all add: demo_ste_def)

lemma demo_publish_hint:
  assumes "st_config st = Some cfg" and "net_receiver s"
  shows "publish_node_hint demo_service (\<lambda>c. Ok [x]) st i s = (Ok (), s\<lparr>net_sent := net_sent s @ [hint_ann [x]],
      net_doc := (net_doc s)(as_bytes (show_nat i) \<mapsto> enc demo_ann (hint_ann [x]))\<rparr>)"
  using assms by (simp add: publish_node_hint_def get_pk_def bind_action_def unwrap_action_def send_tx_def
      demo_publish Let_def demo_service_simps)

lemma demo_distribute:
  assumes "net_receiver s" and "net_doc s (as_bytes CONFIG_KEY) = Some (enc demo_ann a)"
  shows "load_and_distribute_config demo_service s = (Ok (), s\<lparr>net_sent := net_sent s @ [a]\<rparr>)"
  by (rule distribute_config_run [OF demo_service_ok assms(1)])
    (use assms(2) in \<open>simp add: reads_as_def demo_service_def demo_iroh_def\<close>)

lemma demo_boot:
  obtains t where "start_service demo_service (\<lambda>c. Ok [5]) (\<lambda>_ s. s) (prompt_view demo_service) True None 2 0 demo_net
      = (Ok ''doc'', t)" and "net_doc t (as_bytes CONFIG_KEY) = Some (enc demo_ann (config_ann [2, 7, 7]))"
proof -
  obtain s1 where su: "setup_document_stream demo_service True None 2 demo_net = (Ok ''doc'', s1)"
    and s1: "net_sent s1 = [config_ann [2, 7, 7]]" "net_receiver s1"
      "net_doc s1 (as_bytes CONFIG_KEY) = Some (enc demo_ann (config_ann [2, 7, 7]))"
    by (simp add: setup_document_stream_def generate_config_def config_rand_def bind_action_def unwrap_action_def
        in_disk_def in_doc_def write_file_def send_tx_def demo_publish demo_net_def Let_def demo_service_simps
        numeral_2_eq_2)
  obtain s2 where s2_def: "s2 = s1\<lparr>net_sent := [config_ann [2, 7, 7], config_ann [2, 7, 7]]\<rparr>" by blast
  have load: "load_and_distribute_config demo_service s1 = (Ok (), s2)"
    using demo_distribute [OF s1(2,3)] by (simp add: s1(1) s2_def)
  have v1: "prompt_view demo_service 1 s2 = \<lparr>st_config = Some \<lparr>crs = [7, 7], lag_polys = (), config_size = 2\<rparr>,
      st_hints = None, st_system_keys = None\<rparr>"
    by (simp add: prompt_view_def s2_def demo_service_simps state_update_def state_empty_def demo_des)
  obtain s3 where s3_def: "s3 = s2\<lparr>net_sent := net_sent s2 @ [hint_ann [5]],
      net_doc := (net_doc s2)(as_bytes (show_nat 0) \<mapsto> enc demo_ann (hint_ann [5]))\<rparr>" by blast
  have pub: "publish_node_hint demo_service (\<lambda>c. Ok [5]) (prompt_view demo_service 1 s2) 0 s2 = (Ok (), s3)"
    unfolding v1 s3_def by (rule demo_publish_hint) (simp_all add: s2_def s1(2))
  have "prompt_view demo_service 2 s3 = \<lparr>st_config = Some \<lparr>crs = [7, 7], lag_polys = (), config_size = 2\<rparr>,
      st_hints = Some [[5]], st_system_keys = None\<rparr>"
    by (simp add: prompt_view_def s3_def s2_def demo_service_simps state_update_def state_empty_def demo_des)
  then have keys: "publish_system_keys demo_service (prompt_view demo_service 2 s3) s3 = (Ok (), s3)"
    by (simp add: publish_system_keys_def bind_action_def)
  have "start_service demo_service (\<lambda>c. Ok [5]) (\<lambda>_ s. s) (prompt_view demo_service) True None 2 0 demo_net
      = (Ok ''doc'', s3)"
    using su load pub keys
    by (simp add: start_service_def sync_service_def bind_action_def waiting_def unwrap_action_def)
  moreover have "net_doc s3 (as_bytes CONFIG_KEY) = Some (enc demo_ann (config_ann [2, 7, 7]))"
    using config_key_not_number [of 0] s1(3) by (simp add: s3_def s2_def)
  ultimately show ?thesis by (rule that)
qed

lemma demo_join:
  assumes "net_doc s (as_bytes CONFIG_KEY) = Some (enc demo_ann (config_ann [2, 7, 7]))" and "net_sent s = []"
    and "net_receiver s"
  obtains t where "start_service demo_service (\<lambda>c. Ok [6]) (\<lambda>_ s. s) (prompt_view demo_service) False (Some ''doc'') 2 1 s
      = (Ok ''doc'', t)" and "net_doc t (as_bytes (show_nat 1)) = Some (enc demo_ann (hint_ann [6]))"
proof -
  have su: "setup_document_stream demo_service False (Some ''doc'') 2 s = (Ok ''doc'', s)"
    by (simp add: setup_document_stream_def bind_action_def unwrap_action_def in_doc_def demo_service_def demo_iroh_def)
  obtain s2 where s2_def: "s2 = s\<lparr>net_sent := [config_ann [2, 7, 7]]\<rparr>" by blast
  have load: "load_and_distribute_config demo_service s = (Ok (), s2)"
    using demo_distribute [OF assms(3,1)] by (simp add: assms(2) s2_def)
  have v1: "prompt_view demo_service 1 s2 = \<lparr>st_config = Some \<lparr>crs = [7, 7], lag_polys = (), config_size = 2\<rparr>,
      st_hints = None, st_system_keys = None\<rparr>"
    by (simp add: prompt_view_def s2_def demo_service_simps state_update_def state_empty_def demo_des)
  obtain s3 where s3_def: "s3 = s2\<lparr>net_sent := net_sent s2 @ [hint_ann [6]],
      net_doc := (net_doc s2)(as_bytes (show_nat 1) \<mapsto> enc demo_ann (hint_ann [6]))\<rparr>" by blast
  have pub: "publish_node_hint demo_service (\<lambda>c. Ok [6]) (prompt_view demo_service 1 s2) 1 s2 = (Ok (), s3)"
    unfolding v1 s3_def by (rule demo_publish_hint) (simp_all add: s2_def assms(3))
  have "start_service demo_service (\<lambda>c. Ok [6]) (\<lambda>_ s. s) (prompt_view demo_service) False (Some ''doc'') 2 1 s
      = (Ok ''doc'', s3)"
    using su load pub
    by (simp add: start_service_def sync_service_def bind_action_def waiting_def unwrap_action_def load_previous_hints_def)
  moreover have "net_doc s3 (as_bytes (show_nat 1)) = Some (enc demo_ann (hint_ann [6]))"
    by (simp add: s3_def s2_def)
  ultimately show ?thesis by (rule that)
qed

theorem two_nodes_form_a_committee_witness:
  "\<exists>b1 b2. start_service demo_service (\<lambda>c. Ok [5]) (\<lambda>_ s. s) (prompt_view demo_service) True None 2 0 demo_net
       = (Ok ''doc'', b1)
     \<and> run_state_sync demo_service [(InsertRemote (enc demo_ann (hint_ann [6])), \<lambda>_. Ok (enc demo_ann (hint_ann [6])))] b1 = (Ok (), b2)
     \<and> st_hints (prompt_view demo_service 2 b2) = Some [[5], [6]]"
proof -
  obtain b1 where boot: "start_service demo_service (\<lambda>c. Ok [5]) (\<lambda>_ s. s) (prompt_view demo_service) True None 2 0 demo_net
      = (Ok ''doc'', b1)" and cfg: "net_doc b1 (as_bytes CONFIG_KEY) = Some (enc demo_ann (config_ann [2, 7, 7]))"
    by (rule demo_boot)
  let ?j = "demo_net\<lparr>net_doc := net_doc b1\<rparr>"
  have j: "net_doc ?j (as_bytes CONFIG_KEY) = Some (enc demo_ann (config_ann [2, 7, 7]))" "net_sent ?j = []"
    "net_receiver ?j"
    using cfg by (simp_all add: demo_net_def)
  obtain j1 where join: "start_service demo_service (\<lambda>c. Ok [6]) (\<lambda>_ s. s) (prompt_view demo_service) False (Some ''doc'') 2 1 ?j
      = (Ok ''doc'', j1)" and hint: "net_doc j1 (as_bytes (show_nat 1)) = Some (enc demo_ann (hint_ann [6]))"
    by (rule demo_join [OF j])
  have start: "net_sent demo_net = []" by (simp add: demo_net_def)
  have import: "\<forall>d k v. docs_import (sl_iroh demo_service) ''doc'' (net_doc ?j) = (Ok (), d) \<longrightarrow>
      reads_as (sl_iroh demo_service) (net_doc b1) k v \<longrightarrow> reads_as (sl_iroh demo_service) d k v"
    by (simp add: demo_service_def demo_iroh_def)
  have get: "get_one (sl_iroh demo_service) (net_doc j1) (as_bytes (show_nat 1)) = Ok (Some (enc demo_ann (hint_ann [6])))"
    using hint by (simp add: demo_service_def demo_iroh_def)
  have "(\<lambda>_ :: nat. Ok (enc demo_ann (hint_ann [6])) :: (bytes, string) outcome) 0
      = get_bytes (sl_iroh demo_service) (net_doc j1) (enc demo_ann (hint_ann [6]))"
    by (simp add: demo_service_def demo_iroh_def)
  from two_nodes_form_a_committee [OF demo_service_ok start j(2) boot join import get this]
  obtain b2 where "run_state_sync demo_service [(InsertRemote (enc demo_ann (hint_ann [6])),
        \<lambda>_. Ok (enc demo_ann (hint_ann [6])))] b1 = (Ok (), b2)"
      "st_hints (prompt_view demo_service 2 b2) = Some [[5], [6]]"
    by auto
  with boot show ?thesis by blast
qed

text \<open>
  A node that joins learns the hints in order: after the nodes 1 to n-1 have published theirs on
  the shared document, in whatever order, node n is sent exactly these hints by index, and its
  state then lists their public keys by index. Node 0's hint is not among them.
\<close>

lemma joining_node_learns_hints:
  assumes "service_ok L" and "publish_hints L ns s = (Ok (), t)"
    and "map (\<lambda>(v, st, i). i) ns = [1 ..< n]" and "1 < n" and "n < 2 ^ 32"
  shows "\<exists>pks. list_all2 (\<lambda>(vault_pk, st, i) pk. \<exists>cfg. st_config st = Some cfg \<and> vault_pk (crs cfg) = Ok pk) ns pks
    \<and> (\<exists>bss. map (ser_pk (sl_ste L)) pks = map Some bss
        \<and> load_previous_hints L n t = (Ok (), t\<lparr>net_sent := net_sent t @ map (\<lambda>bs. \<lparr>ann_tag = Tag_Hint, ann_data = bs\<rparr>) bss\<rparr>)
        \<and> st_hints (snd (state_task (sl_ste L) (map (\<lambda>bs. \<lparr>ann_tag = Tag_Hint, ann_data = bs\<rparr>) bss) state_empty)) = Some pks)"
proof -
  note ok = service_okD [OF assms(1)]
  let ?a = "\<lambda>bs. \<lparr>ann_tag = Tag_Hint, ann_data = bs\<rparr>"
  have dist: "distinct (map (\<lambda>(v, st, i). i) ns)" by (simp add: assms(3))
  have "length ns = n - 1" using arg_cong [OF assms(3), of length] by simp
  then have ne: "ns \<noteq> []" using assms(4) by auto
  from publish_hints_Ok [OF ok(1) assms(2) dist] ne obtain bss where
    all: "list_all2 (\<lambda>(vault_pk, st, i) bs. \<exists>cfg pk. st_config st = Some cfg \<and> vault_pk (crs cfg) = Ok pk
         \<and> ser_pk (sl_ste L) pk = Some bs
         \<and> reads_as (sl_iroh L) (net_doc t) (show_nat i) (enc (sl_ann L) (?a bs))) ns bss"
    and rx: "net_receiver t" by blast
  from published_keys [OF all] obtain pks where
    pks: "list_all2 (\<lambda>(vault_pk, st, i) pk. \<exists>cfg. st_config st = Some cfg \<and> vault_pk (crs cfg) = Ok pk) ns pks"
    "map (ser_pk (sl_ste L)) pks = map Some bss" by blast
  have "list_all2 (\<lambda>i bs. reads_as (sl_iroh L) (net_doc t) (show_nat i) (enc (sl_ann L) (?a bs)))
      (map (\<lambda>(v, st, i). i) ns) bss"
    unfolding list_all2_map1 using all by (rule list_all2_mono) auto
  then have "list_all2 (\<lambda>i a. reads_as (sl_iroh L) (net_doc t) (show_nat i) (enc (sl_ann L) a)) [1 ..< n] (map ?a bss)"
    by (simp add: list_all2_map2 assms(3))
  from load_hints_reads [OF ok(3) this rx]
  have load: "load_previous_hints L n t = (Ok (), t\<lparr>net_sent := net_sent t @ map ?a bss\<rparr>)"
    using assms(5) by (simp add: load_previous_hints_def)
  have "pks \<noteq> []" using pks(1) ne by auto
  then have "st_hints (snd (state_task (sl_ste L) (map ?a bss) state_empty)) = Some pks"
    by (rule hint_announcements_state [OF ok(2) pks(2)])
  with pks load show ?thesis by blast
qed


lemma joining_node_learns_hints_witness:
  "\<exists>t. publish_hints demo_service [(\<lambda>c. Ok [5], demo_state [], 1)] demo_net = (Ok (), t)
    \<and> load_previous_hints demo_service 2 t =
        (Ok (), t\<lparr>net_sent := net_sent t @ [\<lparr>ann_tag = Tag_Hint, ann_data = [5]\<rparr>]\<rparr>)"
proof -
  obtain t where run: "publish_hints demo_service [(\<lambda>c. Ok [5], demo_state [], 1)] demo_net = (Ok (), t)"
    by (simp add: publish_node_hint_def get_pk_def bind_action_def unwrap_action_def send_tx_def demo_publish
        demo_net_def demo_state_def Let_def demo_service_simps)
  have "[1 ..< 2] = [1 :: nat]" by (simp add: numeral_2_eq_2)
  with joining_node_learns_hints [OF demo_service_ok run, of 2] show ?thesis
    unfolding run by (auto simp: list_all2_Cons1 demo_service_simps split: if_splits)
qed

text \<open>
  Publishing the system keys, on every branch that returns: without config or hints it is an
  error, with fewer than two hints nothing happens; otherwise success means that the keys made of
  exactly the hints the state lists are in the local file, in the channel and in the document, in
  the same bytes; the entries of the document under other keys stay.
\<close>

lemma system_keys_published:
  assumes "service_ok L" and "publish_system_keys L st s = (Ok (), t)"
  shows "\<exists>cfg hints. st_config st = Some cfg \<and> st_hints st = Some hints
    \<and> (if length hints \<le> 1 then t = s
       else \<exists>sk bs. system_keys_new (sl_ste L) hints (crs cfg) (lag_polys cfg) 1 = Ok sk
         \<and> ser_system_keys (sl_ste L) sk = Ok bs
         \<and> disk_files (net_disk t) ''tmp/sys/key'' = Some bs
         \<and> net_sent t = net_sent s @ [\<lparr>ann_tag = Tag_SystemKeys, ann_data = bs\<rparr>]
         \<and> load_entry L SYSTEM_KEYS_KEY (net_doc t) = Ok \<lparr>ann_tag = Tag_SystemKeys, ann_data = bs\<rparr>
         \<and> (\<forall>k v. k \<noteq> SYSTEM_KEYS_KEY \<longrightarrow> reads_as (sl_iroh L) (net_doc s) k v \<longrightarrow>
              reads_as (sl_iroh L) (net_doc t) k v))"
proof -
  note ok = service_okD [OF assms(1)]
  obtain cfg hints where ch: "st_config st = Some cfg" "st_hints st = Some hints"
    using assms(2) by (auto simp: publish_system_keys_def outcome_simps)
  show ?thesis
  proof (cases "length hints \<le> 1")
    case True
    then show ?thesis using assms(2) ch by (simp add: publish_system_keys_def bind_action_def)
  next
    case False
    let ?ann = "\<lambda>bs. \<lparr>ann_tag = Tag_SystemKeys, ann_data = bs\<rparr>"
    obtain sk bs d1 s1 r where **: "system_keys_new (sl_ste L) hints (crs cfg) (lag_polys cfg) 1 = Ok sk"
      "ser_system_keys (sl_ste L) sk = Ok bs"
      "write_file bs ''tmp/sys/key'' (net_disk s) = (Ok (), d1)"
      "s1 = s\<lparr>net_disk := d1, net_sent := net_sent s @ [?ann bs]\<rparr>"
      "publish_try L SYSTEM_KEYS_KEY (?ann bs) s1 = (Ok r, t)"
      using assms(2) ch False
      by (auto simp: publish_system_keys_def outcome_simps Let_def create_dir_all_def split: if_splits)
    then obtain a d where *: "system_keys_new (sl_ste L) hints (crs cfg) (lag_polys cfg) 1 = Ok sk"
      "ser_system_keys (sl_ste L) sk = Ok bs"
      "write_file bs ''tmp/sys/key'' (net_disk s) = (Ok (), d1)"
      "set_bytes (sl_iroh L) a (as_bytes SYSTEM_KEYS_KEY) (enc (sl_ann L) (?ann bs)) (net_doc s) = (Ok r, d)"
      "t = s\<lparr>net_disk := d1, net_sent := net_sent s @ [?ann bs], net_doc := d\<rparr>"
      using publish_try_Ok [OF **(5)] by (auto simp: **(4))
    note set = iroh_okD [OF ok(1) *(4)]
    have "disk_files (net_disk t) ''tmp/sys/key'' = Some bs"
      by (simp add: *(5) write_file_Ok [OF *(3)])
    moreover have "load_entry L SYSTEM_KEYS_KEY (net_doc t) = Ok (?ann bs)"
      using load_entry_reads [OF ok(3) set(1)] *(5) by simp
    ultimately show ?thesis
      using ch False *(1,2) set(2) by (intro exI [of _ cfg] exI [of _ hints]) (simp add: *(5))
  qed
qed

lemma system_keys_published_witness:
  "disk_files (net_disk (snd (publish_system_keys demo_service (demo_state [[1], [2]]) demo_net))) ''tmp/sys/key''
     = Some [1, 2]"
proof -
  obtain t where run: "publish_system_keys demo_service (demo_state [[1], [2]]) demo_net = (Ok (), t)"
    by (simp add: publish_system_keys_def bind_action_def unwrap_action_def in_disk_def create_dir_all_def
        write_file_def send_tx_def demo_publish demo_net_def demo_state_def Let_def demo_service_simps)
  from system_keys_published [OF demo_service_ok run] show ?thesis
    unfolding run by (auto simp: demo_state_def demo_service_simps)
qed

text \<open>
  The monitor publishes for new hints only: in one of its turns it changes nothing unless the
  state lists more hints than at its last success; after a success the count is that of the
  state, so the next turn with these hints does nothing; after a failure it will try again.
\<close>

lemma updater_only_on_new_hints:
  assumes "updater_tick L st n s = (Ok m, t)"
  shows "n \<le> m
    \<and> (length (hint_list st) \<le> n \<longrightarrow> m = n \<and> t = s)
    \<and> (n < length (hint_list st) \<longrightarrow>
        (m = length (hint_list st) \<and> publish_system_keys L st s = (Ok (), t)
           \<and> (\<forall>s'. updater_tick L st m s' = (Ok m, s')))
        \<or> (m = n \<and> (\<exists>e. publish_system_keys L st s = (Err e, t))))"
proof -
  have count: "(case st_hints st of None \<Rightarrow> 0 | Some h \<Rightarrow> length h) = length (hint_list st)"
    by (simp add: hint_list_def split: option.splits)
  show ?thesis
    using assms unfolding updater_tick_def count Let_def
    by (auto split: if_splits prod.splits outcome.splits)
qed

lemma updater_only_on_new_hints_witness:
  "updater_tick demo_service (demo_state [[1]]) 1 demo_net = (Ok 1, demo_net)"
proof -
  obtain m t where run: "updater_tick demo_service (demo_state [[1]]) 1 demo_net = (Ok m, t)"
    by (simp add: updater_tick_def demo_state_def)
  from updater_only_on_new_hints [OF run] show ?thesis
    unfolding run by (simp add: hint_list_def demo_state_def)
qed

text \<open>
  Which announcements a node forwards depends on timing: when the blob of a remote entry is
  there at the first read, a document's announcement is sent to the state like any other; when it
  comes only at a later read, within the three retries, every announcement but a document's is.
\<close>

lemma sync_drops_late_documents:
  assumes "codec_ok (sl_ann L)" and "net_receiver s" and "k \<in> {1, 2, 3}"
    and "\<forall>j < k. \<exists>e. attempts j = Err e" and "attempts k = Ok (enc (sl_ann L) a)"
    and "now 0 = Ok (enc (sl_ann L) a)"
  shows "sync_event L (InsertRemote h) now s = (Ok (), s\<lparr>net_sent := net_sent s @ [a]\<rparr>)
    \<and> sync_event L (InsertRemote h) attempts s =
        (Ok (), if ann_tag a = Tag_Doc then s else s\<lparr>net_sent := net_sent s @ [a]\<rparr>)"
proof -
  have dec: "dec (sl_ann L) (enc (sl_ann L) a) = Some (a, [])" by (rule codec_ok_exact [OF assms(1)])
  have sent: "unwrap_action (send_tx a) s = (Ok (), s\<lparr>net_sent := net_sent s @ [a]\<rparr>)"
    using assms(2) by (simp add: unwrap_action_def send_tx_def)
  have k: "k = 1 \<or> k = 2 \<or> k = 3" using assms(3) by auto
  have "0 < k" using k by auto
  then obtain e where e: "attempts 0 = Err e" using assms(4) by blast
  have "retry_event L (map attempts [1, 2, 3]) s =
      (Ok (), if ann_tag a = Tag_Doc then s else s\<lparr>net_sent := net_sent s @ [a]\<rparr>)"
    using k
  proof (elim disjE)
    assume "k = 1"
    then show ?thesis using assms(5) dec sent by simp
  next
    assume k: "k = 2"
    have "1 < k" using k by simp
    then obtain e1 where "attempts 1 = Err e1" using assms(4) by blast
    then show ?thesis using k assms(5) dec sent by simp
  next
    assume k: "k = 3"
    have "1 < k" and "2 < k" using k by simp_all
    then obtain e1 e2 where "attempts 1 = Err e1" "attempts 2 = Err e2" using assms(4) by blast
    then show ?thesis using k assms(5) dec sent by simp
  qed
  then show ?thesis using assms(6) dec sent e by (simp add: sync_event_def)
qed


definition demo_late :: "nat \<Rightarrow> (bytes, string) outcome" where
  "demo_late k = (if k = 0 then Err ''missing'' else Ok (enc demo_ann \<lparr>ann_tag = Tag_Doc, ann_data = [3]\<rparr>))"

lemma sync_drops_late_documents_witness:
  "sync_event demo_service (InsertRemote [1]) demo_late demo_net = (Ok (), demo_net)"
proof -
  let ?a = "\<lparr>ann_tag = Tag_Doc, ann_data = [3]\<rparr>"
  have "codec_ok (sl_ann demo_service)" by (simp add: demo_service_simps demo_ann_ok)
  moreover have "net_receiver demo_net" by (simp add: demo_net_def)
  moreover have "demo_late 1 = Ok (enc (sl_ann demo_service) ?a)" by (simp add: demo_late_def demo_service_simps)
  moreover have "\<forall>j < 1. \<exists>e. demo_late j = Err e" by (simp add: demo_late_def)
  ultimately show ?thesis
    using sync_drops_late_documents [of demo_service demo_net 1 demo_late ?a "\<lambda>_. Ok (enc (sl_ann demo_service) ?a)" "[1]"]
    by simp
qed

end
