(* ===== verification/Crypto_Client.thy ===== *)
theory Crypto_Client
  imports Doc_Store Intent_Store Pool_Client
begin

text \<open>
  The clients: \<open>EncryptionClient\<close> of \<open>fangorn/src/crypto/encrypt.rs\<close>, \<open>DecryptionClient\<close> of
  \<open>crypto/decrypt.rs\<close>, the two handlers of \<open>crypto/cipher.rs\<close>, and the handler of
  \<open>client/node.rs\<close> that receives partial decryptions. The threshold encryption crate is a
  parameter; the stores are the traits' operations.
\<close>

section \<open>Threshold encryption\<close>

text \<open>
  \<open>lag_positions\<close> are the positions of the public keys of an aggregate key. \<open>None\<close> is a
  (de)serialization error.
\<close>

record ('crs, 'lag, 'sk, 'ak, 'ek, 'g2, 'ct, 'pd) tenc_lib =
  te_sha256 :: "bytes \<Rightarrow> bytes"
  curve_hasher :: "bytes \<Rightarrow> (bytes \<Rightarrow> 'g2 option) option"
  aggregate_key :: "'sk \<Rightarrow> nat list \<Rightarrow> 'crs \<Rightarrow> 'lag \<Rightarrow> 'ak \<times> 'ek"
  te_encrypt :: "'ek \<Rightarrow> nat \<Rightarrow> 'crs \<Rightarrow> 'g2 \<Rightarrow> bytes \<Rightarrow> ('ct, string) outcome"
  ser_ct :: "'ct \<Rightarrow> bytes option"
  des_ct :: "bytes \<Rightarrow> 'ct option"
  ser_pd :: "'pd \<Rightarrow> bytes option"
  des_pd :: "bytes \<Rightarrow> 'pd option"
  pd_zero :: 'pd
  lag_positions :: "'ak \<Rightarrow> nat list"
  agg_dec :: "'pd list \<Rightarrow> 'ct \<Rightarrow> bool list \<Rightarrow> 'ak \<Rightarrow> 'crs \<Rightarrow> (bytes, string) outcome"

definition tenc_ok :: "('crs, 'lag, 'sk, 'ak, 'ek, 'g2, 'ct, 'pd) tenc_lib \<Rightarrow> bool" where
  "tenc_ok T \<longleftrightarrow> (\<forall>c bs. ser_ct T c = Some bs \<longrightarrow> des_ct T bs = Some c)
     \<and> (\<forall>p bs. ser_pd T p = Some bs \<longrightarrow> des_pd T bs = Some p)"


section \<open>The world of a client\<close>

text \<open>The shared document, the chain and the disk.\<close>

record ('d, 'w) world =
  world_docs :: 'd
  world_chain :: 'w
  world_disk :: disk

definition on_docs :: "('d, 'a, 'e) action \<Rightarrow> (('d, 'w) world, 'a, 'e) action" where
  "on_docs m w = (case m (world_docs w) of (r, d) \<Rightarrow> (r, w\<lparr>world_docs := d\<rparr>))"

definition on_chain :: "('w, 'a, 'e) action \<Rightarrow> (('d, 'w) world, 'a, 'e) action" where
  "on_chain m w = (case m (world_chain w) of (r, c) \<Rightarrow> (r, w\<lparr>world_chain := c\<rparr>))"

definition on_disk :: "(disk, 'a, 'e) action \<Rightarrow> (('d, 'w) world, 'a, 'e) action" where
  "on_disk m w = (case m (world_disk w) of (r, d) \<Rightarrow> (r, w\<lparr>world_disk := d\<rparr>))"

definition mapping_err :: "('e \<Rightarrow> 'f) \<Rightarrow> ('s, 'a, 'e) action \<Rightarrow> ('s, 'a, 'f) action" where
  "mapping_err f m s = (case m s of (r, t) \<Rightarrow> (map_err f r, t))"

definition expecting :: "string \<Rightarrow> ('s, 'a, 'e) action \<Rightarrow> ('s, 'a, 'f) action" where
  "expecting msg m s = (case m s of (r, t) \<Rightarrow> (expect_result msg r, t))"

definition unwrapping :: "('s, 'a, 'e) action \<Rightarrow> ('s, 'a, 'f) action" where
  "unwrapping m s = (case m s of (r, t) \<Rightarrow> (unwrap_result r, t))"

lemmas world_defs = on_docs_def on_chain_def on_disk_def mapping_err_def expecting_def unwrapping_def

lemma on_docs_Ok [outcome_simps]:
  "on_docs m w = (Ok a, w') \<longleftrightarrow> (\<exists>d. m (world_docs w) = (Ok a, d) \<and> w' = w\<lparr>world_docs := d\<rparr>)"
  by (auto simp: on_docs_def split: prod.splits)

lemma on_chain_Ok [outcome_simps]:
  "on_chain m w = (Ok a, w') \<longleftrightarrow> (\<exists>c. m (world_chain w) = (Ok a, c) \<and> w' = w\<lparr>world_chain := c\<rparr>)"
  by (auto simp: on_chain_def split: prod.splits)

lemma on_disk_Ok [outcome_simps]:
  "on_disk m w = (Ok a, w') \<longleftrightarrow> (\<exists>d. m (world_disk w) = (Ok a, d) \<and> w' = w\<lparr>world_disk := d\<rparr>)"
  by (auto simp: on_disk_def split: prod.splits)

lemma mapping_err_Ok [outcome_simps]: "mapping_err f m s = (Ok a, t) \<longleftrightarrow> m s = (Ok a, t)"
  by (auto simp: mapping_err_def outcome_simps split: prod.splits)

lemma expecting_Ok [outcome_simps]: "expecting msg m s = (Ok a, t) \<longleftrightarrow> m s = (Ok a, t)"
  by (auto simp: expecting_def outcome_simps split: prod.splits)

lemma unwrapping_Ok [outcome_simps]: "unwrapping m s = (Ok a, t) \<longleftrightarrow> m s = (Ok a, t)"
  by (auto simp: unwrapping_def outcome_simps split: prod.splits)


section \<open>The application store\<close>

record ('d, 'w, 'c, 'i) app_store =
  store_add :: "bytes \<Rightarrow> ('d, 'c, string) action"
  store_fetch :: "'d \<Rightarrow> 'c \<Rightarrow> (bytes option, string) outcome"
  store_register :: "bytes \<Rightarrow> 'c \<Rightarrow> 'i list \<Rightarrow> ('w, unit, string) action"
  store_get :: "'w \<Rightarrow> bytes \<Rightarrow> (('c \<times> 'i list) option, string) outcome"
  store_read_pt :: "string \<Rightarrow> disk \<Rightarrow> (bytes, string) outcome"
  store_write_pt :: "string \<Rightarrow> bytes \<Rightarrow> (disk, unit, string) action"

text \<open>The store that \<open>iroh_testnet_setup\<close> builds.\<close>

definition testnet_store ::
  "('c, 'd) iroh_env \<Rightarrow> ('c, 'w) intent_env \<Rightarrow> ('d, 'w, 'c, 'w intent) app_store" where
  "testnet_store E J =
     \<lparr>store_add = iroh_add E, store_fetch = iroh_fetch E, store_register = contract_register_intent J,
      store_get = contract_get_intent J, store_read_pt = read_plaintext,
      store_write_pt = write_plaintext ''tmp/plaintexts/''\<rparr>"


section \<open>Encryption\<close>

datatype encryption_error =
    Enc_DocstoreError string
  | Enc_EncryptionError string
  | Enc_IntentParsingError string
  | Enc_SerializationError

record ('crs, 'lag, 'sk, 'd, 'w, 'c) encryption_client =
  ec_config :: "('crs, 'lag) config"
  ec_system_keys :: 'sk
  ec_threshold :: u8
  ec_app_store :: "('d, 'w, 'c, 'w intent) app_store"
  ec_registry :: "'w gadget_registry"

text \<open>The config that both clients read: hexadecimal text in a file.\<close>

definition encryption_client_new ::
  "hex_lib \<Rightarrow> ('crs, 'lag, 'pk, 'sk) ste_lib \<Rightarrow> string \<Rightarrow> 'sk \<Rightarrow> ('d, 'w, 'c, 'w intent) app_store
   \<Rightarrow> 'w gadget_registry \<Rightarrow> disk \<Rightarrow> (('crs, 'lag, 'sk, 'd, 'w, 'c) encryption_client, 'e) outcome" where
  "encryption_client_new X S config_path sys_keys store R d =
     and_then (expect_result ''Failed to read config file'' (read_file ''Failed to read config file'' config_path d))
       (\<lambda>config_hex.
     and_then (expect_option ''Failed to read config file'' (from_utf8 config_hex)) (\<lambda>config_text.
     and_then (unwrap_decoded (hex_decode X (as_bytes config_text))) (\<lambda>config_bytes.
     and_then (unwrap_decoded (des_config S config_bytes)) (\<lambda>config.
       Ok \<lparr>ec_config = config, ec_system_keys = sys_keys, ec_threshold = 1, ec_app_store = store,
           ec_registry = R\<rparr>))))"

definition hash_to_g2 ::
  "('crs, 'lag, 'sk, 'ak, 'ek, 'g2, 'ct, 'pd) tenc_lib \<Rightarrow> bytes \<Rightarrow> bytes \<Rightarrow> ('g2, 'e) outcome" where
  "hash_to_g2 T message ctx =
     and_then (unwrap_decoded (curve_hasher T ctx)) (\<lambda>hasher. unwrap_decoded (hasher message))"

definition encrypt_inner ::
  "('crs, 'lag, 'sk, 'ak, 'ek, 'g2, 'ct, 'pd) tenc_lib \<Rightarrow> ('crs, 'lag, 'sk, 'd, 'w, 'c) encryption_client
   \<Rightarrow> bytes \<Rightarrow> (bytes, encryption_error) outcome" where
  "encrypt_inner T ec plaintext =
     (let commitment = te_sha256 T plaintext
      in and_then (hash_to_g2 T commitment (as_bytes ''fangorn'')) (\<lambda>gamma_g2.
         let subset = [0, unat (ec_threshold ec)];
             ek = snd (aggregate_key T (ec_system_keys ec) subset (crs (ec_config ec)) (lag_polys (ec_config ec)))
         in and_then (map_err Enc_EncryptionError
                       (te_encrypt T ek (unat (ec_threshold ec)) (crs (ec_config ec)) gamma_g2 plaintext))
              (\<lambda>ciphertext. ok_or Enc_SerializationError (ser_ct T ciphertext))))"

definition client_encrypt ::
  "('crs, 'lag, 'sk, 'ak, 'ek, 'g2, 'ct, 'pd) tenc_lib \<Rightarrow> nom_lib
   \<Rightarrow> ('crs, 'lag, 'sk, 'd, 'w, 'c) encryption_client \<Rightarrow> bytes \<Rightarrow> bytes \<Rightarrow> string
   \<Rightarrow> (('d, 'w) world, unit, encryption_error) action" where
  "client_encrypt T N ec plaintext filename raw_intent =
     bind_action (pure_action (map_err (\<lambda>e. Enc_IntentParsingError (display_intent_error e))
                    (parse_intents N (ec_registry ec) raw_intent))) (\<lambda>intents.
     bind_action (pure_action (encrypt_inner T ec plaintext)) (\<lambda>ciphertext.
     bind_action (mapping_err Enc_DocstoreError (on_docs (store_add (ec_app_store ec) ciphertext))) (\<lambda>c.
     bind_action (expecting ''An error occurred when registering intent in shared store''
                    (on_chain (store_register (ec_app_store ec) filename c intents))) (\<lambda>_.
       pure_action (Ok ())))))"

definition handle_encrypt ::
  "hex_lib \<Rightarrow> ('crs, 'lag, 'pk, 'sk) ste_lib \<Rightarrow> ('crs, 'lag, 'sk, 'ak, 'ek, 'g2, 'ct, 'pd) tenc_lib \<Rightarrow> nom_lib
   \<Rightarrow> ('d, 'w, 'c, 'w intent) app_store \<Rightarrow> 'w gadget_registry
   \<Rightarrow> string \<Rightarrow> string \<Rightarrow> string \<Rightarrow> string \<Rightarrow> 'sk \<Rightarrow> (('d, 'w) world, unit, string) action" where
  "handle_encrypt X S T N store R message_path filename config_path intent_str sys_keys w =
     bind_action (expecting ''Something went wrong while reading PT''
         (\<lambda>w. (store_read_pt store message_path (world_disk w), w))) (\<lambda>message.
     bind_action (\<lambda>w. (encryption_client_new X S config_path sys_keys store R (world_disk w), w)) (\<lambda>ec.
       unwrapping (client_encrypt T N ec message (as_bytes filename) intent_str))) w"


section \<open>Decryption requests\<close>

datatype decryption_error =
    Dec_DocstoreError string
  | Dec_IntentStoreError string
  | Dec_DecryptionError string
  | Dec_SerializationError
  | Dec_DeserializationError
  | Dec_RpcError string
  | Dec_DecodingError string
  | Dec_ConfigReadError string
  | Dec_PlaintextWriteError string
  | Dec_IntentNotFound string
  | Dec_CiphertextNotFound
  | Dec_LookupError string
  | Dec_MissingRpcAddress nat

record ('crs, 'lag, 'sk, 'd, 'w, 'c) decryption_client =
  dc_config :: "('crs, 'lag) config"
  dc_system_keys :: 'sk
  dc_threshold :: u8
  dc_app_store :: "('d, 'w, 'c, 'w intent) app_store"
  dc_pool_add :: "decryption_request \<Rightarrow> ('w, unit, string) action"
  dc_location :: "bytes option"

text \<open>
  \<open>dc_location\<close> is the JSON text of the address of the client's own endpoint.
\<close>

definition decryption_client_new ::
  "hex_lib \<Rightarrow> ('crs, 'lag, 'pk, 'sk) ste_lib \<Rightarrow> string \<Rightarrow> 'sk \<Rightarrow> ('d, 'w, 'c, 'w intent) app_store
   \<Rightarrow> (decryption_request \<Rightarrow> ('w, unit, string) action) \<Rightarrow> bytes option \<Rightarrow> disk
   \<Rightarrow> (('crs, 'lag, 'sk, 'd, 'w, 'c) decryption_client, decryption_error) outcome" where
  "decryption_client_new X S config_path sys_keys store add location d =
     (case disk_files d config_path of
        None \<Rightarrow> Err (Dec_ConfigReadError ''not found'')
      | Some config_hex \<Rightarrow>
          if disk_refuses d config_path then Err (Dec_ConfigReadError ''refused'')
          else and_then (ok_or (Dec_ConfigReadError ''not UTF-8'') (from_utf8 config_hex)) (\<lambda>config_text.
               and_then (ok_or (Dec_DecodingError config_text) (hex_decode X (as_bytes config_text))) (\<lambda>config_bytes.
               and_then (ok_or Dec_DeserializationError (des_config S config_bytes)) (\<lambda>config.
                 Ok \<lparr>dc_config = config, dc_system_keys = sys_keys, dc_threshold = 1, dc_app_store = store,
                     dc_pool_add = add, dc_location = location\<rparr>))))"

text \<open>The hexadecimal text of the SCALE encoding of the list of witnesses.\<close>

definition encode_witnesses :: "hex_lib \<Rightarrow> bytes list codec \<Rightarrow> string list \<Rightarrow> (bytes, 'e) outcome" where
  "encode_witnesses X C witnesses =
     (let witness_bytes = map as_bytes witnesses in Ok (hex_encode X (enc C witness_bytes)))"

text \<open>The result of adding the request to the pool is discarded.\<close>

definition request_decrypt ::
  "hex_lib \<Rightarrow> bytes list codec \<Rightarrow> ('crs, 'lag, 'sk, 'd, 'w, 'c) decryption_client \<Rightarrow> string \<Rightarrow> string list
   \<Rightarrow> ('w, unit, decryption_error) action" where
  "request_decrypt X C dc filename witnesses w =
     (case and_then (encode_witnesses X C witnesses) (\<lambda>witness_hex.
           and_then (unwrap_option (dc_location dc)) (\<lambda>location.
             Ok \<lparr>dr_filename = as_bytes filename, dr_witness_hex = witness_hex,
                 dr_location = OpaqueEndpointAddr location\<rparr>)) of
        Ok decryption_request \<Rightarrow>
          (case dc_pool_add dc decryption_request w of
             (Panic p, w') \<Rightarrow> (Panic p, w')
           | (_, w') \<Rightarrow> (Ok (), w'))
      | Err e \<Rightarrow> (Err e, w)
      | Panic p \<Rightarrow> (Panic p, w))"

text \<open>The witnesses of a command line: split at commas, each piece trimmed.\<close>

definition parse_witnesses :: "string \<Rightarrow> string list" where
  "parse_witnesses witness_string = map trim (split_char CHR '','' (trim witness_string))"


section \<open>Partial decryptions\<close>

text \<open>
  \<open>PartialDecryptionHandler::accept\<close>: what is read from the stream, at most one MiB, is decoded;
  the message goes to the node's channel and the bytes are echoed. The result is what is queued
  and what is sent back; the stream itself is not modelled.
\<close>

definition pd_accept ::
  "('crs, 'lag, 'sk, 'ak, 'ek, 'g2, 'ct, 'pd) tenc_lib \<Rightarrow> partial_decryption_message codec \<Rightarrow> bytes
   \<Rightarrow> ('pd raw_partial_decryption_message \<times> bytes, 'e) outcome" where
  "pd_accept T MC incoming =
     (if length incoming > 1024 * 1024 then Panic Unwrap_Err
      else and_then (unwrap_decoded (dec MC incoming)) (\<lambda>(msg, _).
           and_then (unwrap_decoded (des_pd T (pd_bytes msg))) (\<lambda>partial_decryption.
             let raw = \<lparr>raw_filename = pd_filename msg, raw_index = pd_index msg,
                        raw_partial_decryption = partial_decryption\<rparr>
             in Ok (raw, incoming))))"

text \<open>
  The task of \<open>handle_decrypt\<close> for the message it receives. It stops after the first, so \<open>idx\<close> is
  0 throughout (its \<open>saturating_add\<close> is discarded); the file is the one the message names.
\<close>

definition handle_partial ::
  "('crs, 'lag, 'sk, 'ak, 'ek, 'g2, 'ct, 'pd) tenc_lib \<Rightarrow> ('crs, 'lag, 'sk, 'd, 'w, 'c) decryption_client
   \<Rightarrow> 'pd raw_partial_decryption_message \<Rightarrow> (('d, 'w) world, unit, string) action" where
  "handle_partial T dc raw w =
     (let subset = [0, unat (dc_threshold dc)];
          ak = fst (aggregate_key T (dc_system_keys dc) subset (crs (dc_config dc)) (lag_polys (dc_config dc)));
          pks = lag_positions T ak;
          zeros = replicate (length pks) (pd_zero T)
      in if pks = [] \<or> hd pks \<ge> length zeros then (Panic Index_Out_Of_Bounds, w)
         else
           let filename = raw_filename raw;
               partial_decryptions = zeros[hd pks := raw_partial_decryption raw]
           in case
             and_then (unwrap_result (store_get (dc_app_store dc) (world_chain w) filename)) (\<lambda>found.
             and_then (unwrap_option found) (\<lambda>(c, _).
             and_then (unwrap_result (store_fetch (dc_app_store dc) (world_docs w) c)) (\<lambda>fetched.
             and_then (unwrap_option fetched) (\<lambda>ciphertext_bytes.
             and_then (unwrap_decoded (des_ct T ciphertext_bytes)) (\<lambda>ciphertext.
             let which = (replicate MAX_COMMITTEE_SIZE False)[0 := True]
             in and_then (unwrap_result (agg_dec T partial_decryptions ciphertext which ak (crs (dc_config dc))))
                  (\<lambda>plain_bytes.
                and_then (unwrap_decoded (from_utf8 filename)) (\<lambda>name. Ok (name, plain_bytes)))))))) of
             Ok (name, plain_bytes) \<Rightarrow>
               unwrapping (on_disk (store_write_pt (dc_app_store dc) name plain_bytes)) w
           | Err e \<Rightarrow> (Err e, w)
           | Panic p \<Rightarrow> (Panic p, w))"

text \<open>
  A channel of partial decryptions, as the task finds it: a message arrives, or every sender is gone,
  or nothing happens. The nodes that the program passes to \<open>handle_decrypt\<close>, those of \<open>node/node.rs\<close>, have
  always lost their sender; the other two are what the channel of another node, such as the one of
  \<open>client/node.rs\<close>, can do.
\<close>

datatype 'm pd_event = Received 'm | Disconnected | Silent

text \<open>
  \<open>handle_decrypt\<close>: \<open>received\<close> is what the channel does, a message with the world at that time. With a
  silent channel the call does not return, which is \<open>None\<close>. A task that panics, or whose channel is
  disconnected, drops its end of the one-shot channel, and the wait for it then panics.
\<close>

definition handle_decrypt ::
  "hex_lib \<Rightarrow> ('crs, 'lag, 'pk, 'sk) ste_lib \<Rightarrow> bytes list codec
   \<Rightarrow> ('crs, 'lag, 'sk, 'ak, 'ek, 'g2, 'ct, 'pd) tenc_lib \<Rightarrow> ('d, 'w, 'c, 'w intent) app_store
   \<Rightarrow> (decryption_request \<Rightarrow> ('w, unit, string) action) \<Rightarrow> bytes option
   \<Rightarrow> string \<Rightarrow> string \<Rightarrow> string \<Rightarrow> 'sk
   \<Rightarrow> (('d, 'w) world \<Rightarrow> ('pd raw_partial_decryption_message \<times> ('d, 'w) world) pd_event)
   \<Rightarrow> ('d, 'w) world \<Rightarrow> ((unit, string) outcome \<times> ('d, 'w) world) option" where
  "handle_decrypt X S C T store add location config_path filename witness_string sys_keys received w =
     (let witnesses = parse_witnesses witness_string
      in case unwrap_result (decryption_client_new X S config_path sys_keys store add location (world_disk w)) of
           Err e \<Rightarrow> Some (Err e, w)
         | Panic p \<Rightarrow> Some (Panic p, w)
         | Ok dc \<Rightarrow>
             (case on_chain (request_decrypt X C dc filename witnesses) w of
                (Ok _, w1) \<Rightarrow>
                  (case received w1 of
                     Silent \<Rightarrow> None
                   | Disconnected \<Rightarrow> Some (Panic Unwrap_Err, w1)
                   | Received (raw, w2) \<Rightarrow>
                       (case handle_partial T dc raw w2 of
                          (Ok _, w3) \<Rightarrow> Some (Ok (), w3)
                        | (_, w3) \<Rightarrow> Some (Panic Unwrap_Err, w3)))
              | (Err _, w1) \<Rightarrow> Some (Ok (), w1)
              | (Panic p, w1) \<Rightarrow> Some (Panic p, w1)))"


section \<open>Lemmas\<close>

lemma client_encrypt_Ok_iff:
  "client_encrypt T N ec pt f ri w = (Ok (), w') \<longleftrightarrow>
    (\<exists>is ct c d. parse_intents N (ec_registry ec) ri = Ok is \<and> encrypt_inner T ec pt = Ok ct
       \<and> store_add (ec_app_store ec) ct (world_docs w) = (Ok c, d)
       \<and> (\<exists>ch. store_register (ec_app_store ec) f c is (world_chain w) = (Ok (), ch)
            \<and> w' = w\<lparr>world_docs := d, world_chain := ch\<rparr>))"
proof -
  have "pure_action r s = (Ok a, t) \<longleftrightarrow> r = Ok a \<and> t = s" for r s a t by auto
  then show ?thesis by (auto simp: client_encrypt_def outcome_simps)
qed

text \<open>What a successful encryption leaves in the shared document and in the registry.\<close>

lemma client_encrypt_stores:
  assumes "iroh_env_ok E" and "intent_env_ok J" and "ec_app_store ec = testnet_store E J"
    and "client_encrypt T N ec plaintext f raw_intent w = (Ok (), w')"
  shows "\<exists>is c ct. parse_intents N (ec_registry ec) raw_intent = Ok is \<and> encrypt_inner T ec plaintext = Ok ct
    \<and> contract_get_intent J (world_chain w) f = Ok None
    \<and> contract_get_intent J (world_chain w') f = Ok (Some (c, map detach is))
    \<and> iroh_fetch E (world_docs w') c = Ok (Some ct)
    \<and> (\<forall>g. g \<noteq> f \<longrightarrow> contract_get_intent J (world_chain w') g = contract_get_intent J (world_chain w) g)"
proof -
  obtain "is" ct c d ch where *: "parse_intents N (ec_registry ec) raw_intent = Ok is"
    "encrypt_inner T ec plaintext = Ok ct" "iroh_add E ct (world_docs w) = (Ok c, d)"
    "contract_register_intent J f c is (world_chain w) = (Ok (), ch)"
    "w' = w\<lparr>world_docs := d, world_chain := ch\<rparr>"
    using assms(4) unfolding client_encrypt_Ok_iff by (auto simp: assms(3) testnet_store_def)
  have "iroh_fetch E (world_docs w') c = Ok (Some ct)"
    using iroh_docs.add_fetch [OF assms(1) *(3)] by (simp add: *(5))
  then show ?thesis
    using *(1,2) contract_intents.register_new [OF assms(2) *(4)] contract_intents.register_get [OF assms(2) *(4)]
      contract_intents.register_other [OF assms(2) *(4)]
    by (intro exI [of _ "is"] exI [of _ c] exI [of _ ct]) (simp add: *(5))
qed

lemma request_decrypt_Ok:
  assumes "dc_location dc = Some loc"
  shows "request_decrypt X C dc f ws w =
    (case dc_pool_add dc \<lparr>dr_filename = as_bytes f, dr_witness_hex = hex_encode X (enc C (map as_bytes ws)),
        dr_location = OpaqueEndpointAddr loc\<rparr> w of
       (Panic p, w') \<Rightarrow> (Panic p, w') | (_, w') \<Rightarrow> (Ok (), w'))"
  using assms by (simp add: request_decrypt_def encode_witnesses_def Let_def)

lemma pd_accept_encoded:
  assumes "codec_ok MC" and "length (enc MC m) \<le> 1024 * 1024" and "des_pd T (pd_bytes m) = Some pd"
  shows "pd_accept T MC (enc MC m) =
    Ok (\<lparr>raw_filename = pd_filename m, raw_index = pd_index m, raw_partial_decryption = pd\<rparr>, enc MC m)"
  using assms(2,3) by (simp add: pd_accept_def codec_ok_exact [OF assms(1)] Let_def)

lemma handle_partial_writes:
  assumes "lag_positions T (fst (aggregate_key T (dc_system_keys dc) [0, unat (dc_threshold dc)]
      (crs (dc_config dc)) (lag_polys (dc_config dc)))) = p # ps" and "p < length (p # ps)"
    and "store_get (dc_app_store dc) (world_chain w) (raw_filename raw) = Ok (Some (c, intents))"
    and "store_fetch (dc_app_store dc) (world_docs w) c = Ok (Some bs)" and "des_ct T bs = Some ct"
    and "agg_dec T ((replicate (length (p # ps)) (pd_zero T))[p := raw_partial_decryption raw]) ct [True, False]
      (fst (aggregate_key T (dc_system_keys dc) [0, unat (dc_threshold dc)]
      (crs (dc_config dc)) (lag_polys (dc_config dc)))) (crs (dc_config dc)) = Ok plain"
    and "from_utf8 (raw_filename raw) = Some name"
  shows "handle_partial T dc raw w = unwrapping (on_disk (store_write_pt (dc_app_store dc) name plain)) w"
proof -
  have two: "(replicate MAX_COMMITTEE_SIZE False)[0 := True] = [True, False]"
    by (simp add: MAX_COMMITTEE_SIZE_def numeral_2_eq_2)
  have "\<not> (p \<ge> length (replicate (length (p # ps)) (pd_zero T)))" using assms(2) by simp
  then show ?thesis
    unfolding handle_partial_def Let_def assms(1) list.sel two
    by (simp only: if_False assms(3-7) unwrap_result.simps unwrap_option.simps unwrap_decoded.simps and_then.simps
        prod.case outcome.case simp_thms list.distinct)
qed


section \<open>A concrete client\<close>

text \<open>For the witnesses: the concrete document, chain and disk, and a crate that reverses bytes.\<close>

definition demo_tenc :: "(bytes, unit, bytes list, unit, unit, bytes, bytes, bytes) tenc_lib" where
  "demo_tenc = \<lparr>te_sha256 = (\<lambda>bs. bs), curve_hasher = (\<lambda>ctx. Some Some), aggregate_key = (\<lambda>sk sub c l. ((), ())),
     te_encrypt = (\<lambda>ek t c g m. Ok (rev m)), ser_ct = Some, des_ct = Some, ser_pd = Some, des_pd = Some,
     pd_zero = [], lag_positions = (\<lambda>ak. [1, 0]), agg_dec = (\<lambda>pds ct which ak c. Ok (rev ct))\<rparr>"

definition demo_world :: "(bytes \<rightharpoonup> bytes, registry) world" where
  "demo_world = \<lparr>world_docs = Map.empty, world_chain = reg_new,
     world_disk = \<lparr>disk_files = Map.empty, disk_refuses = (\<lambda>_. False)\<rparr>\<rparr>"

definition demo_ec :: "(bytes, unit, bytes list, bytes \<rightharpoonup> bytes, registry, bytes) encryption_client" where
  "demo_ec = \<lparr>ec_config = \<lparr>crs = [], lag_polys = (), config_size = 2\<rparr>, ec_system_keys = [], ec_threshold = 1,
     ec_app_store = testnet_store demo_iroh_env demo_intent_env,
     ec_registry = default_registry demo_libs \<lparr>client = demo_chain, signer_account = []\<rparr>\<rparr>"

definition demo_password :: "string \<Rightarrow> registry intent" where
  "demo_password p = \<lparr>intent_type = ''Password'', statement = lib_sha256 demo_libs (as_bytes p),
     attached_gadget = Some (password_gadget (lib_sha256 demo_libs))\<rparr>"

lemma demo_parse: "parse_intents demo_nom (ec_registry demo_ec) ''Password(ab)'' = Ok [demo_password ''ab'']"
proof -
  have "parse_intent_string demo_nom (render_intents (map (Pair ''Password'') [''ab'']))
      = Ok (map (Pair ''Password'') [''ab''])"
    by (rule parse_render [OF demo_nom_ok]) (simp_all add: well_formed_password)
  then show ?thesis
    using make_password_intents [of demo_libs "\<lparr>client = demo_chain, signer_account = []\<rparr>" "[''ab'']"]
    by (simp add: parse_intents_Ok_iff render_intent_def demo_ec_def demo_password_def)
qed

lemma demo_encrypt_inner: "encrypt_inner demo_tenc demo_ec pt = Ok (rev pt)"
  by (simp add: encrypt_inner_def Let_def hash_to_g2_def demo_tenc_def)

lemma demo_registers:
  assumes "reg_read (Filename f) s = None"
  shows "\<exists>t. contract_register_intent demo_intent_env f c is s = (Ok (), t)"
proof -
  have "dec (pair_codec demo_vec demo_vec) (enc demo_vec c @ enc demo_vec p) = Some ((c, p), [])" for c p
    using codec_ok_exact [OF pair_codec_ok [OF demo_vec_ok demo_vec_ok], of "(c, p)"]
    by (simp add: pair_codec_def)
  with assms show ?thesis
    by (simp add: contract_register_intent_def demo_intent_env_def contract_store_new_def Let_def
        backend_transact transact_def demo_selector bind_action_def)
      (simp add: demo_chain_def codec_okD [OF demo_vec_ok] registry_defs reg_read_def)
qed

lemma demo_taken:
  assumes "reg_read (Filename f) s \<noteq> None"
  shows "contract_register_intent demo_intent_env f c is s = (Err ''reverted'', s)"
proof -
  have "dec (pair_codec demo_vec demo_vec) (enc demo_vec c @ enc demo_vec p) = Some ((c, p), [])" for c p
    using codec_ok_exact [OF pair_codec_ok [OF demo_vec_ok demo_vec_ok], of "(c, p)"]
    by (simp add: pair_codec_def)
  with assms show ?thesis
    by (simp add: contract_register_intent_def demo_intent_env_def contract_store_new_def Let_def
        backend_transact transact_def demo_selector bind_action_def)
      (simp add: demo_chain_def codec_okD [OF demo_vec_ok] registry_defs reg_read_def)
qed

lemma demo_add: "iroh_add demo_iroh_env v d = (Ok v, d(as_bytes (cid_to_string demo_cid v) \<mapsto>
    enc demo_ann \<lparr>ann_tag = Tag_Doc, ann_data = v\<rparr>))"
  by (simp add: iroh_add_def demo_iroh_env_def build_cid_def iroh_write_def demo_iroh_def Let_def)
    (simp add: demo_cid_def)

lemma demo_encrypts:
  "\<exists>w'. client_encrypt demo_tenc demo_nom demo_ec [1, 2] [102] ''Password(ab)'' demo_world = (Ok (), w')"
proof -
  have "reg_read (Filename [102]) (world_chain demo_world) = None"
    by (simp add: demo_world_def reg_new_def reg_read_def)
  from demo_registers [OF this, of "[2, 1]" "[demo_password ''ab'']"]
  obtain t where "contract_register_intent demo_intent_env [102] [2, 1] [demo_password ''ab''] (world_chain demo_world)
      = (Ok (), t)" by blast
  then show ?thesis
    using demo_parse demo_encrypt_inner [of "[1, 2]"]
    unfolding client_encrypt_Ok_iff by (simp add: demo_ec_def testnet_store_def demo_add)
qed


section \<open>Properties\<close>

text \<open>
  C10. A successful encryption can be found again: with the shared document and the registry contract
  behind the stores, \<open>encrypt\<close> returns \<open>Ok\<close> only when the intents parse and the name was free;
  afterwards the contract gives, for the name, an identifier and the parsed intents without
  their gadgets, the document store gives the ciphertext for that identifier, and every other
  name has the entry it had.
\<close>

theorem encrypt_can_be_found:
  assumes "iroh_env_ok E" and "intent_env_ok J" and "ec_app_store ec = testnet_store E J"
    and "client_encrypt T N ec plaintext f raw_intent w = (Ok (), w')"
  shows "\<exists>is c ct. parse_intents N (ec_registry ec) raw_intent = Ok is \<and> encrypt_inner T ec plaintext = Ok ct
    \<and> contract_get_intent J (world_chain w) f = Ok None
    \<and> contract_get_intent J (world_chain w') f = Ok (Some (c, map detach is))
    \<and> iroh_fetch E (world_docs w') c = Ok (Some ct)
    \<and> (\<forall>g. g \<noteq> f \<longrightarrow> contract_get_intent J (world_chain w') g = contract_get_intent J (world_chain w) g)"
  using client_encrypt_stores [OF assms] .

theorem encrypt_can_be_found_witness:
  "\<exists>c. contract_get_intent demo_intent_env (world_chain (snd (client_encrypt demo_tenc demo_nom demo_ec
        [1, 2] [102] ''Password(ab)'' demo_world))) [102] = Ok (Some (c, [detach (demo_password ''ab'')]))
     \<and> iroh_fetch demo_iroh_env (world_docs (snd (client_encrypt demo_tenc demo_nom demo_ec
        [1, 2] [102] ''Password(ab)'' demo_world))) c = Ok (Some [2, 1])"
proof -
  obtain w' where run: "client_encrypt demo_tenc demo_nom demo_ec [1, 2] [102] ''Password(ab)'' demo_world
      = (Ok (), w')"
    using demo_encrypts by blast
  have "ec_app_store demo_ec = testnet_store demo_iroh_env demo_intent_env" by (simp add: demo_ec_def)
  from encrypt_can_be_found [OF demo_iroh_env_ok demo_intent_env_ok this run] show ?thesis
    unfolding run by (auto simp: demo_parse demo_encrypt_inner)
qed

text \<open>
  What a failed encryption leaves behind: nothing at all when the intents do not parse or the
  encryption fails; but when the name is taken, the call panics after the ciphertext has been
  added to the shared document.
\<close>

lemma encrypt_failures:
  "(\<forall>e. parse_intents N (ec_registry ec) raw_intent = Err e \<longrightarrow>
      client_encrypt T N ec plaintext f raw_intent w = (Err (Enc_IntentParsingError (display_intent_error e)), w))
   \<and> (\<forall>is e. parse_intents N (ec_registry ec) raw_intent = Ok is \<longrightarrow> encrypt_inner T ec plaintext = Err e \<longrightarrow>
      client_encrypt T N ec plaintext f raw_intent w = (Err e, w))
   \<and> (\<forall>is ct c d e ch. parse_intents N (ec_registry ec) raw_intent = Ok is \<longrightarrow> encrypt_inner T ec plaintext = Ok ct \<longrightarrow>
      store_add (ec_app_store ec) ct (world_docs w) = (Ok c, d) \<longrightarrow>
      store_register (ec_app_store ec) f c is (world_chain w) = (Err e, ch) \<longrightarrow>
      client_encrypt T N ec plaintext f raw_intent w =
        (Panic (Expect ''An error occurred when registering intent in shared store''),
         w\<lparr>world_docs := d, world_chain := ch\<rparr>))"
  by (simp add: client_encrypt_def bind_action_def world_defs)

lemma encrypt_failures_witness:
  "fst (client_encrypt demo_tenc demo_nom demo_ec [1, 2] [102] ''Password(ab)''
      (demo_world\<lparr>world_chain := \<lparr>reg_entries = [Filename [102] \<mapsto> \<lparr>entry_cid = CID [], entry_predicate = []\<rparr>],
        reg_filenames = [Filename [102]], reg_request_pool = []\<rparr>\<rparr>))
    = Panic (Expect ''An error occurred when registering intent in shared store'')"
proof -
  let ?s = "\<lparr>reg_entries = [Filename [102] \<mapsto> \<lparr>entry_cid = CID [], entry_predicate = []\<rparr>],
        reg_filenames = [Filename [102]], reg_request_pool = []\<rparr>"
  have "reg_read (Filename [102]) ?s \<noteq> None" by (simp add: reg_read_def)
  note taken = demo_taken [OF this]
  have store: "ec_app_store demo_ec = testnet_store demo_iroh_env demo_intent_env" by (simp add: demo_ec_def)
  show ?thesis
    using encrypt_failures [of demo_nom demo_ec "''Password(ab)''" demo_tenc "[1, 2]" "[102]"
        "demo_world\<lparr>world_chain := ?s\<rparr>"]
    by (simp add: demo_parse demo_encrypt_inner store testnet_store_def demo_add taken)
qed

text \<open>
  The witnesses reach the node as they were typed: a node that decodes a request's witness gets
  one byte string per comma-separated piece of the command line, trimmed; so a witness with a
  comma or with spaces at its ends cannot be given.
\<close>

lemma witnesses_reach_the_node:
  assumes "hex_ok X" and "codec_ok C" and "dc_location dc = Some loc"
  shows "\<exists>req. request_decrypt X C dc f (parse_witnesses s) w =
      (case dc_pool_add dc req w of (Panic p, w') \<Rightarrow> (Panic p, w') | (_, w') \<Rightarrow> (Ok (), w'))
    \<and> dr_filename req = as_bytes f
    \<and> map_option (dec C) (hex_decode X (dr_witness_hex req))
        = Some (Some (map (\<lambda>p. as_bytes (trim p)) (split_char CHR '','' (trim s)), []))"
  using codec_ok_exact [OF assms(2)]
  by (intro exI [of _ "\<lparr>dr_filename = as_bytes f,
        dr_witness_hex = hex_encode X (enc C (map as_bytes (parse_witnesses s))),
        dr_location = OpaqueEndpointAddr loc\<rparr>"])
    (simp add: request_decrypt_Ok [OF assms(3)] hex_okD [OF assms(1)] parse_witnesses_def comp_def)

definition demo_dc ::
  "(decryption_request \<Rightarrow> ('w, unit, string) action) \<Rightarrow> (bytes, unit, bytes list, bytes \<rightharpoonup> bytes, 'w, bytes) decryption_client" where
  "demo_dc add = \<lparr>dc_config = \<lparr>crs = [9], lag_polys = (), config_size = 2\<rparr>, dc_system_keys = [], dc_threshold = 1,
     dc_app_store = \<lparr>store_add = (\<lambda>v d. (Err [], d)), store_fetch = (\<lambda>d c. Ok None),
       store_register = (\<lambda>f c is w. (Err [], w)), store_get = (\<lambda>w f. Ok None),
       store_read_pt = read_plaintext, store_write_pt = write_plaintext ''tmp/plaintexts/''\<rparr>,
     dc_pool_add = add, dc_location = Some [7]\<rparr>"

lemma witnesses_reach_the_node_witness:
  "\<exists>req. request_decrypt demo_hex (demo_list_codec demo_bytes_codec) (demo_dc (\<lambda>req w. (Ok (), w @ [req])))
      ''f'' (parse_witnesses '' a, b'') [] = (Ok (), [req])
    \<and> map_option (dec (demo_list_codec demo_bytes_codec)) (hex_decode demo_hex (dr_witness_hex req))
        = Some (Some ([as_bytes ''a'', as_bytes ''b''], []))"
proof -
  have "trim '' a, b'' = ''a, b''" and "trim ''a'' = ''a''" and "trim '' b'' = ''b''"
    by (simp_all add: trim_def white_space_def ascii_ws_def multibyte_ws_def starts_with_def trim_with.simps)
  then show ?thesis
    using witnesses_reach_the_node [OF demo_hex_ok demo_list_codec_ok [OF demo_bytes_codec_ok],
        of "demo_dc (\<lambda>req w. (Ok (), w @ [req]))" "[7]" "''f''" "'' a, b''" "[]"]
    by (simp add: demo_dc_def) blast
qed

text \<open>
  C26. A request whose place in the pool is taken is reported as added, and is lost. The contract
  identifies a request by the hash of its three fields written one after the other, without their
  lengths, so anyone can take the place of a request with another one that has the same bytes. When
  the pool lists such a request, \<open>request_decrypt\<close> returns \<open>Ok\<close> all the same, and in every later state
  of the pool the listing that the nodes read has the request from before, once, and no other with
  these bytes: a different request is never served, and the same one is not served a second time,
  as a watcher passes on what the list has gained.
\<close>

theorem taken_request_reported_added:
  assumes "hosts_pool P H view" and "codec_ok (pool_list P)"
    and "\<forall>call u p u'. submit_call (client (pool_backend P)) call u \<noteq> (Panic p, u')"
    and "pool_new ws = Ok s0" and "(pool_step H)\<^sup>*\<^sup>* s0 (view w)"
    and "dc_pool_add dc = ink_add P" and "dc_location dc = Some loc"
    and "ink_read_all P w = Ok reqs" and "old \<in> set reqs"
    and "hashed_bytes old = as_bytes f @ hex_encode X (enc C (map as_bytes witnesses)) @ loc"
  shows "fst (request_decrypt X C dc f witnesses w) = Ok ()
    \<and> (\<forall>v later. (pool_step H)\<^sup>*\<^sup>* (view w) (view v) \<longrightarrow> ink_read_all P v = Ok later \<longrightarrow>
         filter (\<lambda>r. hashed_bytes r = as_bytes f @ hex_encode X (enc C (map as_bytes witnesses)) @ loc) later = [old])"
proof -
  let ?req = "\<lparr>dr_filename = as_bytes f, dr_witness_hex = hex_encode X (enc C (map as_bytes witnesses)),
      dr_location = OpaqueEndpointAddr loc\<rparr>"
  have "hashed_bytes ?req = hashed_bytes old" by (simp add: assms(10)) (simp add: hashed_bytes_def)
  note taken = taken_bytes [OF assms(1,2,4,5,8,9) this]
  obtain r w' where add: "ink_add P ?req w = (r, w')" by fastforce
  moreover have "r \<noteq> Panic p" for p
    using add assms(3) by (auto simp: ink_add_def Let_def backend_transact bind_action_def split: prod.splits outcome.splits)
  ultimately have "fst (request_decrypt X C dc f witnesses w) = Ok ()"
    by (simp add: request_decrypt_Ok [OF assms(7)] assms(6) split: outcome.split)
  then show ?thesis using taken(2) by (auto simp: assms(10))
qed

text \<open>For the witness: the name and the witness of a request, written together into the second field.\<close>

definition demo_taking :: pool_request where
  "demo_taking = \<lparr>rq_filename = GenericData [], rq_witness_hex = GenericData (as_bytes ''f'' @
       hex_encode demo_hex (enc (demo_list_codec demo_bytes_codec) [as_bytes ''pw''])), rq_location = GenericData [7]\<rparr>"

theorem taken_request_reported_added_witness:
  "\<exists>w. fst (request_decrypt demo_hex (demo_list_codec demo_bytes_codec) (demo_dc (ink_add demo_ink_pool)) ''f'' [''pw''] w) = Ok ()
     \<and> ink_read_all demo_ink_pool w = Ok [from_contract demo_taking] \<and> dr_filename (from_contract demo_taking) \<noteq> as_bytes ''f''"
proof -
  let ?w = "snd (pool_add (\<lambda>b. b) 5 (rq_filename demo_taking) (rq_witness_hex demo_taking) (rq_location demo_taking) demo_pool0)"
  have step: "(pool_step (\<lambda>b. b))\<^sup>*\<^sup>* demo_pool0 ?w"
    by (rule r_into_rtranclp, rule pool_add_step)
  have list: "codec_ok (pool_list demo_ink_pool)" by (simp add: demo_ink_pool_def demo_pool_list_ok)
  have "pool_read_all ?w = [demo_taking]"
    by (simp add: pool_add_def hash_request_def demo_pool0_def pool_read_all_def List.map_filter_def Let_def)
  then have reqs: "ink_read_all demo_ink_pool ?w = Ok [from_contract demo_taking]"
    by (simp add: ink_read_all_hosted [OF demo_hosts_pool list])
  have "\<forall>call u p u'. submit_call (client (pool_backend demo_ink_pool)) call u \<noteq> (Panic p, u')"
    by (auto simp: demo_ink_pool_def demo_pool_chain_def demo_pool_submit_def split: option.splits prod.splits outcome.splits)
  note taken = taken_request_reported_added [OF demo_hosts_pool list this demo_new step, of "demo_dc (ink_add demo_ink_pool)"
      "[7]" "[from_contract demo_taking]" "from_contract demo_taking" "''f''" demo_hex
      "demo_list_codec demo_bytes_codec" "[''pw'']"]
  have "fst (request_decrypt demo_hex (demo_list_codec demo_bytes_codec) (demo_dc (ink_add demo_ink_pool)) ''f'' [''pw''] ?w) = Ok ()"
    by (rule conjunct1 [OF taken]) (simp_all add: demo_dc_def reqs, simp add: demo_taking_def request_bytes_def)
  moreover have "dr_filename (from_contract demo_taking) \<noteq> as_bytes ''f''"
    by (simp add: from_contract_def demo_taking_def as_bytes_def)
  ultimately show ?thesis using reqs by blast
qed

end
