(* ===== verification/Networking.thy ===== *)
theory Networking
  imports Doc_Service Key_Vault Crypto_Client
begin

text \<open>
  How nodes come up and find each other: \<open>Node::build\<close>, \<open>try_connect_peers\<close> of
  \<open>fangorn/src/node/node.rs\<close> and of \<open>client/node.rs\<close>, \<open>SubstrateBackend::new\<close>,
  \<open>build_full_service\<close> of \<open>node/service.rs\<close> up to the tasks it spawns, and the command line of
  \<open>fangorn/src/main.rs\<close>. The crate \<open>iroh\<close> is a parameter over a state \<open>'n\<close> of the network.
\<close>

section \<open>Endpoints\<close>

text \<open>The protocols, by the name of the constant that holds what is negotiated.\<close>

datatype alpn = PD_ALPN | BLOBS_ALPN | DOCS_ALPN | GOSSIP_ALPN

text \<open>
  \<open>accepts\<close> is what the router at an address takes connections for. A \<open>'k\<close> is a public key, an \<open>'x\<close> a
  socket address.
\<close>

record ('s, 'k, 'n, 'e, 'a, 'x) net_lib =
  mdns_build :: "'k \<Rightarrow> (unit, string) outcome"
  endpoint_bind :: "'s \<Rightarrow> 16 word \<Rightarrow> ('n, 'e, string) action"
  docs_spawn :: "'e \<Rightarrow> ('n, unit, string) action"
  router_spawn :: "'e \<Rightarrow> alpn list \<Rightarrow> 'n \<Rightarrow> 'n"
  endpoint_addr :: "'n \<Rightarrow> 'e \<Rightarrow> 'a"
  addr_id :: "'a \<Rightarrow> string"
  accepts :: "'n \<Rightarrow> 'a \<Rightarrow> alpn list"
  dial_peer :: "'e \<Rightarrow> 'a \<Rightarrow> alpn \<Rightarrow> ('n, unit, string) action"
  key_to_str :: "'k \<Rightarrow> string"
  key_of_str :: "string \<Rightarrow> 'k option"
  socket_of_str :: "string \<Rightarrow> 'x option"
  addr_new :: "'k \<Rightarrow> 'x \<Rightarrow> 'a"

text \<open>
  The documented behaviour: an endpoint's identity is the public key of the secret it was bound with,
  a router accepts the protocols it was built with, and a connection is made only for a protocol
  that the peer accepts.
\<close>

definition net_ok :: "('s, 'k, 'g) iroh_keys \<Rightarrow> ('s, 'k, 'n, 'e, 'a, 'x) net_lib \<Rightarrow> bool" where
  "net_ok K NL \<longleftrightarrow>
     (\<forall>sk port n e n' n2. endpoint_bind NL sk port n = (Ok e, n') \<longrightarrow>
        addr_id NL (endpoint_addr NL n2 e) = key_to_str NL (sk_public K sk))
     \<and> (\<forall>e ps n. accepts NL (router_spawn NL e ps n) (endpoint_addr NL (router_spawn NL e ps n) e) = ps)
     \<and> (\<forall>e a p n r n'. dial_peer NL e a p n = (r, n') \<longrightarrow>
          accepts NL n' = accepts NL n \<and> (r = Ok () \<longrightarrow> p \<in> set (accepts NL n a)))"

text \<open>The network, and what the node's service works on: the document, the channel, the disk.\<close>

record ('n, 'd) host =
  host_net :: 'n
  host_service :: "'d net"

definition in_net :: "('n, 'a, 'e) action \<Rightarrow> (('n, 'd, 'h) host_scheme, 'a, 'e) action" where
  "in_net m h = (case m (host_net h) of (r, n) \<Rightarrow> (r, h\<lparr>host_net := n\<rparr>))"

definition in_service :: "('d net, 'a, 'e) action \<Rightarrow> (('n, 'd, 'h) host_scheme, 'a, 'e) action" where
  "in_service m h = (case m (host_service h) of (r, s) \<Rightarrow> (r, h\<lparr>host_service := s\<rparr>))"

lemma in_net_Ok [outcome_simps]:
  "in_net m h = (Ok a, h') \<longleftrightarrow> (\<exists>n. m (host_net h) = (Ok a, n) \<and> h' = h\<lparr>host_net := n\<rparr>)"
  by (auto simp: in_net_def split: prod.splits)

lemma in_service_Ok [outcome_simps]:
  "in_service m h = (Ok a, h') \<longleftrightarrow> (\<exists>s. m (host_service h) = (Ok a, s) \<and> h' = h\<lparr>host_service := s\<rparr>)"
  by (auto simp: in_service_def split: prod.splits)

text \<open>
  The part the two builds share: discovery under the public key, the endpoint, the document
  protocol, and the router with its protocols.
\<close>

definition spawn_endpoint ::
  "('s, 'k, 'n, 'e, 'a, 'x) net_lib \<Rightarrow> 's \<Rightarrow> 'k \<Rightarrow> 16 word \<Rightarrow> alpn list \<Rightarrow> (('n, 'd, 'h) host_scheme, 'e, string) action" where
  "spawn_endpoint NL sk pk port protocols =
     bind_action (pure_action (unwrap_result (mdns_build NL pk))) (\<lambda>_.
     bind_action (unwrapping (in_net (endpoint_bind NL sk port))) (\<lambda>endpoint.
     bind_action (unwrapping (in_net (docs_spawn NL endpoint))) (\<lambda>_.
       in_net (\<lambda>n. (Ok endpoint, router_spawn NL endpoint protocols n)))))"


section \<open>The node of a client\<close>

text \<open>
  \<open>nd_pd_connected\<close> says whether a sender of the node's channel of partial decryptions is held once
  the node is built.
\<close>

record 'e base_node =
  nd_endpoint :: 'e
  nd_protocols :: "alpn list"
  nd_pd_connected :: bool

text \<open>\<open>esk\<close> is the ephemeral secret drawn. The handler of the first protocol holds the sender.\<close>

definition client_node_build ::
  "('s, 'k, 'g) iroh_keys \<Rightarrow> ('s, 'k, 'n, 'e, 'a, 'x) net_lib \<Rightarrow> 's \<Rightarrow> 16 word
   \<Rightarrow> (('n, 'd, 'h) host_scheme, 'e base_node, string) action" where
  "client_node_build K NL esk bind_port =
     bind_action (spawn_endpoint NL esk (sk_public K esk) bind_port [PD_ALPN, GOSSIP_ALPN, BLOBS_ALPN, DOCS_ALPN])
       (\<lambda>endpoint. pure_action (Ok \<lparr>nd_endpoint = endpoint,
          nd_protocols = [PD_ALPN, GOSSIP_ALPN, BLOBS_ALPN, DOCS_ALPN], nd_pd_connected = True\<rparr>))"


section \<open>The node of a service\<close>

record ('e, 'v, 'vh) node = "'e base_node" +
  nd_vault :: 'v
  nd_iroh_vault :: "'vh key_vault"
  nd_ste_vault :: "'vh key_vault"
  nd_vault_config :: vault_config

record ('v, 'vh, 's, 'k, 'g, 't, 'crs, 'pk, 'ct, 'pd, 'n, 'e, 'a, 'x) node_libs =
  nl_vault_open :: "string \<Rightarrow> string \<Rightarrow> ('vh \<times> 'v, string) outcome"
  nl_vault :: "('v, 'vh) vault_lib"
  nl_iroh :: "('s, 'k, 'g) iroh_keys"
  nl_ste :: "('t, 'crs, 'pk, 'ct, 'pd) ste_keys"
  nl_net :: "('s, 'k, 'n, 'e, 'a, 'x) net_lib"

text \<open>What \<open>build\<close> reads back of the iroh key it stored: the secret, then the public key.\<close>

definition read_identity ::
  "('v, 'vh) vault_lib \<Rightarrow> ('s, 'k, 'g) iroh_keys \<Rightarrow> 'vh key_vault \<Rightarrow> ('v, 's \<times> 'k, key_vault_error) action" where
  "read_identity V K iroh_vault =
     bind_action (iroh_get_secret_key V K iroh_vault) (\<lambda>sk.
     bind_action (iroh_get_public_key V K iroh_vault) (\<lambda>pk. pure_action (Ok (sk, pk))))"

text \<open>
  The sender of the channel of partial decryptions is dropped when \<open>build\<close> returns, and the protocol
  that would fill it is not among the router's.
\<close>

definition node_build ::
  "('v, 'vh, 's, 'k, 'g, 't, 'crs, 'pk, 'ct, 'pd, 'n, 'e, 'a, 'x, 'z) node_libs_scheme
   \<Rightarrow> 16 word \<Rightarrow> nat \<Rightarrow> vault_config \<Rightarrow> 's \<Rightarrow> 't \<Rightarrow> (('n, 'd, 'h) host_scheme, ('e, 'v, 'vh) node, string) action" where
  "node_build NB bind_port index cfg isk tsk =
     bind_action (pure_action (unwrap_result
         (build_keys (nl_vault_open NB) (nl_vault NB) (nl_iroh NB) (nl_ste NB) cfg index isk tsk)))
       (\<lambda>(v, iroh_vault, ste_vault).
     case read_identity (nl_vault NB) (nl_iroh NB) iroh_vault v of (identity, v') \<Rightarrow>
     bind_action (pure_action (unwrap_result identity)) (\<lambda>(sk, pk).
     bind_action (spawn_endpoint (nl_net NB) sk pk bind_port [GOSSIP_ALPN, BLOBS_ALPN, DOCS_ALPN]) (\<lambda>endpoint.
     bind_action (\<lambda>h. unwrapping (in_service (in_disk (write_file
           (as_bytes (addr_id (nl_net NB) (endpoint_addr (nl_net NB) (host_net h) endpoint)) @ [10])
           ''pubkey.txt''))) h) (\<lambda>_.
       pure_action (Ok \<lparr>nd_endpoint = endpoint, nd_protocols = [GOSSIP_ALPN, BLOBS_ALPN, DOCS_ALPN],
         nd_pd_connected = False, nd_vault = v', nd_iroh_vault = iroh_vault, nd_ste_vault = ste_vault,
         nd_vault_config = cfg\<rparr>)))))"

text \<open>The public key that \<open>get_pk\<close> makes for a config; reading it leaves the vault's keys as they are.\<close>

definition node_vault_pk ::
  "('v, 'vh, 's, 'k, 'g, 't, 'crs, 'pk, 'ct, 'pd, 'n, 'e, 'a, 'x, 'z) node_libs_scheme \<Rightarrow> ('e, 'v, 'vh) node
   \<Rightarrow> 'crs \<Rightarrow> ('pk, string) outcome" where
  "node_vault_pk NB nd common =
     unwrap_result (fst (ste_get_pk (nl_vault NB) (nl_ste NB) (nd_ste_vault nd) common (nd_vault nd)))"


text \<open>What the holder of a node finds in its channel of partial decryptions, given what the handler queues.\<close>

definition node_channel :: "('e, 'z) base_node_scheme \<Rightarrow> ('h \<Rightarrow> 'm pd_event) \<Rightarrow> 'h \<Rightarrow> 'm pd_event" where
  "node_channel nd queue h = (if nd_pd_connected nd then queue h else Disconnected)"


section \<open>Connecting to peers\<close>

text \<open>
  One connection for each protocol, unwrapped. The source binds them to local variables and keeps none
  of them: they are dropped when the function returns, so the model has no connections as state,
  only that each was made.
\<close>

definition connect_to_peer_for_multiple_protocols ::
  "('s, 'k, 'n, 'e, 'a, 'x) net_lib \<Rightarrow> 'e \<Rightarrow> 'a \<Rightarrow> ('n, unit, string) action" where
  "connect_to_peer_for_multiple_protocols NL endpoint peer_addr =
     bind_action (unwrapping (dial_peer NL endpoint peer_addr BLOBS_ALPN)) (\<lambda>_.
     bind_action (unwrapping (dial_peer NL endpoint peer_addr DOCS_ALPN)) (\<lambda>_.
       unwrapping (dial_peer NL endpoint peer_addr GOSSIP_ALPN)))"

fun connect_all :: "('s, 'k, 'n, 'e, 'a, 'x) net_lib \<Rightarrow> 'e \<Rightarrow> 'a list \<Rightarrow> ('n, unit, string) action" where
  "connect_all NL endpoint [] = pure_action (Ok ())"
| "connect_all NL endpoint (peer # peers) =
     bind_action (connect_to_peer_for_multiple_protocols NL endpoint peer) (\<lambda>_. connect_all NL endpoint peers)"

definition try_connect_peers ::
  "('s, 'k, 'n, 'e, 'a, 'x) net_lib \<Rightarrow> 'e \<Rightarrow> 'a list option \<Rightarrow> ('n, unit, string) action" where
  "try_connect_peers NL endpoint peers =
     (case peers of
        Some bootstrap \<Rightarrow> connect_all NL endpoint bootstrap
      | None \<Rightarrow> pure_action (Ok ()))"


text \<open>The node of a client has its own copies of the three functions.\<close>

definition client_connect_to_peer ::
  "('s, 'k, 'n, 'e, 'a, 'x) net_lib \<Rightarrow> 'e base_node \<Rightarrow> 'a \<Rightarrow> ('n, unit, string) action" where
  "client_connect_to_peer NL nd peer_addr =
     bind_action (unwrapping (dial_peer NL (nd_endpoint nd) peer_addr BLOBS_ALPN)) (\<lambda>_.
     bind_action (unwrapping (dial_peer NL (nd_endpoint nd) peer_addr DOCS_ALPN)) (\<lambda>_.
       unwrapping (dial_peer NL (nd_endpoint nd) peer_addr GOSSIP_ALPN)))"

fun client_connect_all :: "('s, 'k, 'n, 'e, 'a, 'x) net_lib \<Rightarrow> 'e base_node \<Rightarrow> 'a list \<Rightarrow> ('n, unit, string) action" where
  "client_connect_all NL nd [] = pure_action (Ok ())"
| "client_connect_all NL nd (peer # peers) =
     bind_action (client_connect_to_peer NL nd peer) (\<lambda>_. client_connect_all NL nd peers)"

definition client_try_connect_peers ::
  "('s, 'k, 'n, 'e, 'a, 'x) net_lib \<Rightarrow> 'e base_node \<Rightarrow> 'a list option \<Rightarrow> ('n, unit, string) action" where
  "client_try_connect_peers NL nd peers =
     (case peers of
        Some bootstrap \<Rightarrow> client_connect_all NL nd bootstrap
      | None \<Rightarrow> pure_action (Ok ()))"

lemma client_connects_alike:
  "client_connect_to_peer NL nd a = connect_to_peer_for_multiple_protocols NL (nd_endpoint nd) a"
  "client_connect_all NL nd peers = connect_all NL (nd_endpoint nd) peers"
  "client_try_connect_peers NL nd ps = try_connect_peers NL (nd_endpoint nd) ps"
proof -
  show one: "client_connect_to_peer NL nd a = connect_to_peer_for_multiple_protocols NL (nd_endpoint nd) a" for a
    by (simp add: client_connect_to_peer_def connect_to_peer_for_multiple_protocols_def)
  show all_peers: "client_connect_all NL nd peers = connect_all NL (nd_endpoint nd) peers" for peers
    by (induction peers) (simp_all add: one)
  show "client_try_connect_peers NL nd ps = try_connect_peers NL (nd_endpoint nd) ps"
    by (simp add: client_try_connect_peers_def try_connect_peers_def all_peers split: option.split)
qed


section \<open>The chain backend of a node\<close>

text \<open>
  \<open>connected\<close> is the client that \<open>OnlineClient::from_url\<close> gives, \<open>account\<close> the bytes of an account, and
  \<open>vault_open\<close> opens or creates the vault of a directory.
\<close>

definition substrate_backend_new ::
  "(string \<Rightarrow> string \<Rightarrow> ('vh \<times> 'v, string) outcome) \<Rightarrow> ('v, 'vh) vault_lib \<Rightarrow> ('p, 'ak, 'sg) pair_lib \<Rightarrow> ('ak \<Rightarrow> bytes)
   \<Rightarrow> ('w substrate_client, string) outcome \<Rightarrow> vault_config \<Rightarrow> ('w substrate_backend, string) outcome" where
  "substrate_backend_new vault_open V P account connected cfg =
     and_then connected (\<lambda>chain.
     and_then (unwrap_option (vc_vault_pswd cfg)) (\<lambda>vp.
     and_then (unwrap_result (vault_open (vc_vault_dir cfg) vp)) (\<lambda>(vault, v).
     and_then (unwrap_option (vc_substrate_pswd cfg)) (\<lambda>kp.
       case signer_new V P (sr25519_new_store_info vault vp (vc_substrate_name cfg) kp) v of (r, _) \<Rightarrow>
         and_then (unwrap_result r) (\<lambda>(account_id, _).
           Ok \<lparr>client = chain, signer_account = account account_id\<rparr>)))))"


section \<open>The full service\<close>

record 'a service_config =
  sc_bind_port :: "16 word"
  sc_rpc_port :: "16 word"
  sc_index :: nat
  sc_is_bootstrap :: bool
  sc_ticket :: "string option"
  sc_bootstrap_peers :: "'a list option"
  sc_predicate_registry_contract_addr :: string
  sc_request_pool_contract_addr :: string

definition build_bootstrap_peers ::
  "('s, 'k, 'n, 'e, 'a, 'x) net_lib \<Rightarrow> string option \<Rightarrow> string option \<Rightarrow> ('a list option, string) outcome" where
  "build_bootstrap_peers NL pubkey ip =
     (case (pubkey, ip) of
        (Some pubkey_str, Some ip_str) \<Rightarrow>
          and_then (unwrap_option (key_of_str NL pubkey_str)) (\<lambda>pubkey.
          and_then (unwrap_option (socket_of_str NL ip_str)) (\<lambda>socket.
            Ok (Some [addr_new NL pubkey socket])))
      | _ \<Rightarrow> Ok None)"

record ('e, 'v, 'vh) service_handle =
  sh_node :: "('e, 'v, 'vh) node"
  sh_ticket :: string

text \<open>
  \<open>se_reopen\<close> opens the vaults again for the signer. \<open>se_meanwhile\<close> and \<open>se_view\<close> are what the rest of the
  system does during the waits and what the state task has applied after them.
\<close>

record ('v, 'vh, 's, 'k, 'g, 't, 'crs, 'pk, 'ct, 'pd, 'n, 'e, 'a, 'x, 'p, 'ak, 'sg, 'w, 'd, 'lag, 'sk) service_env =
  "('v, 'vh, 's, 'k, 'g, 't, 'crs, 'pk, 'ct, 'pd, 'n, 'e, 'a, 'x) node_libs" +
  se_pairs :: "('p, 'ak, 'sg) pair_lib"
  se_account :: "'ak \<Rightarrow> bytes"
  se_reopen :: "string \<Rightarrow> string \<Rightarrow> ('vh \<times> 'v, string) outcome"
  se_chain :: "('w substrate_client, string) outcome"
  se_service :: "('d, 'crs, 'lag, 'pk, 'sk) service_libs"
  se_meanwhile :: "nat \<Rightarrow> 'd net \<Rightarrow> 'd net"
  se_view :: "nat \<Rightarrow> 'd net \<Rightarrow> ('crs, 'lag, 'pk, 'sk) node_state"

text \<open>
  The tasks that the service spawns, for the state, the document, the system keys and the pool, are
  the subject of the other theories; \<open>isk\<close> and \<open>tsk\<close> are the keys drawn.
\<close>

definition build_full_service ::
  "('v, 'vh, 's, 'k, 'g, 't, 'crs, 'pk, 'ct, 'pd, 'n, 'e, 'a, 'x, 'p, 'ak, 'sg, 'w, 'd, 'lag, 'sk) service_env
   \<Rightarrow> 's \<Rightarrow> 't \<Rightarrow> 'a service_config \<Rightarrow> nat \<Rightarrow> vault_config
   \<Rightarrow> (('n, 'd, 'h) host_scheme, ('e, 'v, 'vh) service_handle, string) action" where
  "build_full_service S isk tsk config max_committee_size vault_config =
     bind_action (node_build S (sc_bind_port config) (sc_index config) vault_config isk tsk) (\<lambda>nd.
     bind_action (unwrapping (in_net (try_connect_peers (nl_net S) (nd_endpoint nd) (sc_bootstrap_peers config)))) (\<lambda>_.
     bind_action (unwrapping (in_service (setup_document_stream (se_service S) (sc_is_bootstrap config)
         (sc_ticket config) max_committee_size))) (\<lambda>ticket.
     bind_action (pure_action (substrate_backend_new (se_reopen S) (nl_vault S) (se_pairs S) (se_account S)
         (se_chain S) vault_config)) (\<lambda>_.
     bind_action (unwrapping (in_service (in_doc (docs_import (sl_iroh (se_service S)) ticket)))) (\<lambda>_.
     bind_action (in_service (sync_service (se_service S) (node_vault_pk S nd) (se_meanwhile S) (se_view S)
         (sc_is_bootstrap config) (sc_index config))) (\<lambda>_.
       pure_action (Ok \<lparr>sh_node = nd, sh_ticket = ticket\<rparr>)))))))"


section \<open>The command line of a node\<close>

record run_args =
  ra_bind_port :: "16 word"
  ra_rpc_port :: "16 word"
  ra_index :: nat
  ra_is_bootstrap :: bool
  ra_ticket :: string
  ra_predicate_registry_contract_addr :: string
  ra_request_pool_contract_addr :: string
  ra_bootstrap_pubkey :: "string option"
  ra_bootstrap_ip :: "string option"
  ra_vault_dir :: string
  ra_vault_pswd :: "string option"
  ra_iroh_key_pswd :: "string option"
  ra_ste_key_pswd :: "string option"
  ra_substrate_name :: string
  ra_substrate_pswd :: "string option"

datatype fangorn_command = Setup_Command string | Run_Command run_args

definition run_service_config ::
  "('s, 'k, 'n, 'e, 'a, 'x) net_lib \<Rightarrow> run_args \<Rightarrow> ('a service_config, string) outcome" where
  "run_service_config NL a =
     and_then (build_bootstrap_peers NL (ra_bootstrap_pubkey a) (ra_bootstrap_ip a)) (\<lambda>peers.
       Ok \<lparr>sc_bind_port = ra_bind_port a, sc_rpc_port = ra_rpc_port a, sc_index = ra_index a,
           sc_is_bootstrap = ra_is_bootstrap a,
           sc_ticket = (if ra_ticket a = [] then None else Some (ra_ticket a)),
           sc_bootstrap_peers = peers,
           sc_predicate_registry_contract_addr = ra_predicate_registry_contract_addr a,
           sc_request_pool_contract_addr = ra_request_pool_contract_addr a\<rparr>)"

definition run_vault_config :: "run_args \<Rightarrow> vault_config" where
  "run_vault_config a = \<lparr>vc_vault_dir = ra_vault_dir a, vc_substrate_name = ra_substrate_name a,
     vc_vault_pswd = ra_vault_pswd a, vc_iroh_key_pswd = ra_iroh_key_pswd a,
     vc_ste_key_pswd = ra_ste_key_pswd a, vc_substrate_pswd = ra_substrate_pswd a\<rparr>"

text \<open>Until the interrupt is awaited: the handle of the service, if one was started.\<close>

definition fangorn_main ::
  "('v, 'vh, 's, 'k, 'g, 't, 'crs, 'pk, 'ct, 'pd, 'n, 'e, 'a, 'x, 'p, 'ak, 'sg, 'w, 'd, 'lag, 'sk) service_env
   \<Rightarrow> 's \<Rightarrow> 't \<Rightarrow> fangorn_command option \<Rightarrow> (('n, 'd, 'h) host_scheme, ('e, 'v, 'vh) service_handle option, string) action" where
  "fangorn_main S isk tsk command =
     (case command of
        Some (Setup_Command out_dir) \<Rightarrow> pure_action (Ok None)
      | Some (Run_Command a) \<Rightarrow>
          bind_action (pure_action (run_service_config (nl_net S) a)) (\<lambda>config.
          bind_action (build_full_service S isk tsk config MAX_COMMITTEE_SIZE (run_vault_config a)) (\<lambda>handle.
            pure_action (Ok (Some handle))))
      | None \<Rightarrow> pure_action (Ok None))"


section \<open>Lemmas\<close>

lemma net_okD:
  assumes "net_ok K NL"
  shows "endpoint_bind NL sk port n = (Ok e, n') \<Longrightarrow> addr_id NL (endpoint_addr NL n2 e) = key_to_str NL (sk_public K sk)"
    and "accepts NL (router_spawn NL e ps n) (endpoint_addr NL (router_spawn NL e ps n) e) = ps"
    and "dial_peer NL e a p n = (r, n') \<Longrightarrow> accepts NL n' = accepts NL n"
    and "dial_peer NL e a p n = (Ok (), n') \<Longrightarrow> p \<in> set (accepts NL n a)"
  using assms unfolding net_ok_def by blast+

lemma spawn_endpoint_Ok:
  assumes "net_ok K NL" and "spawn_endpoint NL sk pk port ps h = (Ok e, h')"
  shows "accepts NL (host_net h') (endpoint_addr NL (host_net h') e) = ps"
    and "addr_id NL (endpoint_addr NL n e) = key_to_str NL (sk_public K sk)"
    and "host_service h' = host_service h"
  using assms(2) net_okD [OF assms(1)] by (auto simp: spawn_endpoint_def outcome_simps)

text \<open>The node is made of the keys drawn, and accepts three protocols.\<close>

lemma node_build_Ok:
  assumes "vault_ok (nl_vault NB)" and "iroh_keys_ok (nl_iroh NB)" and "ste_keys_ok (nl_ste NB)"
    and "net_ok (nl_iroh NB) (nl_net NB)"
    and "node_build NB port index cfg isk tsk h = (Ok nd, h')"
  shows "addr_id (nl_net NB) (endpoint_addr (nl_net NB) n (nd_endpoint nd))
      = key_to_str (nl_net NB) (sk_public (nl_iroh NB) isk)"
    and "accepts (nl_net NB) (host_net h') (endpoint_addr (nl_net NB) (host_net h') (nd_endpoint nd))
      = [GOSSIP_ALPN, BLOBS_ALPN, DOCS_ALPN]"
    and "node_vault_pk NB nd common = Ok (sk_get_pk (nl_ste NB) tsk common)"
    and "host_service h' = host_service h\<lparr>net_disk := (net_disk (host_service h))\<lparr>disk_files :=
      (disk_files (net_disk (host_service h)))(''pubkey.txt'' \<mapsto>
         as_bytes (key_to_str (nl_net NB) (sk_public (nl_iroh NB) isk)) @ [10])\<rparr>\<rparr>"
    and "\<not> nd_pd_connected nd"
proof -
  let ?V = "nl_vault NB" and ?K = "nl_iroh NB" and ?NL = "nl_net NB"
  obtain v iv sv where
      keys: "build_keys (nl_vault_open NB) ?V ?K (nl_ste NB) cfg index isk tsk = Ok (v, iv, sv)"
    using assms(5) [unfolded node_build_def] by (auto simp: bind_action_Ok_iff unwrap_result_Ok_iff)
  obtain r v' where rd: "read_identity ?V ?K iv v = (r, v')" by fastforce
  have "\<exists>idn. r = Ok idn"
    using assms(5) [unfolded node_build_def] by (auto simp: keys rd bind_action_Ok_iff unwrap_result_Ok_iff)
  then obtain sk pk where r: "r = Ok (sk, pk)" by auto
  have ident: "read_identity ?V ?K iv v = (Ok (sk, pk), v')" by (simp add: rd r)
  obtain e h1 where spawn: "spawn_endpoint ?NL sk pk port [GOSSIP_ALPN, BLOBS_ALPN, DOCS_ALPN] h = (Ok e, h1)"
    and wr: "unwrapping (in_service (in_disk (write_file
           (as_bytes (addr_id ?NL (endpoint_addr ?NL (host_net h1) e)) @ [10]) ''pubkey.txt''))) h1 = ((Ok (), h') :: (unit, string) outcome \<times> _)"
    and nd: "nd_endpoint nd = e" "nd_vault nd = v'" "nd_ste_vault nd = sv" "\<not> nd_pd_connected nd"
    using assms(5) [unfolded node_build_def] by (auto simp: keys rd r bind_action_Ok_iff)
  obtain b where i: "key_held ?V v iv (sk_to_bytes ?K isk)" and s: "key_held ?V v sv b"
    and b: "des_sk (nl_ste NB) b = Some tsk"
    using build_keys_held [OF assms(1,3) build_keys_pswd [OF keys] keys] .
  obtain v1 where r1: "iroh_get_secret_key ?V ?K iv v = (Ok isk, v1)"
    and k1: "\<forall>k2 b. key_held ?V v k2 b \<longrightarrow> key_held ?V v1 k2 b"
    using iroh_secret_held [OF assms(1,2) i] .
  have i1: "key_held ?V v1 iv (sk_to_bytes ?K isk)" using k1 i by blast
  obtain v2 where r2: "iroh_get_secret_key ?V ?K iv v1 = (Ok isk, v2)"
    and k2: "\<forall>k2 b. key_held ?V v1 k2 b \<longrightarrow> key_held ?V v2 k2 b"
    using iroh_secret_held [OF assms(1,2) i1] .
  have h2: "key_held ?V v2 sv b" using k2 k1 s by blast
  have sk: "sk = isk" "v' = v2"
    using ident by (simp_all add: read_identity_def iroh_get_public_key_def r1 r2)
  note e = spawn_endpoint_Ok [OF assms(4) spawn]
  show "addr_id ?NL (endpoint_addr ?NL n (nd_endpoint nd)) = key_to_str ?NL (sk_public ?K isk)"
    using e(2) by (simp add: nd sk)
  show "accepts ?NL (host_net h') (endpoint_addr ?NL (host_net h') (nd_endpoint nd)) = [GOSSIP_ALPN, BLOBS_ALPN, DOCS_ALPN]"
    using e(1) wr by (auto simp: nd outcome_simps)
  obtain v3 where "ste_secret ?V (nl_ste NB) sv v2 = (Ok tsk, v3)"
    using ste_secret_held [OF assms(1) h2 b] .
  then show "node_vault_pk NB nd common = Ok (sk_get_pk (nl_ste NB) tsk common)"
    by (simp add: node_vault_pk_def ste_get_pk_def nd sk)
  show "host_service h' = host_service h\<lparr>net_disk := (net_disk (host_service h))\<lparr>disk_files :=
      (disk_files (net_disk (host_service h)))(''pubkey.txt'' \<mapsto> as_bytes (key_to_str ?NL (sk_public ?K isk)) @ [10])\<rparr>\<rparr>"
    using wr e(2,3) by (auto simp: outcome_simps sk in_disk_def split: prod.splits dest!: write_file_Ok)
  show "\<not> nd_pd_connected nd" by (rule nd(4))
qed

lemma connect_all_Ok:
  assumes "net_ok K NL" and "connect_all NL e peers n = (Ok (), n')"
  shows "accepts NL n' = accepts NL n
    \<and> (\<forall>a \<in> set peers. {BLOBS_ALPN, DOCS_ALPN, GOSSIP_ALPN} \<subseteq> set (accepts NL n a))"
  using assms(2)
proof (induction peers arbitrary: n)
  case (Cons a peers)
  then obtain n1 n2 n3 where d: "dial_peer NL e a BLOBS_ALPN n = (Ok (), n1)"
    "dial_peer NL e a DOCS_ALPN n1 = (Ok (), n2)" "dial_peer NL e a GOSSIP_ALPN n2 = (Ok (), n3)"
    and rest: "connect_all NL e peers n3 = (Ok (), n')"
    by (auto simp: connect_to_peer_for_multiple_protocols_def outcome_simps)
  have "accepts NL n3 = accepts NL n" "accepts NL n2 = accepts NL n" "accepts NL n1 = accepts NL n"
    using d [THEN net_okD(3) [OF assms(1)]] by simp_all
  with d [THEN net_okD(4) [OF assms(1)]] Cons.IH [OF rest] show ?case by simp
qed simp

lemma try_connect_peers_Ok:
  assumes "net_ok K NL" and "try_connect_peers NL e peers n = (Ok (), n')"
  shows "accepts NL n' = accepts NL n
    \<and> (\<forall>ps. peers = Some ps \<longrightarrow> (\<forall>a \<in> set ps. {BLOBS_ALPN, DOCS_ALPN, GOSSIP_ALPN} \<subseteq> set (accepts NL n a)))"
  using assms connect_all_Ok [OF assms(1)] by (auto simp: try_connect_peers_def split: option.splits)

text \<open>The bootstrap peer of the command line was dialled for each of the three protocols.\<close>

lemma bootstrap_peer_dialled:
  assumes "net_ok K NL" and "build_bootstrap_peers NL (Some p) (Some i) = Ok peers"
    and "try_connect_peers NL e peers n = (Ok (), n')"
  shows "\<exists>k x. key_of_str NL p = Some k \<and> socket_of_str NL i = Some x
    \<and> (\<exists>net. connect_to_peer_for_multiple_protocols NL e (addr_new NL k x) net = (Ok (), n'))
    \<and> {BLOBS_ALPN, DOCS_ALPN, GOSSIP_ALPN} \<subseteq> set (accepts NL n' (addr_new NL k x))"
proof -
  obtain k x where "key_of_str NL p = Some k" "socket_of_str NL i = Some x" and ps: "peers = Some [addr_new NL k x]"
    using assms(2) by (auto simp: build_bootstrap_peers_def outcome_simps dest: sym)
  moreover have "connect_to_peer_for_multiple_protocols NL e (addr_new NL k x) n = (Ok (), n')"
    using assms(3) by (auto simp: ps try_connect_peers_def outcome_simps)
  ultimately show ?thesis using try_connect_peers_Ok [OF assms(1,3)] by auto
qed


section \<open>A concrete network\<close>

text \<open>
  For the witnesses: an address is a key of one byte, the network maps each to the protocols that are
  accepted there, and a peer with the key of the letter A is up.
\<close>

definition demo_net_lib :: "(byte, byte, byte \<Rightarrow> alpn list, byte, byte, string) net_lib" where
  "demo_net_lib = \<lparr>mdns_build = (\<lambda>_. Ok ()), endpoint_bind = (\<lambda>sk port n. (Ok sk, n)),
     docs_spawn = (\<lambda>e n. (Ok (), n)), router_spawn = (\<lambda>e ps n. n(e := ps)), endpoint_addr = (\<lambda>n e. e),
     addr_id = (\<lambda>a. [char_of_byte a]), accepts = (\<lambda>n. n),
     dial_peer = (\<lambda>e a p n. (if p \<in> set (n a) then Ok () else Err ''refused'', n)),
     key_to_str = (\<lambda>k. [char_of_byte k]),
     key_of_str = (\<lambda>s. case s of [c] \<Rightarrow> Some (byte_of_char c) | _ \<Rightarrow> None), socket_of_str = Some,
     addr_new = (\<lambda>k x. k)\<rparr>"

lemma demo_net_lib_ok: "net_ok demo_iroh_keys demo_net_lib"
  by (auto simp: net_ok_def demo_net_lib_def demo_iroh_keys_def)

definition demo_node_keys :: "(byte, bytes, bytes, bytes, bytes) ste_keys" where
  "demo_node_keys = \<lparr>ser_sk = (\<lambda>s. Some [s]), des_sk = (\<lambda>b. case b of [s] \<Rightarrow> Some s | _ \<Rightarrow> None),
     sk_get_pk = (\<lambda>s c. [s]), sk_partial_decryption = (#)\<rparr>"

lemma demo_node_keys_ok: "ste_keys_ok demo_node_keys"
  by (simp add: ste_keys_ok_def demo_node_keys_def)

definition demo_env ::
  "(demo_vault_state, unit, byte, byte, byte \<times> bytes, byte, bytes, bytes, bytes, bytes, byte \<Rightarrow> alpn list, byte, byte, string,
    bytes, bytes, bytes \<times> bytes, registry, bytes \<rightharpoonup> bytes, unit, bytes list) service_env" where
  "demo_env = \<lparr>nl_vault_open = (\<lambda>_ _. Ok ((), [])), nl_vault = demo_vault, nl_iroh = demo_iroh_keys, nl_ste = demo_node_keys,
     nl_net = demo_net_lib, se_pairs = demo_pairs, se_account = (\<lambda>k. k),
     se_reopen = (\<lambda>_ _. Ok ((), [(''sr25519'', ''v'', ''k'', [3])])), se_chain = Ok demo_chain, se_service = demo_service,
     se_meanwhile = (\<lambda>_ s. s), se_view = prompt_view demo_service\<rparr>"

lemma demo_env_simps [simp]:
  "nl_vault_open demo_env = (\<lambda>_ _. Ok ((), []))" "nl_vault demo_env = demo_vault" "nl_iroh demo_env = demo_iroh_keys"
  "nl_ste demo_env = demo_node_keys" "nl_net demo_env = demo_net_lib" "se_pairs demo_env = demo_pairs"
  "se_account demo_env = (\<lambda>k. k)" "se_reopen demo_env = (\<lambda>_ _. Ok ((), [(''sr25519'', ''v'', ''k'', [3])]))"
  "se_chain demo_env = Ok demo_chain" "se_service demo_env = demo_service"
  "se_meanwhile demo_env = (\<lambda>_ s. s)" "se_view demo_env = prompt_view demo_service"
  by (simp_all add: demo_env_def)

definition demo_run :: run_args where
  "demo_run = \<lparr>ra_bind_port = 4000, ra_rpc_port = 5000, ra_index = 1, ra_is_bootstrap = False, ra_ticket = ''doc'',
     ra_predicate_registry_contract_addr = ''r'', ra_request_pool_contract_addr = ''p'',
     ra_bootstrap_pubkey = Some ''A'', ra_bootstrap_ip = Some ''x'', ra_vault_dir = ''d'', ra_vault_pswd = Some ''v'',
     ra_iroh_key_pswd = Some ''i'', ra_ste_key_pswd = Some ''s'', ra_substrate_name = ''sr25519'',
     ra_substrate_pswd = Some ''k''\<rparr>"

definition demo_host :: "(byte \<Rightarrow> alpn list, bytes \<rightharpoonup> bytes) host" where
  "demo_host = \<lparr>host_net = (\<lambda>_. [])(byte_of_char CHR ''A'' := [GOSSIP_ALPN, BLOBS_ALPN, DOCS_ALPN]),
     host_service = demo_net\<lparr>net_doc := [as_bytes CONFIG_KEY \<mapsto> enc demo_ann (config_ann [2, 7, 7])]\<rparr>\<rparr>"

lemma demo_host_disk: "\<not> disk_refuses (net_disk (host_service demo_host)) ''pubkey.txt''"
  by (simp add: demo_host_def demo_net_def)

lemma demo_net_lib_run:
  "spawn_endpoint demo_net_lib sk pk port ps h = (Ok sk, h\<lparr>host_net := (host_net h)(sk := ps)\<rparr>)"
  by (simp add: spawn_endpoint_def unwrapping_def in_net_def demo_net_lib_def bind_action_def)

lemma demo_build_keys:
  "\<exists>v iv sv. build_keys (\<lambda>_ _. Ok ((), [])) demo_vault demo_iroh_keys demo_node_keys (run_vault_config demo_run) i isk tsk
     = Ok (v, iv, sv)"
  by (simp add: build_keys_def create_vaults_def run_vault_config_def demo_run_def iroh_generate_key_def
      ste_generate_key_def write_key_def unwrap_in_def demo_vault_def demo_node_keys_def bind_action_def)

lemma demo_node_built:
  assumes "nl_vault_open NB = (\<lambda>_ _. Ok ((), []))" "nl_vault NB = demo_vault" "nl_iroh NB = demo_iroh_keys"
    "nl_ste NB = demo_node_keys" "nl_net NB = demo_net_lib" "\<not> disk_refuses (net_disk (host_service h)) ''pubkey.txt''"
  shows "\<exists>nd h1. node_build NB port i (run_vault_config demo_run) isk tsk h = (Ok nd, h1) \<and> nd_endpoint nd = isk
     \<and> nd_vault_config nd = run_vault_config demo_run
     \<and> h1 = h\<lparr>host_net := (host_net h)(isk := [GOSSIP_ALPN, BLOBS_ALPN, DOCS_ALPN]),
         host_service := (host_service h)\<lparr>net_disk := (net_disk (host_service h))\<lparr>disk_files :=
           (disk_files (net_disk (host_service h)))(''pubkey.txt'' \<mapsto> as_bytes [char_of_byte isk] @ [10])\<rparr>\<rparr>\<rparr>"
proof -
  obtain v iv sv where keys: "build_keys (\<lambda>_ _. Ok ((), [])) demo_vault demo_iroh_keys demo_node_keys
      (run_vault_config demo_run) i isk tsk = Ok (v, iv, sv)"
    using demo_build_keys by blast
  obtain b where held: "key_held demo_vault v iv (sk_to_bytes demo_iroh_keys isk)"
    using build_keys_held [OF demo_vault_ok demo_node_keys_ok build_keys_pswd [OF keys] keys] by blast
  obtain v1 where r1: "iroh_get_secret_key demo_vault demo_iroh_keys iv v = (Ok isk, v1)"
    and k1: "\<forall>k2 b. key_held demo_vault v k2 b \<longrightarrow> key_held demo_vault v1 k2 b"
    using iroh_secret_held [OF demo_vault_ok demo_iroh_keys_ok held] .
  from k1 held have "key_held demo_vault v1 iv (sk_to_bytes demo_iroh_keys isk)" by blast
  then obtain v2 where r2: "iroh_get_secret_key demo_vault demo_iroh_keys iv v1 = (Ok isk, v2)"
    using iroh_secret_held [OF demo_vault_ok demo_iroh_keys_ok] by blast
  have rd: "read_identity demo_vault demo_iroh_keys iv v = (Ok (isk, sk_public demo_iroh_keys isk), v2)"
    using r1 r2 by (simp add: read_identity_def iroh_get_public_key_def)
  have "addr_id demo_net_lib (endpoint_addr demo_net_lib n e) = [char_of_byte e]" for n e
    by (simp add: demo_net_lib_def)
  then show ?thesis
    by (simp add: assms node_build_def keys rd demo_net_lib_run bind_action_def unwrapping_def in_service_def in_disk_def
        write_file_def)
qed

section \<open>Properties\<close>

lemma request_decrypt_not_Err:
  "request_decrypt X C dc f ws w \<noteq> (Err e, w')"
  by (auto simp: request_decrypt_def encode_witnesses_def Let_def outcome_simps split: outcome.splits prod.splits)

lemma disconnected_decrypt_panics:
  assumes "\<And>w. received w = Disconnected"
  shows "\<exists>p w'. handle_decrypt X S C T store add loc config_path f ws sk received w = Some (Panic p, w')"
proof (cases "unwrap_result (decryption_client_new X S config_path sk store add loc (world_disk w)) :: (_, string) outcome")
  case (Ok dc)
  obtain r w1 where r: "on_chain (request_decrypt X C dc f (parse_witnesses ws)) w = (r, w1)" by fastforce
  moreover have "\<nexists>e. r = Err e"
    using r by (auto simp: on_chain_def request_decrypt_not_Err split: prod.splits)
  ultimately show ?thesis
    using Ok by (cases r) (auto simp: handle_decrypt_def assms)
next
  case (Err e)
  then show ?thesis by (cases "decryption_client_new X S config_path sk store add loc (world_disk w)") simp_all
qed (simp add: handle_decrypt_def)

text \<open>
  C30. Only the node of a client takes partial decryptions. A node from \<open>Node::build\<close> of \<open>node/node.rs\<close>,
  which is what the command line client uses, refuses every connection for them, and
  \<open>handle_decrypt\<close> with such a node never returns normally: it panics, whatever the pool, the
  stores and the peers do. A node from \<open>Node::build\<close> of \<open>client/node.rs\<close> accepts them.
\<close>

theorem only_client_nodes_take_shares:
  assumes "vault_ok (nl_vault NB)" and "iroh_keys_ok (nl_iroh NB)" and "ste_keys_ok (nl_ste NB)"
    and "net_ok (nl_iroh NB) (nl_net NB)"
    and "node_build NB port index cfg isk tsk h = (Ok nd, h1)"
    and "client_node_build (nl_iroh NB) (nl_net NB) esk port' g = (Ok cn, g1)"
  shows "fst (dial_peer (nl_net NB) e (endpoint_addr (nl_net NB) (host_net h1) (nd_endpoint nd)) PD_ALPN (host_net h1)) \<noteq> Ok ()
    \<and> (\<exists>p w'. handle_decrypt X S C T store add loc config_path f ws sk (node_channel nd queue) w = Some (Panic p, w'))
    \<and> PD_ALPN \<in> set (accepts (nl_net NB) (host_net g1) (endpoint_addr (nl_net NB) (host_net g1) (nd_endpoint cn)))
    \<and> node_channel cn queue = queue"
proof -
  note nd = node_build_Ok [OF assms(1-5)]
  obtain e' where sp: "spawn_endpoint (nl_net NB) esk (sk_public (nl_iroh NB) esk) port'
      [PD_ALPN, GOSSIP_ALPN, BLOBS_ALPN, DOCS_ALPN] g = (Ok e', g1)"
    and cn: "nd_endpoint cn = e'" "nd_pd_connected cn"
    using assms(6) by (auto simp: client_node_build_def bind_action_Ok_iff)
  have "fst (dial_peer (nl_net NB) e a PD_ALPN (host_net h1)) \<noteq> Ok ()"
    if "PD_ALPN \<notin> set (accepts (nl_net NB) (host_net h1) a)" for a
    using net_okD(4) [OF assms(4)] that by (metis prod.collapse)
  moreover have "\<exists>p w'. handle_decrypt X S C T store add loc config_path f ws sk (node_channel nd queue) w = Some (Panic p, w')"
    by (rule disconnected_decrypt_panics) (simp add: node_channel_def nd(5))
  ultimately show ?thesis
    using nd(2) spawn_endpoint_Ok(1) [OF assms(4) sp] by (simp add: cn node_channel_def fun_eq_iff)
qed

theorem only_client_nodes_take_shares_witness:
  "\<exists>nd h1 cn g1. node_build demo_env 4000 2 (run_vault_config demo_run) 5 6 demo_host = (Ok nd, h1)
     \<and> client_node_build demo_iroh_keys demo_net_lib 9 4001 demo_host = (Ok cn, g1)
     \<and> fst (dial_peer demo_net_lib 1 (endpoint_addr demo_net_lib (host_net h1) (nd_endpoint nd)) PD_ALPN (host_net h1)) \<noteq> Ok ()
     \<and> PD_ALPN \<in> set (accepts demo_net_lib (host_net g1) (endpoint_addr demo_net_lib (host_net g1) (nd_endpoint cn)))"
proof -
  obtain nd h1 where nd: "node_build demo_env 4000 2 (run_vault_config demo_run) 5 6 demo_host = (Ok nd, h1)"
    using demo_node_built [OF demo_env_simps(1-5) demo_host_disk] by blast
  have "\<exists>cn g1. client_node_build demo_iroh_keys demo_net_lib 9 4001 demo_host = (Ok cn, g1)"
    by (simp add: client_node_build_def demo_net_lib_run bind_action_def)
  then obtain cn g1 where cn: "client_node_build demo_iroh_keys demo_net_lib 9 4001 demo_host = (Ok cn, g1)"
    by blast
  note takes = only_client_nodes_take_shares [of demo_env, simplified, OF demo_vault_ok demo_iroh_keys_ok
      demo_node_keys_ok demo_net_lib_ok nd cn]
  show ?thesis
    by (intro exI conjI, rule nd, rule cn, rule takes [THEN conjunct1],
        rule takes [THEN conjunct2, THEN conjunct2, THEN conjunct1])
qed

text \<open>
  C31. What a node that was started with a ticket has done. When \<open>fangorn run\<close> without \<open>--is-bootstrap\<close>
  comes up, its endpoint has the identity of the iroh key drawn; the handle has the ticket of the
  command line, which was not empty; when a bootstrap key and address were given, they parsed and
  the peer there accepted a connection from this endpoint for each of the three protocols (none is
  kept); and the service's last step was to publish under the node's index the hint of the
  threshold key drawn, for the config that the node's state had at that step, so that the
  document has it.
\<close>

theorem joined_node_published:
  assumes "vault_ok (nl_vault S)" and "iroh_keys_ok (nl_iroh S)" and "ste_keys_ok (nl_ste S)"
    and "net_ok (nl_iroh S) (nl_net S)" and "service_ok (se_service S)"
    and "\<not> ra_is_bootstrap a"
    and "fangorn_main S isk tsk (Some (Run_Command a)) h = (Ok (Some handle), h')"
  shows "addr_id (nl_net S) (endpoint_addr (nl_net S) n (nd_endpoint (sh_node handle)))
        = key_to_str (nl_net S) (sk_public (nl_iroh S) isk)
    \<and> sh_ticket handle = ra_ticket a \<and> ra_ticket a \<noteq> []
    \<and> (\<forall>p i. ra_bootstrap_pubkey a = Some p \<longrightarrow> ra_bootstrap_ip a = Some i \<longrightarrow>
         (\<exists>k x. key_of_str (nl_net S) p = Some k \<and> socket_of_str (nl_net S) i = Some x
            \<and> (\<exists>net. connect_to_peer_for_multiple_protocols (nl_net S) (nd_endpoint (sh_node handle))
                  (addr_new (nl_net S) k x) net = (Ok (), host_net h'))
            \<and> {BLOBS_ALPN, DOCS_ALPN, GOSSIP_ALPN} \<subseteq> set (accepts (nl_net S) (host_net h') (addr_new (nl_net S) k x))))
    \<and> (\<exists>cfg bs s. publish_node_hint (se_service S) (\<lambda>common. Ok (sk_get_pk (nl_ste S) tsk common)) (se_view S 1 s)
           (ra_index a) s = (Ok (), host_service h')
         \<and> st_config (se_view S 1 s) = Some cfg
         \<and> ser_pk (sl_ste (se_service S)) (sk_get_pk (nl_ste S) tsk (crs cfg)) = Some bs
         \<and> reads_as (sl_iroh (se_service S)) (net_doc (host_service h')) (show_nat (ra_index a))
              (enc (sl_ann (se_service S)) \<lparr>ann_tag = Tag_Hint, ann_data = bs\<rparr>))"
proof -
  obtain cfg h1 nd where cfg: "run_service_config (nl_net S) a = Ok cfg"
    and build: "node_build S (sc_bind_port cfg) (sc_index cfg) (run_vault_config a) isk tsk h = (Ok nd, h1)"
    and run: "build_full_service S isk tsk cfg MAX_COMMITTEE_SIZE (run_vault_config a) h = (Ok handle, h')"
    using assms(7) by (auto simp: fangorn_main_def build_full_service_def bind_action_Ok_iff)
  have c: "\<not> sc_is_bootstrap cfg" "sc_index cfg = ra_index a"
    "sc_ticket cfg = (if ra_ticket a = [] then None else Some (ra_ticket a))"
    and peers: "build_bootstrap_peers (nl_net S) (ra_bootstrap_pubkey a) (ra_bootstrap_ip a) = Ok (sc_bootstrap_peers cfg)"
    using cfg assms(6) by (auto simp: run_service_config_def and_then_Ok_iff)
  note nd = node_build_Ok [OF assms(1-4) build]
  have pk: "node_vault_pk S nd = (\<lambda>common. Ok (sk_get_pk (nl_ste S) tsk common))"
    using nd(3) by (simp add: fun_eq_iff)
  obtain n1 s1 ticket s2 where conn: "try_connect_peers (nl_net S) (nd_endpoint nd) (sc_bootstrap_peers cfg) (host_net h1) = (Ok (), n1)"
    and su: "setup_document_stream (se_service S) False (sc_ticket cfg) MAX_COMMITTEE_SIZE (host_service h1) = (Ok ticket, s1)"
    and sync: "sync_service (se_service S) (node_vault_pk S nd) (se_meanwhile S) (se_view S) False (sc_index cfg) s2
        = (Ok (), host_service h')" and net: "host_net h' = n1"
    and handle: "sh_node handle = nd" "sh_ticket handle = ticket"
    using run c(1) build by (auto simp: build_full_service_def bind_action_Ok_iff unwrapping_Ok in_net_Ok in_service_Ok)
  have ticket: "ticket = ra_ticket a" "ra_ticket a \<noteq> []"
    using su by (auto simp: setup_document_stream_def c(3) outcome_simps split: if_splits)
  obtain s3 where "publish_node_hint (se_service S) (node_vault_pk S nd) (se_view S 1 s3) (ra_index a) s3
      = (Ok (), host_service h')"
    using sync by (auto simp: sync_service_def outcome_simps c(2) unwrap_action_def split: prod.splits)
  note published = this [unfolded pk]
  from publish_node_hint_Ok [OF service_okD(1) [OF assms(5)] this]
  have hint: "\<exists>cfg bs s. publish_node_hint (se_service S) (\<lambda>common. Ok (sk_get_pk (nl_ste S) tsk common)) (se_view S 1 s)
           (ra_index a) s = (Ok (), host_service h')
         \<and> st_config (se_view S 1 s) = Some cfg
         \<and> ser_pk (sl_ste (se_service S)) (sk_get_pk (nl_ste S) tsk (crs cfg)) = Some bs
         \<and> reads_as (sl_iroh (se_service S)) (net_doc (host_service h')) (show_nat (ra_index a))
              (enc (sl_ann (se_service S)) \<lparr>ann_tag = Tag_Hint, ann_data = bs\<rparr>)"
    using published by (auto simp: pk)
  have "\<exists>k x. key_of_str (nl_net S) p = Some k \<and> socket_of_str (nl_net S) i = Some x
            \<and> (\<exists>net. connect_to_peer_for_multiple_protocols (nl_net S) (nd_endpoint (sh_node handle))
                  (addr_new (nl_net S) k x) net = (Ok (), host_net h'))
            \<and> {BLOBS_ALPN, DOCS_ALPN, GOSSIP_ALPN} \<subseteq> set (accepts (nl_net S) (host_net h') (addr_new (nl_net S) k x))"
    if "ra_bootstrap_pubkey a = Some p" "ra_bootstrap_ip a = Some i" for p i
    using bootstrap_peer_dialled [OF assms(4) _ conn, of p i] peers by (simp add: that handle(1) net)
  with nd(1) ticket hint handle show ?thesis by blast
qed

lemma demo_backend:
  "substrate_backend_new (\<lambda>_ _. Ok ((), [(''sr25519'', ''v'', ''k'', [3])])) demo_vault demo_pairs (\<lambda>k. k) (Ok demo_chain)
     (run_vault_config demo_run) = Ok \<lparr>client = demo_chain, signer_account = [3]\<rparr>"
  by (simp add: substrate_backend_new_def run_vault_config_def demo_run_def signer_new_def sr25519_get_public_key_def
      sr25519_pair_def read_key_def unwrap_in_def bind_action_def)
    (simp add: demo_vault_def demo_pairs_def sr25519_new_store_info_def)

lemma demo_connects:
  assumes "n (byte_of_char CHR ''A'') = [GOSSIP_ALPN, BLOBS_ALPN, DOCS_ALPN]"
  shows "try_connect_peers demo_net_lib e (Some [byte_of_char CHR ''A'']) n = (Ok (), n)"
  using assms by (simp add: try_connect_peers_def connect_to_peer_for_multiple_protocols_def unwrapping_def
      demo_net_lib_def bind_action_def)

theorem joined_node_published_witness:
  "\<exists>handle h'. fangorn_main demo_env 5 6 (Some (Run_Command demo_run)) demo_host = (Ok (Some handle), h')
     \<and> (\<exists>bs. reads_as demo_iroh (net_doc (host_service h')) (show_nat 1)
           (enc demo_ann \<lparr>ann_tag = Tag_Hint, ann_data = bs\<rparr>))"
proof -
  obtain nd h1 where nd: "node_build demo_env 4000 1 (run_vault_config demo_run) 5 6 demo_host = (Ok nd, h1)"
    and ep: "nd_endpoint nd = 5" "host_net h1 = (host_net demo_host)(5 := [GOSSIP_ALPN, BLOBS_ALPN, DOCS_ALPN])"
    using demo_node_built [OF demo_env_simps(1-5) demo_host_disk, of 4000 1 5 6] by fastforce
  note built = node_build_Ok [of demo_env, simplified, OF demo_vault_ok demo_iroh_keys_ok demo_node_keys_ok
      demo_net_lib_ok nd]
  have pk: "node_vault_pk demo_env nd = (\<lambda>c. Ok [6])"
    using built(3) by (simp add: fun_eq_iff demo_node_keys_def)
  have s: "net_doc (host_service h1) (as_bytes CONFIG_KEY) = Some (enc demo_ann (config_ann [2, 7, 7]))"
    "net_sent (host_service h1) = []" "net_receiver (host_service h1)"
    by (simp_all add: built(4) demo_host_def demo_net_def)
  obtain t where "start_service demo_service (\<lambda>c. Ok [6]) (\<lambda>_ s. s) (prompt_view demo_service) False (Some ''doc'') 2 1
      (host_service h1) = (Ok ''doc'', t)"
    using demo_join [OF s] .
  moreover have su: "setup_document_stream demo_service False (Some ''doc'') 2 (host_service h1) = (Ok ''doc'', host_service h1)"
    by (simp add: setup_document_stream_def bind_action_def unwrap_action_def in_doc_def demo_service_def demo_iroh_def)
  ultimately have sync: "sync_service demo_service (\<lambda>c. Ok [6]) (\<lambda>_ s. s) (prompt_view demo_service) False 1 (host_service h1)
      = (Ok (), t)"
    by (simp add: start_service_def unwrap_action_run [where m = "setup_document_stream demo_service False (Some ''doc'') 2", OF su] bind_action_Ok_iff)
  have "byte_of_char CHR ''A'' \<noteq> 5" by (simp add: byte_of_char_def)
  then have conn: "try_connect_peers demo_net_lib 5 (Some [byte_of_char CHR ''A'']) (host_net h1) = (Ok (), host_net h1)"
    by (intro demo_connects) (simp add: ep demo_host_def)
  have imp: "docs_import (sl_iroh demo_service) ''doc'' d = (Ok (), d)" for d
    by (simp add: demo_service_def demo_iroh_def)
  have cfg: "run_service_config demo_net_lib demo_run = Ok \<lparr>sc_bind_port = 4000, sc_rpc_port = 5000, sc_index = 1,
      sc_is_bootstrap = False, sc_ticket = Some ''doc'', sc_bootstrap_peers = Some [byte_of_char CHR ''A''],
      sc_predicate_registry_contract_addr = ''r'', sc_request_pool_contract_addr = ''p''\<rparr>"
    by (simp add: run_service_config_def build_bootstrap_peers_def demo_run_def demo_net_lib_def)
  have "\<exists>handle h'. fangorn_main demo_env 5 6 (Some (Run_Command demo_run)) demo_host = (Ok (Some handle), h')"
    by (simp add: fangorn_main_def build_full_service_def cfg nd conn ep(1) su demo_backend imp pk sync
        MAX_COMMITTEE_SIZE_def unwrapping_def in_net_def in_service_def in_doc_def bind_action_def
        del: One_nat_def)
  then obtain handle h' where run: "fangorn_main demo_env 5 6 (Some (Run_Command demo_run)) demo_host = (Ok (Some handle), h')"
    by blast
  have "\<not> ra_is_bootstrap demo_run" "ra_index demo_run = 1" by (simp_all add: demo_run_def)
  note joined = joined_node_published [of demo_env, simplified demo_env_simps, OF demo_vault_ok demo_iroh_keys_ok
      demo_node_keys_ok demo_net_lib_ok demo_service_ok this(1) run]
  obtain bs where "reads_as (sl_iroh demo_service) (net_doc (host_service h')) (show_nat (ra_index demo_run))
      (enc (sl_ann demo_service) \<lparr>ann_tag = Tag_Hint, ann_data = bs\<rparr>)"
    using joined by blast
  with run \<open>ra_index demo_run = 1\<close> show ?thesis by (auto simp: demo_service_def)
qed

end
