(* ===== verification/Quickbeam.thy ===== *)
theory Quickbeam
  imports Networking
begin

text \<open>
  The command line client, \<open>quickbeam/src/main.rs\<close>, with \<open>iroh_testnet_setup\<close> of
  \<open>fangorn/src/crypto/cipher.rs\<close>: it reads the system keys, builds a node of its own, connects it to
  the bootstrap node, and encrypts a file or asks for one to be decrypted.
\<close>

section \<open>Commands\<close>

record quickbeam_args =
  qa_filename :: string
  qa_config_path :: string
  qa_contract_addr :: string
  qa_ticket :: string
  qa_system_keys_dir :: string
  qa_bootstrap_url :: string
  qa_bootstrap_pubkey :: string
  qa_vault_config :: vault_config

datatype quickbeam_command =
    Encrypt_Command quickbeam_args (qc_message_path: string) (qc_intent: string)
  | Decrypt_Command quickbeam_args (qc_witness: string) (qc_request_pool: string)

text \<open>
  Beside the libraries of a node: the chain client and the signer's vaults as in the service, the
  stores' parts, the codecs, and the deserialization of system keys. \<open>qe_location\<close> is the JSON text of
  an address, \<open>qe_meanwhile\<close> what the others do while the client sleeps, \<open>qe_online\<close> what they do until
  the endpoint is online, if it ever is, and \<open>qe_queue\<close> what the handler of partial decryptions would
  queue.
\<close>

record ('v, 'vh, 's, 'k, 'g, 't, 'crs, 'pk, 'ct, 'pd, 'n, 'e, 'a, 'x, 'p, 'ak, 'sg, 'w, 'd, 'c, 'lag, 'sk, 'agg, 'ek, 'g2) quickbeam_env =
  "('v, 'vh, 's, 'k, 'g, 't, 'crs, 'pk, 'ct, 'pd, 'n, 'e, 'a, 'x) node_libs" +
  qe_pairs :: "('p, 'ak, 'sg) pair_lib"
  qe_account :: "'ak \<Rightarrow> bytes"
  qe_reopen :: "string \<Rightarrow> string \<Rightarrow> ('vh \<times> 'v, string) outcome"
  qe_chain :: "('w substrate_client, string) outcome"
  qe_docs :: "('c, 'd) iroh_env"
  qe_intent_store :: "string \<Rightarrow> 'w substrate_backend \<Rightarrow> ('c, 'w) intent_env"
  qe_pool :: "string \<Rightarrow> 'w substrate_backend \<Rightarrow> 'w ink_pool"
  qe_gadgets :: gadget_libs
  qe_hex :: hex_lib
  qe_witnesses :: "bytes list codec"
  qe_ste :: "('crs, 'lag, 'pk, 'sk) ste_lib"
  qe_tenc :: "('crs, 'lag, 'sk, 'agg, 'ek, 'g2, 'ct, 'pd) tenc_lib"
  qe_nom :: nom_lib
  qe_des_system_keys :: "bytes \<Rightarrow> 'sk option"
  qe_location :: "'a \<Rightarrow> bytes option"
  qe_meanwhile :: "('d, 'w) world \<Rightarrow> ('d, 'w) world"
  qe_online :: "('d, 'w) world \<Rightarrow> ('d, 'w) world option"
  qe_queue :: "('d, 'w) world \<Rightarrow> ('pd raw_partial_decryption_message \<times> ('d, 'w) world) pd_event"


section \<open>The state of the client\<close>

text \<open>The node's host and the chain; the stores work on its document and disk.\<close>

record ('n, 'd, 'w) client_host = "('n, 'd) host" +
  host_chain :: 'w

definition host_world :: "('n, 'd, 'w) client_host \<Rightarrow> ('d, 'w) world" where
  "host_world h = \<lparr>world_docs = net_doc (host_service h), world_chain = host_chain h,
     world_disk = net_disk (host_service h)\<rparr>"

definition put_world :: "('n, 'd, 'w) client_host \<Rightarrow> ('d, 'w) world \<Rightarrow> ('n, 'd, 'w) client_host" where
  "put_world h w = h\<lparr>host_service := (host_service h)\<lparr>net_doc := world_docs w, net_disk := world_disk w\<rparr>,
     host_chain := world_chain w\<rparr>"

definition in_world :: "(('d, 'w) world, 'a, 'e) action \<Rightarrow> (('n, 'd, 'w) client_host, 'a, 'e) action" where
  "in_world m h = (case m (host_world h) of (r, w) \<Rightarrow> (r, put_world h w))"


lemma in_world_Ok [outcome_simps]:
  "in_world m h = (Ok a, h') \<longleftrightarrow> (\<exists>w. m (host_world h) = (Ok a, w) \<and> h' = put_world h w)"
  by (auto simp: in_world_def split: prod.splits)

lemma host_world_put [simp]: "host_world (put_world h w) = w"
  by (simp add: host_world_def put_world_def)

lemma put_host_world [simp]: "put_world h (host_world h) = h"
  by (simp add: host_world_def put_world_def)


section \<open>The handlers' setup\<close>

definition iroh_testnet_setup ::
  "('v, 'vh, 's, 'k, 'g, 't, 'crs, 'pk, 'ct, 'pd, 'n, 'e, 'a, 'x, 'p, 'ak, 'sg, 'w, 'd, 'c, 'lag, 'sk, 'agg, 'ek, 'g2) quickbeam_env
   \<Rightarrow> ('e, 'v, 'vh) node \<Rightarrow> string \<Rightarrow> string
   \<Rightarrow> (('n, 'd, 'w) client_host, 'w gadget_registry \<times> ('d, 'w, 'c, 'w intent) app_store \<times> 'w substrate_backend, string) action" where
  "iroh_testnet_setup Q nd contract_addr ticket =
     bind_action (pure_action (unwrap_result (substrate_backend_new (qe_reopen Q) (nl_vault Q) (qe_pairs Q)
         (qe_account Q) (qe_chain Q) (nd_vault_config nd)))) (\<lambda>backend.
     bind_action (unwrapping (in_service (in_doc (docs_import (iroh_docs_lib (qe_docs Q)) ticket)))) (\<lambda>_.
       pure_action (Ok (default_registry (qe_gadgets Q) backend,
         testnet_store (qe_docs Q) (qe_intent_store Q contract_addr backend), backend))))"

text \<open>What both commands do first: the system keys are read before the node is built.\<close>

definition read_system_keys ::
  "('v, 'vh, 's, 'k, 'g, 't, 'crs, 'pk, 'ct, 'pd, 'n, 'e, 'a, 'x, 'p, 'ak, 'sg, 'w, 'd, 'c, 'lag, 'sk, 'agg, 'ek, 'g2) quickbeam_env
   \<Rightarrow> string \<Rightarrow> (('n, 'd, 'w) client_host, 'sk, string) action" where
  "read_system_keys Q path h =
     (and_then (expect_result ''Failed to read syskeys file'' (read_file ''Failed to read syskeys file'' path
         (net_disk (host_service h)))) (\<lambda>sys_keys_bytes. unwrap_decoded (qe_des_system_keys Q sys_keys_bytes)), h)"

definition quickbeam_node ::
  "('v, 'vh, 's, 'k, 'g, 't, 'crs, 'pk, 'ct, 'pd, 'n, 'e, 'a, 'x, 'p, 'ak, 'sg, 'w, 'd, 'c, 'lag, 'sk, 'agg, 'ek, 'g2) quickbeam_env
   \<Rightarrow> nat \<Rightarrow> 's \<Rightarrow> 't \<Rightarrow> quickbeam_args \<Rightarrow> (('n, 'd, 'w) client_host, ('e, 'v, 'vh) node, string) action" where
  "quickbeam_node Q index isk tsk a =
     bind_action (node_build Q 4000 index (qa_vault_config a) isk tsk) (\<lambda>nd.
     bind_action (pure_action (unwrap_option (key_of_str (nl_net Q) (qa_bootstrap_pubkey a)))) (\<lambda>pubkey.
     bind_action (pure_action (unwrap_option (socket_of_str (nl_net Q) (qa_bootstrap_url a)))) (\<lambda>socket.
     bind_action (in_net (try_connect_peers (nl_net Q) (nd_endpoint nd)
         (Some [addr_new (nl_net Q) pubkey socket]))) (\<lambda>_.
       pure_action (Ok nd)))))"

definition others_act :: "(('d, 'w) world \<Rightarrow> ('d, 'w) world) \<Rightarrow> (('d, 'w) world, unit, string) action" where
  "others_act f w = (Ok (), f w)"


section \<open>The commands\<close>

definition quickbeam_encrypt ::
  "('v, 'vh, 's, 'k, 'g, 't, 'crs, 'pk, 'ct, 'pd, 'n, 'e, 'a, 'x, 'p, 'ak, 'sg, 'w, 'd, 'c, 'lag, 'sk, 'agg, 'ek, 'g2) quickbeam_env
   \<Rightarrow> 's \<Rightarrow> 't \<Rightarrow> quickbeam_args \<Rightarrow> string \<Rightarrow> string \<Rightarrow> (('n, 'd, 'w) client_host, unit, string) action" where
  "quickbeam_encrypt Q isk tsk a message_path intent =
     bind_action (read_system_keys Q (qa_system_keys_dir a)) (\<lambda>sys_keys.
     bind_action (quickbeam_node Q 2 isk tsk a) (\<lambda>nd.
     bind_action (in_world (others_act (qe_meanwhile Q))) (\<lambda>_.
     bind_action (iroh_testnet_setup Q nd (qa_contract_addr a) (qa_ticket a)) (\<lambda>(registry, app_store, _).
       in_world (handle_encrypt (qe_hex Q) (qe_ste Q) (qe_tenc Q) (qe_nom Q) app_store registry
         message_path (qa_filename a) (qa_config_path a) intent sys_keys)))))"

text \<open>
  \<open>None\<close> is a command that does not return: the wait for the endpoint to be online has no limit, and
  neither has the one in \<^const>\<open>handle_decrypt\<close>.
\<close>

definition quickbeam_decrypt ::
  "('v, 'vh, 's, 'k, 'g, 't, 'crs, 'pk, 'ct, 'pd, 'n, 'e, 'a, 'x, 'p, 'ak, 'sg, 'w, 'd, 'c, 'lag, 'sk, 'agg, 'ek, 'g2) quickbeam_env
   \<Rightarrow> 's \<Rightarrow> 't \<Rightarrow> quickbeam_args \<Rightarrow> string \<Rightarrow> string \<Rightarrow> ('n, 'd, 'w) client_host
   \<Rightarrow> ((unit, string) outcome \<times> ('n, 'd, 'w) client_host) option" where
  "quickbeam_decrypt Q isk tsk a witness_string request_pool h =
     (case bind_action (read_system_keys Q (qa_system_keys_dir a)) (\<lambda>sys_keys.
           bind_action (quickbeam_node Q 3 isk tsk a) (\<lambda>nd. pure_action (Ok (sys_keys, nd)))) h of
        (Err e, h1) \<Rightarrow> Some (Err e, h1)
      | (Panic p, h1) \<Rightarrow> Some (Panic p, h1)
      | (Ok (sys_keys, nd), h1) \<Rightarrow>
          (case qe_online Q (host_world h1) of
             None \<Rightarrow> None
           | Some w \<Rightarrow>
               (case iroh_testnet_setup Q nd (qa_contract_addr a) (qa_ticket a) (put_world h1 w) of
                  (Err e, h2) \<Rightarrow> Some (Err e, h2)
                | (Panic p, h2) \<Rightarrow> Some (Panic p, h2)
                | (Ok (_, app_store, backend), h2) \<Rightarrow>
                    map_option (\<lambda>(r, w'). (r, put_world h2 w'))
                      (handle_decrypt (qe_hex Q) (qe_ste Q) (qe_witnesses Q) (qe_tenc Q) app_store
                        (ink_add (qe_pool Q request_pool backend))
                        (qe_location Q (endpoint_addr (nl_net Q) (host_net h2) (nd_endpoint nd)))
                        (qa_config_path a) (qa_filename a) witness_string sys_keys
                        (node_channel nd (qe_queue Q)) (host_world h2)))))"

definition quickbeam_main ::
  "('v, 'vh, 's, 'k, 'g, 't, 'crs, 'pk, 'ct, 'pd, 'n, 'e, 'a, 'x, 'p, 'ak, 'sg, 'w, 'd, 'c, 'lag, 'sk, 'agg, 'ek, 'g2) quickbeam_env
   \<Rightarrow> 's \<Rightarrow> 't \<Rightarrow> quickbeam_command option \<Rightarrow> ('n, 'd, 'w) client_host
   \<Rightarrow> ((unit, string) outcome \<times> ('n, 'd, 'w) client_host) option" where
  "quickbeam_main Q isk tsk command h =
     (case command of
        Some (Encrypt_Command a message_path intent) \<Rightarrow> Some (quickbeam_encrypt Q isk tsk a message_path intent h)
      | Some (Decrypt_Command a witness_string request_pool) \<Rightarrow> quickbeam_decrypt Q isk tsk a witness_string request_pool h
      | None \<Rightarrow> Some (Ok (), h))"


section \<open>Properties\<close>

lemma node_build_disconnected: "node_build NB port i cfg isk tsk h = (Ok nd, h') \<Longrightarrow> \<not> nd_pd_connected nd"
  by (auto simp: node_build_def bind_action_Ok_iff case_prod_beta)

lemma substrate_backend_new_client:
  "substrate_backend_new vo V P account connected cfg = Ok B \<Longrightarrow> connected = Ok (client B)"
  by (auto simp: substrate_backend_new_def outcome_simps case_prod_beta)

lemma node_build_disk:
  assumes "node_build NB port i cfg isk tsk h = (Ok nd, h')"
  obtains ident where "host_service h' = host_service h\<lparr>net_disk := (net_disk (host_service h))\<lparr>disk_files :=
      (disk_files (net_disk (host_service h)))(''pubkey.txt'' \<mapsto> ident)\<rparr>\<rparr>"
proof -
  obtain sk pk ps h1 e where "spawn_endpoint (nl_net NB) sk pk port ps h = (Ok e, h1)"
    and "unwrapping (in_service (in_disk (write_file (as_bytes (addr_id (nl_net NB)
           (endpoint_addr (nl_net NB) (host_net h1) e)) @ [10]) ''pubkey.txt''))) h1 = ((Ok (), h') :: (unit, string) outcome \<times> _)"
    using assms by (auto simp: node_build_def bind_action_Ok_iff case_prod_beta)
  moreover from this(1) have "host_service h1 = host_service h"
    by (auto simp: spawn_endpoint_def outcome_simps)
  ultimately show ?thesis
    using that by (auto simp: outcome_simps in_disk_def split: prod.splits dest!: write_file_Ok)
qed

lemma handle_encrypt_Ok:
  assumes "handle_encrypt X S T N store R mp f cp intent sys w = (Ok (), w')"
  obtains plaintext ec where "store_read_pt store mp (world_disk w) = Ok plaintext"
    and "ec_app_store ec = store" and "ec_registry ec = R" and "ec_system_keys ec = sys"
    and "client_encrypt T N ec plaintext (as_bytes f) intent w = (Ok (), w')"
proof -
  obtain plaintext ec where "store_read_pt store mp (world_disk w) = Ok plaintext"
    and new: "(encryption_client_new X S cp sys store R (world_disk w) :: (_, string) outcome) = Ok ec"
    and run: "unwrapping (client_encrypt T N ec plaintext (as_bytes f) intent) w = ((Ok (), w') :: (unit, string) outcome \<times> _)"
    using assms by (auto simp: handle_encrypt_def bind_action_Ok_iff expecting_Ok)
  moreover have "ec_app_store ec = store" "ec_registry ec = R" "ec_system_keys ec = sys"
    using new by (auto simp: encryption_client_new_def outcome_simps)
  ultimately show ?thesis using that by (simp add: unwrapping_Ok)
qed

text \<open>The steps of \<open>quickbeam encrypt\<close>: the disk before the message is read, and the call of the handler.\<close>

lemma quickbeam_encrypt_run:
  assumes "qe_chain Q = Ok ch"
    and "quickbeam_main Q isk tsk (Some (Encrypt_Command a message_path intent)) h = Some (Ok (), h')"
  obtains sys bs ident acc B w0 h4 w where "disk_files (net_disk (host_service h)) (qa_system_keys_dir a) = Some bs"
    and "qe_des_system_keys Q bs = Some sys" and "B = \<lparr>client = ch, signer_account = acc\<rparr>"
    and "world_disk w0 = (net_disk (host_service h))\<lparr>disk_files :=
      (disk_files (net_disk (host_service h)))(''pubkey.txt'' \<mapsto> ident)\<rparr>"
    and "world_disk (host_world h4) = world_disk (qe_meanwhile Q w0)"
    and "handle_encrypt (qe_hex Q) (qe_ste Q) (qe_tenc Q) (qe_nom Q)
         (testnet_store (qe_docs Q) (qe_intent_store Q (qa_contract_addr a) B)) (default_registry (qe_gadgets Q) B)
         message_path (qa_filename a) (qa_config_path a) intent sys (host_world h4) = (Ok (), w)"
    and "h' = put_world h4 w"
proof -
  obtain sys h1 nd h2 h3 R store B h4 where node: "quickbeam_node Q 2 isk tsk a h1 = (Ok nd, h2)"
    and sleep: "in_world (others_act (qe_meanwhile Q)) h2 = (Ok (), h3)"
    and keys: "read_system_keys Q (qa_system_keys_dir a) h = (Ok sys, h1)"
    and setup_run: "iroh_testnet_setup Q nd (qa_contract_addr a) (qa_ticket a) h3 = (Ok (R, store, B), h4)"
    and enc: "in_world (handle_encrypt (qe_hex Q) (qe_ste Q) (qe_tenc Q) (qe_nom Q) store R
         message_path (qa_filename a) (qa_config_path a) intent sys) h4 = (Ok (), h')"
    using assms(2) by (auto simp: quickbeam_main_def quickbeam_encrypt_def bind_action_Ok_iff)
  obtain bs where bs: "disk_files (net_disk (host_service h)) (qa_system_keys_dir a) = Some bs"
    "qe_des_system_keys Q bs = Some sys"
    using keys by (auto simp: read_system_keys_def read_file_def outcome_simps split: option.splits if_splits)
  have R: "R = default_registry (qe_gadgets Q) B" "store = testnet_store (qe_docs Q) (qe_intent_store Q (qa_contract_addr a) B)"
    and "qe_chain Q = Ok (client B)"
    using setup_run by (auto simp: iroh_testnet_setup_def bind_action_Ok_iff outcome_simps dest: substrate_backend_new_client)
  then have B: "B = \<lparr>client = ch, signer_account = signer_account B\<rparr>"
    using assms(1) by simp
  obtain ident where "host_service h2 = host_service h1\<lparr>net_disk := (net_disk (host_service h1))\<lparr>disk_files :=
      (disk_files (net_disk (host_service h1)))(''pubkey.txt'' \<mapsto> ident)\<rparr>\<rparr>"
    using node by (auto simp: quickbeam_node_def bind_action_Ok_iff in_net_Ok outcome_simps elim!: node_build_disk)
  moreover have "h1 = h"
    using keys by (simp add: read_system_keys_def)
  ultimately have w0: "world_disk (host_world h2) = (net_disk (host_service h))\<lparr>disk_files :=
      (disk_files (net_disk (host_service h)))(''pubkey.txt'' \<mapsto> ident)\<rparr>"
    by (simp add: host_world_def)
  have disk: "world_disk (host_world h4) = world_disk (qe_meanwhile Q (host_world h2))"
    using sleep setup_run by (auto simp: in_world_Ok others_act_def iroh_testnet_setup_def outcome_simps
        host_world_def put_world_def in_doc_def split: prod.splits)
  obtain w where "handle_encrypt (qe_hex Q) (qe_ste Q) (qe_tenc Q) (qe_nom Q) store R
         message_path (qa_filename a) (qa_config_path a) intent sys (host_world h4) = (Ok (), w)" "h' = put_world h4 w"
    using enc by (auto simp: in_world_Ok)
  then show ?thesis
    using that [OF bs B w0 disk] by (simp add: R)
qed

text \<open>
  C32. What \<open>quickbeam encrypt\<close> leaves. When the command succeeds, the intent parsed to gadgets' intents,
  the file at the message path was encrypted under the system keys that the file of system keys
  holds, the registry contract gives for the name an identifier and these intents, and the shared
  document gives the ciphertext for that identifier.
\<close>

theorem quickbeam_encrypts:
  assumes "iroh_env_ok (qe_docs Q)" and "qe_chain Q = Ok ch"
    and "\<forall>acc. intent_env_ok (qe_intent_store Q (qa_contract_addr a) \<lparr>client = ch, signer_account = acc\<rparr>)"
    and "quickbeam_main Q isk tsk (Some (Encrypt_Command a message_path intent)) h = Some (Ok (), h')"
  shows "\<exists>acc B is plaintext ec ct c bs w ident.
      B = \<lparr>client = ch, signer_account = acc\<rparr>
    \<and> parse_intents (qe_nom Q) (default_registry (qe_gadgets Q) B) intent = Ok is
    \<and> disk_files (net_disk (host_service h)) (qa_system_keys_dir a) = Some bs
    \<and> qe_des_system_keys Q bs = Some (ec_system_keys ec)
    \<and> world_disk w = (net_disk (host_service h))\<lparr>disk_files :=
          (disk_files (net_disk (host_service h)))(''pubkey.txt'' \<mapsto> ident)\<rparr>
    \<and> read_plaintext message_path (world_disk (qe_meanwhile Q w)) = Ok plaintext
    \<and> ec_app_store ec = testnet_store (qe_docs Q) (qe_intent_store Q (qa_contract_addr a) B)
    \<and> encrypt_inner (qe_tenc Q) ec plaintext = Ok ct
    \<and> contract_get_intent (qe_intent_store Q (qa_contract_addr a) B) (host_chain h') (as_bytes (qa_filename a))
        = Ok (Some (c, map detach is))
    \<and> iroh_fetch (qe_docs Q) (net_doc (host_service h')) c = Ok (Some ct)"
proof -
  obtain sys bs ident acc B w0 h4 w where bs: "disk_files (net_disk (host_service h)) (qa_system_keys_dir a) = Some bs"
    "qe_des_system_keys Q bs = Some sys" and B: "B = \<lparr>client = ch, signer_account = acc\<rparr>"
    and w0: "world_disk w0 = (net_disk (host_service h))\<lparr>disk_files :=
      (disk_files (net_disk (host_service h)))(''pubkey.txt'' \<mapsto> ident)\<rparr>"
    and disk: "world_disk (host_world h4) = world_disk (qe_meanwhile Q w0)"
    and run: "handle_encrypt (qe_hex Q) (qe_ste Q) (qe_tenc Q) (qe_nom Q)
         (testnet_store (qe_docs Q) (qe_intent_store Q (qa_contract_addr a) B)) (default_registry (qe_gadgets Q) B)
         message_path (qa_filename a) (qa_config_path a) intent sys (host_world h4) = (Ok (), w)"
    and h': "h' = put_world h4 w"
    by (rule quickbeam_encrypt_run [OF assms(2,4)])
  have J: "intent_env_ok (qe_intent_store Q (qa_contract_addr a) B)"
    using assms(3) by (simp add: B)
  obtain plaintext ec where pt: "store_read_pt (testnet_store (qe_docs Q) (qe_intent_store Q (qa_contract_addr a) B))
        message_path (world_disk (host_world h4)) = Ok plaintext"
    and ec: "ec_app_store ec = testnet_store (qe_docs Q) (qe_intent_store Q (qa_contract_addr a) B)"
      "ec_registry ec = default_registry (qe_gadgets Q) B" "ec_system_keys ec = sys"
    and ce: "client_encrypt (qe_tenc Q) (qe_nom Q) ec plaintext (as_bytes (qa_filename a)) intent (host_world h4) = (Ok (), w)"
    using handle_encrypt_Ok [OF run] .
  from client_encrypt_stores [OF assms(1) J ec(1) ce]
  obtain "is" c ct where st: "parse_intents (qe_nom Q) (default_registry (qe_gadgets Q) B) intent = Ok is"
    "encrypt_inner (qe_tenc Q) ec plaintext = Ok ct"
    "contract_get_intent (qe_intent_store Q (qa_contract_addr a) B) (world_chain w) (as_bytes (qa_filename a))
       = Ok (Some (c, map detach is))" "iroh_fetch (qe_docs Q) (world_docs w) c = Ok (Some ct)"
    unfolding ec(2) by blast
  have "world_chain w = host_chain h'" "world_docs w = net_doc (host_service h')"
    by (simp_all add: h' put_world_def)
  moreover have "read_plaintext message_path (world_disk (qe_meanwhile Q w0)) = Ok plaintext"
    using pt by (simp add: testnet_store_def disk)
  moreover have "qe_des_system_keys Q bs = Some (ec_system_keys ec)"
    using bs(2) ec(3) by simp
  ultimately show ?thesis
    using B st bs(1) w0 ec(1) by metis
qed

text \<open>A client for the witness: the demonstration node, crate and contract, and a disk with two files.\<close>

definition demo_quickbeam ::
  "(demo_vault_state, unit, byte, byte, byte \<times> bytes, byte, bytes, bytes, bytes, bytes, byte \<Rightarrow> alpn list, byte, byte, string,
    bytes, bytes, bytes \<times> bytes, registry, bytes \<rightharpoonup> bytes, bytes, unit, bytes list, unit, unit, bytes) quickbeam_env" where
  "demo_quickbeam = \<lparr>nl_vault_open = (\<lambda>_ _. Ok ((), [])), nl_vault = demo_vault, nl_iroh = demo_iroh_keys,
     nl_ste = demo_node_keys, nl_net = demo_net_lib, qe_pairs = demo_pairs, qe_account = (\<lambda>_. []),
     qe_reopen = (\<lambda>_ _. Ok ((), [(''sr25519'', ''v'', ''k'', [3])])), qe_chain = Ok demo_chain, qe_docs = demo_iroh_env,
     qe_intent_store = contract_store_new demo_ss58 demo_cid demo_vec demo_intents_codec demo_entry_codec,
     qe_pool = (\<lambda>addr B. \<lparr>pool_address = addr, pool_backend = B, pool_ss58 = pool_ss58 demo_ink_pool,
       pool_bytes = pool_bytes demo_ink_pool, pool_slice = pool_slice demo_ink_pool,
       pool_list = pool_list demo_ink_pool, pool_u64 = pool_u64 demo_ink_pool\<rparr>),
     qe_gadgets = demo_libs,
     qe_hex = demo_hex, qe_witnesses = demo_list_codec demo_bytes_codec, qe_ste = demo_ste, qe_tenc = demo_tenc,
     qe_nom = demo_nom, qe_des_system_keys = (\<lambda>_. Some []), qe_location = (\<lambda>a. Some [a]),
     qe_meanwhile = (\<lambda>w. w), qe_online = Some, qe_queue = (\<lambda>_. Silent)\<rparr>"

lemma demo_quickbeam_simps [simp]:
  "nl_vault_open demo_quickbeam = (\<lambda>_ _. Ok ((), []))" "nl_vault demo_quickbeam = demo_vault"
  "nl_iroh demo_quickbeam = demo_iroh_keys" "nl_ste demo_quickbeam = demo_node_keys" "nl_net demo_quickbeam = demo_net_lib"
  "qe_pairs demo_quickbeam = demo_pairs" "qe_account demo_quickbeam = (\<lambda>_. [])"
  "qe_reopen demo_quickbeam = (\<lambda>_ _. Ok ((), [(''sr25519'', ''v'', ''k'', [3])]))" "qe_chain demo_quickbeam = Ok demo_chain"
  "qe_docs demo_quickbeam = demo_iroh_env"
  "qe_intent_store demo_quickbeam = contract_store_new demo_ss58 demo_cid demo_vec demo_intents_codec demo_entry_codec"
  "qe_gadgets demo_quickbeam = demo_libs" "qe_hex demo_quickbeam = demo_hex" "qe_ste demo_quickbeam = demo_ste"
  "qe_tenc demo_quickbeam = demo_tenc" "qe_nom demo_quickbeam = demo_nom"
  "qe_des_system_keys demo_quickbeam = (\<lambda>_. Some [])" "qe_meanwhile demo_quickbeam = (\<lambda>w. w)"
  by (simp_all add: demo_quickbeam_def)

definition demo_quickbeam_args :: quickbeam_args where
  "demo_quickbeam_args = \<lparr>qa_filename = ''f'', qa_config_path = ''config.txt'', qa_contract_addr = ''addr'',
     qa_ticket = ''doc'', qa_system_keys_dir = ''sys'', qa_bootstrap_url = ''x'', qa_bootstrap_pubkey = ''A'',
     qa_vault_config = run_vault_config demo_run\<rparr>"

definition demo_client_host :: "(byte \<Rightarrow> alpn list, bytes \<rightharpoonup> bytes, registry) client_host" where
  "demo_client_host = \<lparr>host_net = (\<lambda>_. [])(byte_of_char CHR ''A'' := [GOSSIP_ALPN, BLOBS_ALPN, DOCS_ALPN]),
     host_service = demo_net\<lparr>net_disk := \<lparr>disk_files = [''config.txt'' \<mapsto> hex_encode demo_hex [2], ''sys'' \<mapsto> [],
       ''pt'' \<mapsto> [1, 2]], disk_refuses = (\<lambda>_. False)\<rparr>\<rparr>, host_chain = reg_new\<rparr>"

lemma demo_encrypts_any:
  assumes "reg_read (Filename [102]) (world_chain w) = None"
  shows "\<exists>w'. client_encrypt demo_tenc demo_nom demo_ec [1, 2] [102] ''Password(ab)'' w = (Ok (), w')"
proof -
  from demo_registers [OF assms, of "[2, 1]" "[demo_password ''ab'']"]
  obtain t where "contract_register_intent demo_intent_env [102] [2, 1] [demo_password ''ab''] (world_chain w) = (Ok (), t)"
    by blast
  then show ?thesis
    using demo_parse demo_encrypt_inner [of "[1, 2]"]
    unfolding client_encrypt_Ok_iff by (simp add: demo_ec_def testnet_store_def demo_add)
qed

lemma demo_quickbeam_node:
  "\<exists>nd h1. quickbeam_node demo_quickbeam 2 5 6 demo_quickbeam_args demo_client_host = (Ok nd, h1)
     \<and> nd_vault_config nd = run_vault_config demo_run \<and> host_chain h1 = reg_new
     \<and> host_service h1 = (host_service demo_client_host)\<lparr>net_disk := (net_disk (host_service demo_client_host))\<lparr>disk_files :=
         (disk_files (net_disk (host_service demo_client_host)))(''pubkey.txt'' \<mapsto> as_bytes [char_of_byte 5] @ [10])\<rparr>\<rparr>"
proof -
  have "\<not> disk_refuses (net_disk (host_service demo_client_host)) ''pubkey.txt''"
    by (simp add: demo_client_host_def demo_net_def)
  then obtain nd h1 where nd: "node_build demo_quickbeam 4000 2 (run_vault_config demo_run) 5 6 demo_client_host = (Ok nd, h1)"
    and h1: "h1 = demo_client_host\<lparr>host_net := (host_net demo_client_host)(5 := [GOSSIP_ALPN, BLOBS_ALPN, DOCS_ALPN]),
         host_service := (host_service demo_client_host)\<lparr>net_disk := (net_disk (host_service demo_client_host))\<lparr>disk_files :=
           (disk_files (net_disk (host_service demo_client_host)))(''pubkey.txt'' \<mapsto> as_bytes [char_of_byte 5] @ [10])\<rparr>\<rparr>\<rparr>"
    and cfg: "nd_vault_config nd = run_vault_config demo_run"
    using demo_node_built [OF demo_quickbeam_simps(1-5), of demo_client_host 4000 2 5 6] by blast
  have "byte_of_char CHR ''A'' \<noteq> 5" by (simp add: byte_of_char_def)
  then have "host_net h1 (byte_of_char CHR ''A'') = [GOSSIP_ALPN, BLOBS_ALPN, DOCS_ALPN]"
    by (simp add: h1 demo_client_host_def)
  note conn = demo_connects [where n = "host_net h1", OF this]
  have boot: "key_of_str demo_net_lib ''A'' = Some (byte_of_char CHR ''A'')" "socket_of_str demo_net_lib ''x'' = Some ''x''"
    "addr_new demo_net_lib k y = k" for k y
    by (simp_all add: demo_net_lib_def)
  have "quickbeam_node demo_quickbeam 2 5 6 demo_quickbeam_args demo_client_host = (Ok nd, h1)"
    by (simp add: quickbeam_node_def demo_quickbeam_args_def nd boot conn in_net_def bind_action_def)
  then show ?thesis
    by (simp add: cfg) (simp add: h1 demo_client_host_def)
qed

lemma demo_f: "as_bytes ''f'' = [102]"
  by (simp add: as_bytes_def byte_of_char_def)

lemma demo_quickbeam_runs:
  "\<exists>h'. quickbeam_main demo_quickbeam 5 6 (Some (Encrypt_Command demo_quickbeam_args ''pt'' ''Password(ab)'')) demo_client_host
     = Some (Ok (), h')"
proof -
  let ?B = "\<lparr>client = demo_chain, signer_account = []\<rparr>"
  let ?J = "contract_store_new demo_ss58 demo_cid demo_vec demo_intents_codec demo_entry_codec ''addr'' ?B"
  obtain nd h1 where nd: "quickbeam_node demo_quickbeam 2 5 6 demo_quickbeam_args demo_client_host = (Ok nd, h1)"
    and cfg: "nd_vault_config nd = run_vault_config demo_run" and chain: "host_chain h1 = reg_new"
    and svc: "host_service h1 = (host_service demo_client_host)\<lparr>net_disk := (net_disk (host_service demo_client_host))\<lparr>disk_files :=
         (disk_files (net_disk (host_service demo_client_host)))(''pubkey.txt'' \<mapsto> as_bytes [char_of_byte 5] @ [10])\<rparr>\<rparr>"
    using demo_quickbeam_node by blast
  have sys: "read_system_keys demo_quickbeam ''sys'' demo_client_host = (Ok [], demo_client_host)"
    by (simp add: read_system_keys_def read_file_def demo_client_host_def demo_net_def)
  have backend: "substrate_backend_new (\<lambda>_ _. Ok ((), [(''sr25519'', ''v'', ''k'', [3])])) demo_vault demo_pairs (\<lambda>_. []) (Ok demo_chain)
     (run_vault_config demo_run) = Ok ?B"
    by (simp add: substrate_backend_new_def run_vault_config_def demo_run_def signer_new_def sr25519_get_public_key_def
      sr25519_pair_def read_key_def unwrap_in_def bind_action_def)
      (simp add: demo_vault_def demo_pairs_def sr25519_new_store_info_def)
  have imp: "docs_import (iroh_docs_lib demo_iroh_env) ''doc'' d = (Ok (), d)" for d
    by (simp add: demo_iroh_env_def demo_iroh_def)
  have setup_run: "iroh_testnet_setup demo_quickbeam nd ''addr'' ''doc'' h
      = (Ok (default_registry demo_libs ?B, testnet_store demo_iroh_env ?J, ?B), h)" for h
    by (simp add: iroh_testnet_setup_def cfg backend imp unwrapping_def in_service_def in_doc_def bind_action_def)
  have J: "?J = demo_intent_env" by (simp add: demo_intent_env_def)
  have "reg_read (Filename [102]) (world_chain (host_world h1)) = None"
    by (simp add: host_world_def chain reg_new_def reg_read_def)
  then obtain w' where enc: "client_encrypt demo_tenc demo_nom demo_ec [1, 2] [102] ''Password(ab)'' (host_world h1) = (Ok (), w')"
    using demo_encrypts_any by blast
  have disk: "disk_files (world_disk (host_world h1)) ''config.txt'' = Some (hex_encode demo_hex [2])"
    "disk_files (world_disk (host_world h1)) ''pt'' = Some [1, 2]" "disk_refuses (world_disk (host_world h1)) p = False" for p
    by (simp_all add: host_world_def svc demo_client_host_def demo_net_def)
  have des: "des_config demo_ste [2] = Some \<lparr>crs = [], lag_polys = (), config_size = 2\<rparr>"
    by (simp add: demo_ste_def)
  have new: "encryption_client_new demo_hex demo_ste ''config.txt'' [] (testnet_store demo_iroh_env demo_intent_env)
      (default_registry demo_libs ?B) (world_disk (host_world h1)) = (Ok demo_ec :: (_, string) outcome)"
    by (simp add: encryption_client_new_def read_file_def disk hex_utf8 [OF demo_hex_ok] hex_okD [OF demo_hex_ok] des demo_ec_def)
  have pt: "store_read_pt (testnet_store demo_iroh_env demo_intent_env) ''pt'' (world_disk (host_world h1)) = Ok [1, 2]"
    by (simp add: testnet_store_def read_plaintext_def read_file_def disk)
  have "handle_encrypt demo_hex demo_ste demo_tenc demo_nom (testnet_store demo_iroh_env demo_intent_env)
      (default_registry demo_libs ?B) ''pt'' ''f'' ''config.txt'' ''Password(ab)'' [] (host_world h1) = (Ok (), w')"
    by (simp add: handle_encrypt_def expecting_def pt new bind_action_def unwrapping_def demo_f enc)
  then show ?thesis
    by (simp add: quickbeam_main_def quickbeam_encrypt_def demo_quickbeam_args_def sys nd
        [unfolded demo_quickbeam_args_def] setup_run J in_world_def others_act_def bind_action_def)
qed

theorem quickbeam_encrypts_witness:
  "\<exists>h' c. quickbeam_main demo_quickbeam 5 6 (Some (Encrypt_Command demo_quickbeam_args ''pt'' ''Password(ab)'')) demo_client_host
       = Some (Ok (), h')
     \<and> (\<exists>B is. contract_get_intent (contract_store_new demo_ss58 demo_cid demo_vec demo_intents_codec demo_entry_codec ''addr'' B)
          (host_chain h') (as_bytes ''f'') = Ok (Some (c, is)))
     \<and> (\<exists>ct. iroh_fetch demo_iroh_env (net_doc (host_service h')) c = Ok (Some ct))"
proof -
  obtain h' where run: "quickbeam_main demo_quickbeam 5 6 (Some (Encrypt_Command demo_quickbeam_args ''pt'' ''Password(ab)''))
      demo_client_host = Some (Ok (), h')"
    using demo_quickbeam_runs by blast
  have "intent_env_ok (contract_store_new demo_ss58 demo_cid demo_vec demo_intents_codec demo_entry_codec addr
      \<lparr>client = demo_chain, signer_account = acc\<rparr>)" for addr acc
    unfolding intent_env_ok_def contract_store_new_def
    by (auto simp: demo_entry_codec_ok demo_intents_codec_ok demo_cid_ok intro!: exI demo_hosts_registry)
  then have env: "\<forall>acc. intent_env_ok (qe_intent_store demo_quickbeam (qa_contract_addr demo_quickbeam_args)
      \<lparr>client = demo_chain, signer_account = acc\<rparr>)"
    by simp
  have docs: "iroh_env_ok (qe_docs demo_quickbeam)" by (simp add: demo_iroh_env_ok)
  have args: "qa_contract_addr demo_quickbeam_args = ''addr''" "qa_filename demo_quickbeam_args = ''f''"
    by (simp_all add: demo_quickbeam_args_def)
  obtain B "is" c ct where
    "contract_get_intent (qe_intent_store demo_quickbeam (qa_contract_addr demo_quickbeam_args) B) (host_chain h')
       (as_bytes (qa_filename demo_quickbeam_args)) = Ok (Some (c, is))"
    "iroh_fetch (qe_docs demo_quickbeam) (net_doc (host_service h')) c = Ok (Some ct)"
    using quickbeam_encrypts [OF docs demo_quickbeam_simps(9) env run] by blast
  then show ?thesis
    unfolding args using run by auto
qed

text \<open>
  C33. \<open>quickbeam decrypt\<close> never decrypts. Whatever its arguments, the libraries, the nodes that serve
  and the pool: the command does not end with success, because its own node holds no sender of the
  channel that the shares would come through; it ends with an error or a panic, unless it waits for
  ever because its endpoint does not come online.
\<close>

theorem quickbeam_never_decrypts:
  "case quickbeam_main Q isk tsk (Some (Decrypt_Command a witness_string request_pool)) h of
     Some (r, h') \<Rightarrow> r \<noteq> Ok ()
   | None \<Rightarrow> (\<exists>sys nd h1. read_system_keys Q (qa_system_keys_dir a) h = (Ok sys, h)
       \<and> quickbeam_node Q 3 isk tsk a h = (Ok nd, h1) \<and> qe_online Q (host_world h1) = None)"
proof -
  let ?run = "bind_action (read_system_keys Q (qa_system_keys_dir a)) (\<lambda>sys_keys.
           bind_action (quickbeam_node Q 3 isk tsk a) (\<lambda>nd. pure_action (Ok (sys_keys, nd)))) h"
  obtain r h1 where run: "?run = (r, h1)" by fastforce
  show ?thesis
  proof (cases r)
    case (Ok v)
    obtain sys nd where v: "v = (sys, nd)" by (cases v)
    have node: "read_system_keys Q (qa_system_keys_dir a) h = (Ok sys, h)" "quickbeam_node Q 3 isk tsk a h = (Ok nd, h1)"
      using run by (auto simp: Ok v bind_action_Ok_iff read_system_keys_def)
    then have "\<not> nd_pd_connected nd"
      by (auto simp: quickbeam_node_def bind_action_Ok_iff dest: node_build_disconnected)
    then have "node_channel nd (qe_queue Q) w = Disconnected" for w
      by (simp add: node_channel_def)
    note panics = disconnected_decrypt_panics [of "node_channel nd (qe_queue Q)", OF this]
    have fails: "handle_decrypt X S C T store add loc cp f ws sk (node_channel nd (qe_queue Q)) u \<noteq> None"
      "handle_decrypt X S C T store add loc cp f ws sk (node_channel nd (qe_queue Q)) u = Some (q, u') \<Longrightarrow> q \<noteq> Ok ()"
      for X S C T store add loc cp f ws sk u q u'
      using panics [of X S C T store add loc cp f ws sk u] by auto
    show ?thesis
    proof (cases "qe_online Q (host_world h1)")
      case None
      then show ?thesis
        using run node by (simp add: quickbeam_main_def quickbeam_decrypt_def Ok v)
    next
      case (Some w)
      obtain r2 h2 where setup_run: "iroh_testnet_setup Q nd (qa_contract_addr a) (qa_ticket a) (put_world h1 w) = (r2, h2)"
        by fastforce
      show ?thesis
      proof (cases r2)
        case (Ok t)
        obtain R store B where "t = (R, store, B)" by (cases t)
        with setup_run Ok run show ?thesis
          by (auto simp: quickbeam_main_def quickbeam_decrypt_def \<open>r = Ok v\<close> v Some fails split: option.split dest: fails(2))
      qed (use run setup_run in \<open>simp_all add: quickbeam_main_def quickbeam_decrypt_def \<open>r = Ok v\<close> v Some\<close>)
    qed
  qed (use run in \<open>simp_all add: quickbeam_main_def quickbeam_decrypt_def\<close>)
qed

end
