(* ===== verification/Tui_App.thy ===== *)
theory Tui_App
  imports Crypto_Client
begin

text \<open>
  The terminal interface: \<open>App\<close> of \<open>entmoot/src/main.rs\<close>, its lists and text inputs. The file holds two
  sides of a merge; this is the second, whose fields the screens use. What is drawn is in the theory
  \<open>Tui_View\<close>. The widgets, the file explorer, the key store and the
  handlers that encrypt and decrypt, which take arguments that the present crate does not have, are
  parameters over a state \<open>'w\<close> of the world outside.
\<close>

section \<open>Events\<close>

datatype key_code =
    Key_Esc
  | Key_Enter
  | Key_Tab
  | Key_Backspace
  | Key_Up
  | Key_Down
  | Key_Right
  | Key_Char string
  | Key_Other nat

datatype key_kind = Press | Repeat | Release

record key_event =
  ke_code :: key_code
  ke_modifiers :: u8
  ke_kind :: key_kind

datatype event = Key_Event key_event | Other_Input nat


section \<open>Text inputs\<close>

text \<open>\<open>ta_core\<close> is the library's text and cursor; the styles are what the program sets.\<close>

datatype color = LightGreen | DarkGray | Red | Cyan | White | Black

datatype modifier = Hidden | Underlined | Reversed

datatype style = Plain | Fg color | With modifier

record 'ta text_area =
  ta_core :: 'ta
  ta_cursor_line_style :: style
  ta_cursor_style :: style
  ta_style :: style
  ta_masked :: bool
  ta_placeholder :: string
  ta_block :: "(string \<times> color) option"

definition initialize_input_field :: "'ta \<Rightarrow> string \<Rightarrow> string \<Rightarrow> bool \<Rightarrow> 'ta text_area" where
  "initialize_input_field empty_area placeholder title masked =
     \<lparr>ta_core = empty_area, ta_cursor_line_style = Plain, ta_cursor_style = With Reversed, ta_style = Fg LightGreen,
      ta_masked = masked, ta_placeholder = placeholder, ta_block = Some (title, LightGreen)\<rparr>"

definition inactivate :: "'ta text_area \<Rightarrow> ('ta text_area, string) outcome" where
  "inactivate textarea =
     and_then (unwrap_option (ta_block textarea)) (\<lambda>(title, _).
       Ok (textarea\<lparr>ta_cursor_line_style := With Hidden, ta_cursor_style := With Hidden, ta_style := Fg DarkGray,
         ta_block := Some (title, DarkGray)\<rparr>))"

definition activate :: "'ta text_area \<Rightarrow> ('ta text_area, string) outcome" where
  "activate textarea =
     and_then (unwrap_option (ta_block textarea)) (\<lambda>(title, _).
       Ok (textarea\<lparr>ta_cursor_line_style := With Underlined, ta_cursor_style := With Reversed, ta_style := Fg LightGreen,
         ta_block := Some (title, LightGreen)\<rparr>))"

definition indicate_error :: "'ta text_area \<Rightarrow> ('ta text_area, string) outcome" where
  "indicate_error textarea =
     and_then (unwrap_option (ta_block textarea)) (\<lambda>(title, _).
       Ok (textarea\<lparr>ta_style := Fg Red, ta_placeholder := ''Input cannot be empty'',
         ta_block := Some (title, Red)\<rparr>))"


section \<open>The application\<close>

datatype screen =
    Main_Screen
  | KeyResults
  | EncryptFileSelectScreen
  | EncryptionInputScreen
  | DecryptScreen
  | IntentSelection

record ('ta, 'fx, 'w) app =
  menu_state :: "nat option"
  menu_items :: "string list"
  menu_title :: string
  intent_list_state :: "nat option"
  intent_list_items :: "(string \<times> bool) list"
  current_screen :: screen
  generated_pubkey :: "string option"
  file_explorer :: 'fx
  file_path :: "string option"
  filename_input :: "'ta text_area"
  password_input :: "'ta text_area"
  contract_address_input :: "'ta text_area"
  token_count_input :: "'ta text_area"
  decrypt_input_selection :: u8
  encrypt_input_selection :: u8
  display_password_input :: bool
  display_contract_address_input :: bool
  sr25519_intent :: bool
  is_encrypt_path :: bool
  app_backend :: "'w substrate_backend option"
  app_ticket :: string
  outside :: 'w

text \<open>The arguments of \<open>handle_encrypt\<close> and \<open>handle_decrypt\<close>, as the screens pass them, less the node.\<close>

record encrypt_call =
  en_message_path :: string
  en_filename :: string
  en_config_path :: string
  en_keystore_path :: string
  en_intent :: string
  en_contract_addr :: string
  en_ticket :: string

record decrypt_call =
  de_config_path :: string
  de_filename :: string
  de_witness :: string
  de_pt_filename :: string
  de_contract_addr :: string
  de_ticket :: string

text \<open>
  \<open>ta_lines\<close> are the lines of a text input; \<open>fx_current\<close> is the entry under the explorer's cursor,
  whether it is a file, and its path. \<open>keystore_keys\<close> are the addresses of the stored keys, \<open>dir_files\<close>
  the files of a directory with their text, where it can be read. \<open>keypair\<close> is \<open>None\<close> for a phrase
  that is not valid.
\<close>

record ('ta, 'fx, 'kp, 'w) tui_libs =
  ta_default :: 'ta
  ta_input :: "key_event \<Rightarrow> 'ta \<Rightarrow> 'ta"
  ta_lines :: "'ta \<Rightarrow> string list"
  fx_handle :: "event \<Rightarrow> ('fx, unit, string) action"
  fx_current :: "'fx \<Rightarrow> bool \<times> string"
  keystore_new :: "string \<Rightarrow> ('w, unit, string) action"
  keystore_generate :: "('w, unit, string) action"
  keystore_keys :: "'w \<Rightarrow> (string list, string) outcome"
  call_encrypt :: "encrypt_call \<Rightarrow> ('w, unit, string) action"
  call_decrypt :: "decrypt_call \<Rightarrow> ('w, unit, string) action"
  dir_files :: "'w \<Rightarrow> string \<Rightarrow> string option list option"
  keypair :: "string \<Rightarrow> 'kp option"
  kp_account :: "'kp \<Rightarrow> string"
  kp_sign :: "'kp \<Rightarrow> bytes \<Rightarrow> bytes"
  update_signer :: "'kp \<Rightarrow> 'w substrate_backend \<Rightarrow> 'w substrate_backend"
  backend_connect :: "string \<Rightarrow> 'w \<Rightarrow> ('w substrate_backend, string) outcome"
  tui_ss58 :: ss58_lib
  tui_hex :: hex_lib

type_synonym ('ta, 'fx, 'w) tui_action = "(('ta, 'fx, 'w) app, unit, string) action"

definition password_field :: "('ta, 'fx, 'kp, 'w) tui_libs \<Rightarrow> 'ta text_area" where
  "password_field L = initialize_input_field (ta_default L) ''Please enter your password'' ''Password'' True"

definition filename_field :: "('ta, 'fx, 'kp, 'w) tui_libs \<Rightarrow> 'ta text_area" where
  "filename_field L = initialize_input_field (ta_default L) ''Please enter the file name'' ''Filename'' False"

definition contract_field :: "('ta, 'fx, 'kp, 'w) tui_libs \<Rightarrow> 'ta text_area" where
  "contract_field L =
     initialize_input_field (ta_default L) ''Please enter the psp22 contract address'' ''Contract Address'' False"

definition token_field :: "('ta, 'fx, 'kp, 'w) tui_libs \<Rightarrow> 'ta text_area" where
  "token_field L = initialize_input_field (ta_default L) ''Numbers only'' ''Minimum Balance'' False"

definition app_new :: "('ta, 'fx, 'kp, 'w) tui_libs \<Rightarrow> 'fx \<Rightarrow> string \<Rightarrow> 'w \<Rightarrow> ('ta, 'fx, 'w) app" where
  "app_new L fx ticket w =
     \<lparr>menu_state = Some 0, menu_items = [''Generate Keys'', ''Inspect Keys'', ''Encrypt'', ''Decrypt''],
      menu_title = '' Main Menu '', intent_list_state = Some 0,
      intent_list_items = [(''Password'', False), (''PSP22'', False), (''SR25519'', False)],
      current_screen = Main_Screen, generated_pubkey = None, file_explorer = fx, file_path = None,
      filename_input = filename_field L, password_input = password_field L,
      contract_address_input = contract_field L, token_count_input = token_field L,
      decrypt_input_selection = 0, encrypt_input_selection = 0, display_password_input = False,
      display_contract_address_input = False, sr25519_intent = False, is_encrypt_path = True,
      app_backend = None, app_ticket = ticket, outside = w\<rparr>"

definition reset_input_fields :: "('ta, 'fx, 'kp, 'w) tui_libs \<Rightarrow> ('ta, 'fx, 'w) app \<Rightarrow> ('ta, 'fx, 'w) app" where
  "reset_input_fields L s =
     s\<lparr>password_input := password_field L, filename_input := filename_field L,
       contract_address_input := contract_field L, token_count_input := token_field L\<rparr>"

definition reset_intent_list :: "('ta, 'fx, 'w) app \<Rightarrow> ('ta, 'fx, 'w) app" where
  "reset_intent_list s =
     s\<lparr>intent_list_state := Some 0, intent_list_items := map (\<lambda>(item, _). (item, False)) (intent_list_items s)\<rparr>"


section \<open>Lists and fields\<close>

text \<open>\<open>next\<close> and \<open>previous\<close> of a list that is never empty.\<close>

definition list_next :: "'a list \<Rightarrow> nat option \<Rightarrow> nat" where
  "list_next items selected =
     (case selected of
        Some i \<Rightarrow> if i \<ge> length items - 1 then 0 else i + 1
      | None \<Rightarrow> 0)"

definition list_previous :: "'a list \<Rightarrow> nat option \<Rightarrow> nat" where
  "list_previous items selected =
     (case selected of
        Some i \<Rightarrow> if i = 0 then length items - 1 else i - 1
      | None \<Rightarrow> 0)"

datatype input_field = Filename_Field | Password_Field | Contract_Field | Token_Field

fun get_input :: "input_field \<Rightarrow> ('ta, 'fx, 'w) app \<Rightarrow> 'ta text_area" where
  "get_input Filename_Field s = filename_input s"
| "get_input Password_Field s = password_input s"
| "get_input Contract_Field s = contract_address_input s"
| "get_input Token_Field s = token_count_input s"

fun put_input :: "input_field \<Rightarrow> 'ta text_area \<Rightarrow> ('ta, 'fx, 'w) app \<Rightarrow> ('ta, 'fx, 'w) app" where
  "put_input Filename_Field t s = s\<lparr>filename_input := t\<rparr>"
| "put_input Password_Field t s = s\<lparr>password_input := t\<rparr>"
| "put_input Contract_Field t s = s\<lparr>contract_address_input := t\<rparr>"
| "put_input Token_Field t s = s\<lparr>token_count_input := t\<rparr>"

definition on_field ::
  "('ta text_area \<Rightarrow> ('ta text_area, string) outcome) \<Rightarrow> input_field \<Rightarrow> ('ta, 'fx, 'w) tui_action" where
  "on_field f fld s =
     (case f (get_input fld s) of
        Ok t \<Rightarrow> (Ok (), put_input fld t s)
      | Err e \<Rightarrow> (Err e, s)
      | Panic p \<Rightarrow> (Panic p, s))"

definition changing :: "(('ta, 'fx, 'w) app \<Rightarrow> ('ta, 'fx, 'w) app) \<Rightarrow> ('ta, 'fx, 'w) tui_action" where
  "changing f s = (Ok (), f s)"

definition outdoors :: "('w, 'a, 'e) action \<Rightarrow> (('ta, 'fx, 'w) app, 'a, 'e) action" where
  "outdoors m s = (case m (outside s) of (r, w) \<Rightarrow> (r, s\<lparr>outside := w\<rparr>))"

definition type_key :: "('ta, 'fx, 'kp, 'w) tui_libs \<Rightarrow> input_field \<Rightarrow> key_event \<Rightarrow> ('ta, 'fx, 'w) tui_action" where
  "type_key L fld key =
     on_field (\<lambda>t. Ok (t\<lparr>ta_core := ta_input L key (ta_core t)\<rparr>)) fld"

text \<open>\<open>lines().join("\n")\<close>.\<close>

fun join_lines :: "string list \<Rightarrow> string" where
  "join_lines [] = []"
| "join_lines [x] = x"
| "join_lines (x # y # xs) = x @ CHR 0x0A # join_lines (y # xs)"

definition input_text :: "('ta, 'fx, 'kp, 'w) tui_libs \<Rightarrow> input_field \<Rightarrow> ('ta, 'fx, 'w) app \<Rightarrow> string" where
  "input_text L fld s = join_lines (ta_lines L (ta_core (get_input fld s)))"

text \<open>\<open>then_do\<close> is a sequence of statements.\<close>

definition then_do :: "('s, unit, 'e) action \<Rightarrow> ('s, 'a, 'e) action \<Rightarrow> ('s, 'a, 'e) action" where
  "then_do m n = bind_action m (\<lambda>_. n)"

end
