(* ===== verification/Tui_Screens.thy ===== *)
theory Tui_Screens
  imports Tui_App
begin

text \<open>
  The screens of the terminal interface: the key screens of \<open>menus/key_results_screen.rs\<close>, the file
  and input screens of \<open>menus/encryption/\<close>, the list of intents, and \<open>menus/decryption/decrypt_screen.rs\<close>,
  each as the handler of a key.
\<close>

section \<open>Keys\<close>

definition quoted :: "string \<Rightarrow> string" where
  "quoted address = CHR 0x22 # address @ [CHR 0x22]"

definition show_keys :: "string \<Rightarrow> ('ta, 'fx, 'w) app \<Rightarrow> ('ta, 'fx, 'w) app" where
  "show_keys text s = s\<lparr>generated_pubkey := Some text, current_screen := KeyResults\<rparr>"

definition generate_keys :: "('ta, 'fx, 'kp, 'w) tui_libs \<Rightarrow> ('ta, 'fx, 'w) tui_action" where
  "generate_keys L =
     then_do (unwrapping (outdoors (keystore_new L ''tmp/keystore'')))
    (then_do (unwrapping (outdoors (keystore_generate L)))
    (bind_action (\<lambda>s. (unwrap_result (keystore_keys L (outside s)), s)) (\<lambda>keys.
       case keys of
         [] \<Rightarrow> pure_action (Panic Index_Out_Of_Bounds)
       | key # _ \<Rightarrow> changing (show_keys (''Public: '' @ quoted key)))))"

definition inspect_keys :: "('ta, 'fx, 'kp, 'w) tui_libs \<Rightarrow> ('ta, 'fx, 'w) tui_action" where
  "inspect_keys L =
     then_do (unwrapping (outdoors (keystore_new L ''tmp/keystore'')))
       (\<lambda>s. case keystore_keys L (outside s) of
              Ok (key # _) \<Rightarrow> (Ok (), show_keys (''Public: '' @ quoted key) s)
            | Ok [] \<Rightarrow> (Ok (), show_keys ''No keys found in keystore'' s)
            | Err _ \<Rightarrow> (Ok (), s)
            | Panic p \<Rightarrow> (Panic p, s))"

definition key_results_input :: "key_code \<Rightarrow> ('ta, 'fx, 'w) tui_action" where
  "key_results_input code =
     (if code = Key_Esc \<or> code = Key_Char ''c''
      then changing (\<lambda>s. s\<lparr>current_screen := Main_Screen, generated_pubkey := None\<rparr>)
      else pure_action (Ok ()))"


section \<open>Choosing a file\<close>

definition file_select_input ::
  "('ta, 'fx, 'kp, 'w) tui_libs \<Rightarrow> key_code \<Rightarrow> event \<Rightarrow> ('ta, 'fx, 'w) tui_action" where
  "file_select_input L code ev s =
     (if code = Key_Esc \<or> code = Key_Char ''c'' then
        (Ok (), s\<lparr>current_screen := Main_Screen, generated_pubkey := None\<rparr>)
      else if code = Key_Enter then
        (case fx_current L (file_explorer s) of (is_file, path) \<Rightarrow>
           if is_file
           then (Ok (), s\<lparr>file_path := Some path, current_screen := IntentSelection, menu_title := '' Select Intents ''\<rparr>)
           else (Ok (), s))
      else
        (case fx_handle L ev (file_explorer s) of (r, fx) \<Rightarrow> (r, s\<lparr>file_explorer := fx\<rparr>)))"


section \<open>Encrypting the file\<close>

text \<open>
  \<open>Path::file_name\<close>: the last component of the path, unless it is \<open>..\<close>; empty components and \<open>.\<close> do
  not count.
\<close>

definition path_file_name :: "string \<Rightarrow> string option" where
  "path_file_name p =
     (case rev (filter (\<lambda>c. c \<noteq> [] \<and> c \<noteq> ''.'') (split_char CHR ''/'' p)) of
        [] \<Rightarrow> None
      | c # _ \<Rightarrow> if c = ''..'' then None else Some c)"

definition base_name :: "string \<Rightarrow> string" where
  "base_name p = (case path_file_name p of Some name \<Rightarrow> name | None \<Rightarrow> ''unknown'')"

definition store_address :: string where
  "store_address = ''5Ccuf8QBBoqZtUPFTxwixMd9mfHLUmXhRvNfBdEU7uL1ApR7''"

text \<open>A result that the caller drops: an error is ignored, a panic is not.\<close>

definition dropping :: "('s, unit, 'e) action \<Rightarrow> ('s, unit, 'f) action" where
  "dropping m s =
     (case m s of
        (Ok _, t) \<Rightarrow> (Ok (), t)
      | (Err _, t) \<Rightarrow> (Ok (), t)
      | (Panic p, t) \<Rightarrow> (Panic p, t))"

definition encrypt_file ::
  "('ta, 'fx, 'kp, 'w) tui_libs \<Rightarrow> string \<Rightarrow> ('ta, 'fx, 'w) tui_action" where
  "encrypt_file L intent_str s =
     (case file_path s of
        None \<Rightarrow> (Panic Unwrap_None, s)
      | Some path \<Rightarrow>
          outdoors (dropping (call_encrypt L
            \<lparr>en_message_path = base_name path, en_filename = base_name path, en_config_path = ''config.txt'',
             en_keystore_path = ''tmp/keystore'', en_intent = intent_str, en_contract_addr = store_address,
             en_ticket = app_ticket s\<rparr>)) s)"

definition handle_encrypt_all ::
  "('ta, 'fx, 'kp, 'w) tui_libs \<Rightarrow> string \<Rightarrow> string \<Rightarrow> string \<Rightarrow> ('ta, 'fx, 'w) tui_action" where
  "handle_encrypt_all L password token_contract token_count s =
     encrypt_file L
       (if sr25519_intent s
        then ''Password('' @ password @ '') && Psp22('' @ token_contract @ '', '' @ token_count @ '') && Sr25519()''
        else ''Password('' @ password @ '') && Psp22('' @ token_contract @ '', '' @ token_count @ '')'') s"

definition handle_encrypt_psp22 ::
  "('ta, 'fx, 'kp, 'w) tui_libs \<Rightarrow> string \<Rightarrow> string \<Rightarrow> ('ta, 'fx, 'w) tui_action" where
  "handle_encrypt_psp22 L token_contract token_count s =
     encrypt_file L
       (if sr25519_intent s
        then ''Psp22('' @ token_contract @ '', '' @ token_count @ '') && Sr25519()''
        else ''Psp22('' @ token_contract @ '', '' @ token_count @ '')'') s"

definition handle_encrypt_password ::
  "('ta, 'fx, 'kp, 'w) tui_libs \<Rightarrow> string \<Rightarrow> ('ta, 'fx, 'w) tui_action" where
  "handle_encrypt_password L password s =
     encrypt_file L
       (if sr25519_intent s then ''Password('' @ password @ '') && Sr25519()'' else ''Password('' @ password @ '')'') s"

definition encryption_cleanup :: "('ta, 'fx, 'kp, 'w) tui_libs \<Rightarrow> ('ta, 'fx, 'w) app \<Rightarrow> ('ta, 'fx, 'w) app" where
  "encryption_cleanup L s =
     (reset_intent_list ((reset_input_fields L s)\<lparr>generated_pubkey := None, file_path := None,
        current_screen := Main_Screen\<rparr>))
       \<lparr>display_contract_address_input := False, display_password_input := False, encrypt_input_selection := 0\<rparr>"

definition match_num_chars :: "('ta, 'fx, 'kp, 'w) tui_libs \<Rightarrow> key_event \<Rightarrow> ('ta, 'fx, 'w) tui_action" where
  "match_num_chars L key =
     (case ke_code key of
        Key_Char c \<Rightarrow>
          if c = ''0'' then
            then_do (on_field activate Token_Field)
              (\<lambda>s. if input_text L Token_Field s \<noteq> [] then type_key L Token_Field key s else (Ok (), s))
          else if c \<in> {''1'', ''2'', ''3'', ''4'', ''5'', ''6'', ''7'', ''8'', ''9''} then
            then_do (on_field activate Token_Field) (type_key L Token_Field key)
          else pure_action (Ok ())
      | Key_Backspace \<Rightarrow> then_do (on_field activate Token_Field) (type_key L Token_Field key)
      | _ \<Rightarrow> pure_action (Ok ()))"

text \<open>\<open>show_error\<close> marks a field whose text is empty.\<close>

definition show_error :: "('ta, 'fx, 'kp, 'w) tui_libs \<Rightarrow> input_field \<Rightarrow> ('ta, 'fx, 'w) tui_action" where
  "show_error L fld s = (if input_text L fld s = [] then on_field indicate_error fld s else (Ok (), s))"

definition encryption_tab :: "('ta, 'fx, 'w) tui_action" where
  "encryption_tab s =
     (if display_contract_address_input s \<and> display_password_input s then
        let selection = (encrypt_input_selection s + 1) mod 3;
            s = s\<lparr>encrypt_input_selection := selection\<rparr>
        in if selection = 0 then
             then_do (on_field activate Password_Field) (then_do (on_field inactivate Contract_Field)
               (on_field inactivate Token_Field)) s
           else if selection = 1 then
             then_do (on_field inactivate Password_Field) (then_do (on_field activate Contract_Field)
               (on_field inactivate Token_Field)) s
           else
             then_do (on_field inactivate Password_Field) (then_do (on_field inactivate Contract_Field)
               (on_field activate Token_Field)) s
      else if display_contract_address_input s then
        let selection = (encrypt_input_selection s + 1) mod 2;
            s = s\<lparr>encrypt_input_selection := selection\<rparr>
        in if selection = 0 then
             then_do (on_field activate Contract_Field) (on_field inactivate Token_Field) s
           else
             then_do (on_field inactivate Contract_Field) (on_field activate Token_Field) s
      else (Ok (), s))"

definition encryption_enter :: "('ta, 'fx, 'kp, 'w) tui_libs \<Rightarrow> ('ta, 'fx, 'w) tui_action" where
  "encryption_enter L s =
     (let password = input_text L Password_Field s;
          token_contract = input_text L Contract_Field s;
          token_count = input_text L Token_Field s
      in if display_contract_address_input s \<and> display_password_input s then
           if password = [] \<or> token_contract = [] \<or> token_count = [] then
             then_do (show_error L Password_Field) (then_do (show_error L Contract_Field) (show_error L Token_Field)) s
           else
             then_do (handle_encrypt_all L password token_contract token_count) (changing (encryption_cleanup L)) s
         else if display_contract_address_input s then
           if token_contract = [] \<or> token_count = [] then
             then_do (show_error L Contract_Field) (show_error L Token_Field) s
           else
             then_do (handle_encrypt_psp22 L token_contract token_count) (changing (encryption_cleanup L)) s
         else if password = [] then show_error L Password_Field s
         else then_do (handle_encrypt_password L password) (changing (encryption_cleanup L)) s)"

definition encryption_type :: "('ta, 'fx, 'kp, 'w) tui_libs \<Rightarrow> key_event \<Rightarrow> ('ta, 'fx, 'w) tui_action" where
  "encryption_type L key s =
     (if display_contract_address_input s \<and> display_password_input s then
        if encrypt_input_selection s = 0 then then_do (on_field activate Password_Field) (type_key L Password_Field key) s
        else if encrypt_input_selection s = 1 then then_do (on_field activate Contract_Field) (type_key L Contract_Field key) s
        else if encrypt_input_selection s = 2 then match_num_chars L key s
        else (Ok (), s)
      else if display_contract_address_input s then
        if encrypt_input_selection s = 0 then then_do (on_field activate Contract_Field) (type_key L Contract_Field key) s
        else if encrypt_input_selection s = 1 then match_num_chars L key s
        else (Ok (), s)
      else then_do (on_field activate Password_Field) (type_key L Password_Field key) s)"

definition encryption_input :: "('ta, 'fx, 'kp, 'w) tui_libs \<Rightarrow> key_event \<Rightarrow> ('ta, 'fx, 'w) tui_action" where
  "encryption_input L key =
     (case ke_code key of
        Key_Esc \<Rightarrow> changing (encryption_cleanup L)
      | Key_Tab \<Rightarrow> encryption_tab
      | Key_Enter \<Rightarrow> encryption_enter L
      | _ \<Rightarrow> encryption_type L key)"


section \<open>Choosing intents\<close>

definition intent_chosen :: "nat \<Rightarrow> ('ta, 'fx, 'w) app \<Rightarrow> (bool, string) outcome" where
  "intent_chosen i s = (if i < length (intent_list_items s) then Ok (snd (intent_list_items s ! i)) else Panic Unwrap_None)"

definition intents_select :: "('ta, 'fx, 'w) tui_action" where
  "intents_select s =
     (case intent_list_state s of
        None \<Rightarrow> (Ok (), s)
      | Some i \<Rightarrow>
          if i < length (intent_list_items s)
          then (case intent_list_items s ! i of (item, item_selected) \<Rightarrow>
                  (Ok (), s\<lparr>intent_list_items := (intent_list_items s)[i := (item, \<not> item_selected)]\<rparr>))
          else (Panic Unwrap_None, s))"

text \<open>After the flags are set: encrypt at once, ask for more input, or ask what to decrypt.\<close>

definition intents_confirmed :: "('ta, 'fx, 'kp, 'w) tui_libs \<Rightarrow> ('ta, 'fx, 'w) tui_action" where
  "intents_confirmed L s =
     (if \<not> sr25519_intent s \<and> \<not> display_contract_address_input s \<and> \<not> display_password_input s then (Ok (), s)
      else if is_encrypt_path s then
        if sr25519_intent s \<and> \<not> display_contract_address_input s \<and> \<not> display_password_input s then
          then_do (encrypt_file L ''Sr25519()'')
            (changing (\<lambda>s. (reset_intent_list (s\<lparr>current_screen := Main_Screen, generated_pubkey := None\<rparr>))
               \<lparr>sr25519_intent := False\<rparr>)) s
        else
          then_do
            (if display_password_input s
             then then_do (on_field activate Password_Field) (then_do (on_field inactivate Contract_Field)
                    (on_field inactivate Token_Field))
             else then_do (on_field activate Contract_Field) (on_field inactivate Token_Field))
            (changing (\<lambda>s. s\<lparr>current_screen := EncryptionInputScreen, menu_title := '' Enter Encryption Info ''\<rparr>)) s
      else
        then_do (changing (\<lambda>s. s\<lparr>menu_title := '' Decrypt Files '', current_screen := DecryptScreen\<rparr>))
          (then_do (on_field activate Filename_Field)
            (if display_password_input s then on_field inactivate Password_Field else pure_action (Ok ()))) s)"

definition intents_enter :: "('ta, 'fx, 'kp, 'w) tui_libs \<Rightarrow> ('ta, 'fx, 'w) tui_action" where
  "intents_enter L =
     bind_action (\<lambda>s. (intent_chosen 0 s, s)) (\<lambda>password.
     then_do (changing (\<lambda>s. s\<lparr>display_password_input := password\<rparr>))
    (bind_action (\<lambda>s. (intent_chosen 1 s, s)) (\<lambda>token_contract.
     then_do (changing (\<lambda>s. s\<lparr>display_contract_address_input := token_contract\<rparr>))
    (bind_action (\<lambda>s. (intent_chosen 2 s, s)) (\<lambda>sr25519.
     then_do (changing (\<lambda>s. s\<lparr>sr25519_intent := sr25519\<rparr>)) (intents_confirmed L))))))"

definition intents_next :: "('ta, 'fx, 'w) app \<Rightarrow> ('ta, 'fx, 'w) app" where
  "intents_next s = s\<lparr>intent_list_state := Some (case intent_list_state s of
     Some i \<Rightarrow> if i \<ge> length (intent_list_items s) - 1 then 0 else i + 1
   | None \<Rightarrow> 0)\<rparr>"

definition intents_previous :: "('ta, 'fx, 'w) app \<Rightarrow> ('ta, 'fx, 'w) app" where
  "intents_previous s = s\<lparr>intent_list_state := Some (case intent_list_state s of
     Some i \<Rightarrow> if i = 0 then length (intent_list_items s) - 1 else i - 1
   | None \<Rightarrow> 0)\<rparr>"

text \<open>They move like the menu's.\<close>

lemma intents_moves:
  "intents_next = (\<lambda>s. s\<lparr>intent_list_state := Some (list_next (intent_list_items s) (intent_list_state s))\<rparr>)"
  "intents_previous = (\<lambda>s. s\<lparr>intent_list_state := Some (list_previous (intent_list_items s) (intent_list_state s))\<rparr>)"
  by (simp_all add: fun_eq_iff intents_next_def intents_previous_def list_next_def list_previous_def)

definition intents_input :: "('ta, 'fx, 'kp, 'w) tui_libs \<Rightarrow> key_code \<Rightarrow> ('ta, 'fx, 'w) tui_action" where
  "intents_input L code =
     (if code = Key_Esc \<or> code = Key_Char ''q'' then
        changing (\<lambda>s. reset_intent_list (s\<lparr>current_screen := Main_Screen, generated_pubkey := None\<rparr>))
      else if code = Key_Enter then intents_enter L
      else if code = Key_Char '' '' then intents_select
      else if code = Key_Down then changing intents_next
      else if code = Key_Up then changing intents_previous
      else pure_action (Ok ()))"


section \<open>Decrypting\<close>

text \<open>
  \<open>load_mnemonic\<close> of \<open>fangorn/src/utils.rs\<close>: the text of the first file of the directory, without the
  white space and then the quotes around it.
\<close>

definition trim_quotes :: "string \<Rightarrow> string" where
  "trim_quotes s = rev (dropWhile (\<lambda>c. c = CHR 0x22) (rev (dropWhile (\<lambda>c. c = CHR 0x22) s)))"

definition load_mnemonic :: "('ta, 'fx, 'kp, 'w) tui_libs \<Rightarrow> string \<Rightarrow> 'w \<Rightarrow> (string, string) outcome" where
  "load_mnemonic L keystore_path w =
     (case dir_files L w keystore_path of
        None \<Rightarrow> Panic Unwrap_Err
      | Some [] \<Rightarrow> Panic Index_Out_Of_Bounds
      | Some (None # _) \<Rightarrow> Panic (Expect ''Issue reading keystore'')
      | Some (Some seed # _) \<Rightarrow> Ok (trim_quotes (trim seed)))"

text \<open>The hexadecimal signature on the nonce of the account.\<close>

definition signed_nonce :: "('ta, 'fx, 'kp, 'w) tui_libs \<Rightarrow> 'kp \<Rightarrow> (('ta, 'fx, 'w) app, string, string) action" where
  "signed_nonce L signer s =
     (let pubkey_bytes = decode_public_key (tui_ss58 L) (kp_account L signer)
      in (and_then (unwrap_option (app_backend s)) (\<lambda>backend.
          and_then (unwrap_result (nonce backend (outside s) pubkey_bytes)) (\<lambda>n.
            Ok (map char_of_byte (hex_encode (tui_hex L) (kp_sign L signer (u32_to_le_bytes n)))))), s))"

definition prepare_witness_string ::
  "('ta, 'fx, 'kp, 'w) tui_libs \<Rightarrow> string \<Rightarrow> (('ta, 'fx, 'w) app, string, string) action" where
  "prepare_witness_string L password =
     bind_action (\<lambda>s. (load_mnemonic L ''tmp/keystore'' (outside s), s)) (\<lambda>mnemonic_string.
     bind_action (pure_action (unwrap_result (ok_or ([] :: string) (keypair L mnemonic_string)))) (\<lambda>signer.
     bind_action (\<lambda>s. (unwrap_option (app_backend s), s)) (\<lambda>backend.
     then_do (changing (\<lambda>s. s\<lparr>app_backend := Some (update_signer L signer backend)\<rparr>))
       (\<lambda>s. let pubkey = kp_account L signer
            in if display_password_input s \<and> display_contract_address_input s \<and> sr25519_intent s then
                 bind_action (signed_nonce L signer) (\<lambda>signature_hex.
                   pure_action (Ok (password @ '','' @ pubkey @ '','' @ pubkey @ signature_hex))) s
               else if \<not> display_password_input s \<and> display_contract_address_input s \<and> sr25519_intent s then
                 bind_action (signed_nonce L signer) (\<lambda>signature_hex.
                   pure_action (Ok (pubkey @ '','' @ pubkey @ signature_hex))) s
               else if display_password_input s \<and> \<not> display_contract_address_input s \<and> sr25519_intent s then
                 bind_action (signed_nonce L signer) (\<lambda>signature_hex.
                   pure_action (Ok (password @ '','' @ pubkey @ signature_hex))) s
               else if display_password_input s \<and> display_contract_address_input s \<and> \<not> sr25519_intent s then
                 (Ok (password @ '','' @ pubkey), s)
               else if \<not> display_password_input s \<and> display_contract_address_input s \<and> \<not> sr25519_intent s then
                 (Ok pubkey, s)
               else if display_password_input s \<and> \<not> display_contract_address_input s \<and> \<not> sr25519_intent s then
                 (Ok password, s)
               else if \<not> display_password_input s \<and> \<not> display_contract_address_input s \<and> sr25519_intent s then
                 bind_action (signed_nonce L signer) (\<lambda>signature_hex.
                   pure_action (Ok (pubkey @ signature_hex))) s
               else (Ok [], s)))))"

definition decrypt_cleanup :: "('ta, 'fx, 'kp, 'w) tui_libs \<Rightarrow> ('ta, 'fx, 'w) app \<Rightarrow> ('ta, 'fx, 'w) app" where
  "decrypt_cleanup L s =
     reset_intent_list ((reset_input_fields L (s\<lparr>generated_pubkey := None\<rparr>))
       \<lparr>file_path := None, decrypt_input_selection := 0, current_screen := Main_Screen\<rparr>)"

definition decrypt_file :: "('ta, 'fx, 'kp, 'w) tui_libs \<Rightarrow> string \<Rightarrow> string \<Rightarrow> ('ta, 'fx, 'w) tui_action" where
  "decrypt_file L filename password =
     bind_action (expecting ''Something went wrong when creating witness string'' (prepare_witness_string L password))
       (\<lambda>witness_string.
     then_do (\<lambda>s. outdoors (dropping (call_decrypt L
         \<lparr>de_config_path = ''config.txt'', de_filename = filename, de_witness = witness_string,
          de_pt_filename = filename, de_contract_addr = store_address, de_ticket = app_ticket s\<rparr>)) s)
       (changing (decrypt_cleanup L)))"

definition decrypt_enter :: "('ta, 'fx, 'kp, 'w) tui_libs \<Rightarrow> ('ta, 'fx, 'w) tui_action" where
  "decrypt_enter L s =
     (let filename = input_text L Filename_Field s;
          password = input_text L Password_Field s
      in if display_password_input s then
           then_do (show_error L Filename_Field)
             (if password = [] \<or> filename = [] then show_error L Password_Field
              else decrypt_file L filename password) s
         else if filename = [] then show_error L Filename_Field s
         else decrypt_file L filename [] s)"

definition decrypt_tab :: "('ta, 'fx, 'w) tui_action" where
  "decrypt_tab s =
     (if display_password_input s then
        let selection = (decrypt_input_selection s + 1) mod 2;
            s = s\<lparr>decrypt_input_selection := selection\<rparr>
        in if selection = 0
           then then_do (on_field activate Filename_Field) (on_field inactivate Password_Field) s
           else then_do (on_field inactivate Filename_Field) (on_field activate Password_Field) s
      else (Ok (), s))"

definition decrypt_type :: "('ta, 'fx, 'kp, 'w) tui_libs \<Rightarrow> key_event \<Rightarrow> ('ta, 'fx, 'w) tui_action" where
  "decrypt_type L key s =
     (if display_password_input s then
        if decrypt_input_selection s = 0
        then then_do (type_key L Filename_Field key) (on_field activate Filename_Field) s
        else then_do (type_key L Password_Field key) (on_field activate Password_Field) s
      else then_do (type_key L Filename_Field key) (on_field activate Filename_Field) s)"

definition decrypt_input :: "('ta, 'fx, 'kp, 'w) tui_libs \<Rightarrow> key_event \<Rightarrow> ('ta, 'fx, 'w) tui_action" where
  "decrypt_input L key =
     (case ke_code key of
        Key_Esc \<Rightarrow> changing (decrypt_cleanup L)
      | Key_Tab \<Rightarrow> decrypt_tab
      | Key_Enter \<Rightarrow> decrypt_enter L
      | _ \<Rightarrow> decrypt_type L key)"

end
