(* ===== verification/Tui.thy ===== *)
theory Tui
  imports Tui_Screens
begin

text \<open>
  The run of the terminal interface, \<open>App::run\<close> of \<open>entmoot/src/main.rs\<close>: the main menu, the loop that
  draws, polls and dispatches to the screens; its invariant, and what the invariant gives: no
  handler panics by itself, every selection is in range, and the escape key leads out.
\<close>

section \<open>The main menu\<close>

definition main_select :: "('ta, 'fx, 'kp, 'w) tui_libs \<Rightarrow> ('ta, 'fx, 'w) tui_action" where
  "main_select L s =
     (case menu_state s of
        None \<Rightarrow> (Ok (), s)
      | Some selected \<Rightarrow>
          if selected = 0 then generate_keys L (s\<lparr>menu_title := '' Generate Keys ''\<rparr>)
          else if selected = 1 then inspect_keys L (s\<lparr>menu_title := '' Inspect Keys ''\<rparr>)
          else if selected = 2 then
            (Ok (), s\<lparr>menu_title := '' Select File '', is_encrypt_path := True, current_screen := EncryptFileSelectScreen\<rparr>)
          else if selected = 3 then
            (Ok (), s\<lparr>menu_title := '' Select Intents '', is_encrypt_path := False, current_screen := IntentSelection\<rparr>)
          else (Ok (), s))"

text \<open>The result of an event is whether the loop goes on.\<close>

definition going_on :: "('ta, 'fx, 'w) tui_action \<Rightarrow> (('ta, 'fx, 'w) app, bool, string) action" where
  "going_on m = bind_action m (\<lambda>_. pure_action (Ok True))"

definition main_input :: "('ta, 'fx, 'kp, 'w) tui_libs \<Rightarrow> key_code \<Rightarrow> (('ta, 'fx, 'w) app, bool, string) action" where
  "main_input L code =
     (if code = Key_Esc \<or> code = Key_Char ''q'' then pure_action (Ok False)
      else if code = Key_Up \<or> code = Key_Char ''k'' then
        going_on (changing (\<lambda>s. s\<lparr>menu_state := Some (list_previous (menu_items s) (menu_state s))\<rparr>))
      else if code = Key_Down \<or> code = Key_Char ''j'' then
        going_on (changing (\<lambda>s. s\<lparr>menu_state := Some (list_next (menu_items s) (menu_state s))\<rparr>))
      else if code = Key_Enter \<or> code = Key_Char '' '' \<or> code = Key_Right then going_on (main_select L)
      else pure_action (Ok True))"


section \<open>The loop\<close>

definition app_event :: "('ta, 'fx, 'kp, 'w) tui_libs \<Rightarrow> event \<Rightarrow> (('ta, 'fx, 'w) app, bool, string) action" where
  "app_event L ev s =
     (case ev of
        Other_Input _ \<Rightarrow> (Ok True, s)
      | Key_Event key \<Rightarrow>
          if ke_kind key \<noteq> Press then (Ok True, s)
          else (case current_screen s of
                  Main_Screen \<Rightarrow> main_input L (ke_code key) s
                | KeyResults \<Rightarrow> going_on (key_results_input (ke_code key)) s
                | EncryptFileSelectScreen \<Rightarrow> going_on (file_select_input L (ke_code key) ev) s
                | EncryptionInputScreen \<Rightarrow> going_on (encryption_input L key) s
                | DecryptScreen \<Rightarrow> going_on (decrypt_input L key) s
                | IntentSelection \<Rightarrow> going_on (intents_input L (ke_code key)) s))"

text \<open>The part of drawing that changes the application: the title of the main screen.\<close>

definition draw :: "('ta, 'fx, 'w) app \<Rightarrow> ('ta, 'fx, 'w) app" where
  "draw s = (if current_screen s = Main_Screen then s\<lparr>menu_title := '' Main Menu ''\<rparr> else s)"

text \<open>
  The loop for a list of polls: \<open>None\<close> is a poll that times out. The result is whether the loop still
  runs after them.
\<close>

fun run_loop ::
  "('ta, 'fx, 'kp, 'w) tui_libs \<Rightarrow> event option list \<Rightarrow> (('ta, 'fx, 'w) app, bool, string) action" where
  "run_loop L [] s = (Ok True, s)"
| "run_loop L (p # ps) s =
     (case p of
        None \<Rightarrow> run_loop L ps (draw s)
      | Some ev \<Rightarrow>
          (case app_event L ev (draw s) of
             (Ok b, t) \<Rightarrow> if b then run_loop L ps t else (Ok False, t)
           | (Err e, t) \<Rightarrow> (Err e, t)
           | (Panic q, t) \<Rightarrow> (Panic q, t)))"

definition app_run ::
  "('ta, 'fx, 'kp, 'w) tui_libs \<Rightarrow> event option list \<Rightarrow> (('ta, 'fx, 'w) app, bool, string) action" where
  "app_run L ps =
     bind_action (\<lambda>s. (backend_connect L ''ws://localhost:9944'' (outside s), s)) (\<lambda>backend.
     bind_action (changing (\<lambda>s. s\<lparr>app_backend := Some backend\<rparr>)) (\<lambda>_. run_loop L ps))"


section \<open>What restyling leaves alone\<close>

definition blocks :: "('ta, 'fx, 'w) app \<Rightarrow> bool" where
  "blocks s \<longleftrightarrow> (\<forall>fld. ta_block (get_input fld s) \<noteq> None)"

definition only_inputs :: "('ta, 'fx, 'w) app \<Rightarrow> ('ta, 'fx, 'w) app \<Rightarrow> bool" where
  "only_inputs s t \<longleftrightarrow>
     menu_state t = menu_state s \<and> menu_items t = menu_items s \<and> menu_title t = menu_title s
     \<and> intent_list_state t = intent_list_state s \<and> intent_list_items t = intent_list_items s
     \<and> current_screen t = current_screen s \<and> generated_pubkey t = generated_pubkey s \<and>
     file_explorer t = file_explorer s \<and> file_path t = file_path s \<and> decrypt_input_selection t
     = decrypt_input_selection s \<and> encrypt_input_selection t = encrypt_input_selection s \<and>
     display_password_input t = display_password_input s \<and> display_contract_address_input t =
     display_contract_address_input s \<and> sr25519_intent t = sr25519_intent s \<and> is_encrypt_path t
     = is_encrypt_path s \<and> app_backend t = app_backend s \<and> app_ticket t = app_ticket s \<and>
     outside t = outside s"

definition styled :: "('ta, 'fx, 'w) app \<Rightarrow> ('ta, 'fx, 'w) app \<Rightarrow> bool" where
  "styled s t \<longleftrightarrow> only_inputs s t \<and> blocks t \<and> (\<forall>fld. ta_core (get_input fld t) = ta_core (get_input fld s))"

definition restyles :: "('ta, 'fx, 'w) tui_action \<Rightarrow> bool" where
  "restyles m \<longleftrightarrow> (\<forall>s. blocks s \<longrightarrow> (\<exists>t. m s = (Ok (), t) \<and> styled s t))"

lemma blocks_iff:
  "blocks s \<longleftrightarrow> ta_block (filename_input s) \<noteq> None \<and> ta_block (password_input s) \<noteq> None
     \<and> ta_block (contract_address_input s) \<noteq> None \<and> ta_block (token_count_input s) \<noteq> None"
  unfolding blocks_def by (metis get_input.simps input_field.exhaust)

lemma get_put_input [simp]: "get_input f (put_input g t s) = (if f = g then t else get_input f s)"
  by (cases f; cases g) simp_all

lemma put_input_only: "only_inputs s (put_input fld t s)"
  by (cases fld) (simp_all add: only_inputs_def)

lemma only_inputs_refl [simp]: "only_inputs s s"
  by (simp add: only_inputs_def)

lemma only_inputs_trans: "only_inputs s t \<Longrightarrow> only_inputs t u \<Longrightarrow> only_inputs s u"
  by (simp add: only_inputs_def)

lemma styled_refl: "blocks s \<Longrightarrow> styled s s"
  by (simp add: styled_def)

lemma styled_trans: "styled s t \<Longrightarrow> styled t u \<Longrightarrow> styled s u"
  by (auto simp: styled_def intro: only_inputs_trans)

lemma restylesD: "restyles m \<Longrightarrow> blocks s \<Longrightarrow> \<exists>t. m s = (Ok (), t) \<and> styled s t"
  by (simp add: restyles_def)

lemma restyles_field:
  assumes "\<And>t. ta_block t \<noteq> None \<Longrightarrow> \<exists>u. f t = Ok u \<and> ta_block u \<noteq> None \<and> ta_core u = ta_core t"
  shows "restyles (on_field f fld)"
  unfolding restyles_def
proof (intro allI impI)
  fix s :: "('a, 'b, 'c) app"
  assume b: "blocks s"
  then obtain u where "f (get_input fld s) = Ok u" "ta_block u \<noteq> None" "ta_core u = ta_core (get_input fld s)"
    using assms [of "get_input fld s"] by (auto simp: blocks_def)
  then show "\<exists>t. on_field f fld s = (Ok (), t) \<and> styled s t"
    using b by (auto simp: on_field_def styled_def put_input_only blocks_def)
qed

lemma restyles_styles [simp]:
  "restyles (on_field activate fld)" "restyles (on_field inactivate fld)" "restyles (on_field indicate_error fld)"
  by (rule restyles_field; auto simp: activate_def inactivate_def indicate_error_def)+

lemma restyles_skip [simp]: "restyles (pure_action (Ok ()))" "restyles (\<lambda>s. (Ok (), s))"
  by (simp_all add: restyles_def styled_refl)

lemma restyles_then [simp]:
  assumes "restyles m" and "restyles n"
  shows "restyles (then_do m n)"
  unfolding restyles_def
proof (intro allI impI)
  fix s :: "('a, 'b, 'c) app"
  assume "blocks s"
  then obtain t where t: "m s = (Ok (), t)" "styled s t" using restylesD [OF assms(1)] by blast
  moreover have "blocks t" using t(2) by (simp add: styled_def)
  ultimately obtain u where "n t = (Ok (), u)" "styled t u"
    using restylesD [OF assms(2)] by blast
  with t show "\<exists>u. then_do m n s = (Ok (), u) \<and> styled s u"
    by (auto simp: then_do_def intro: styled_trans)
qed

lemma restyles_show_error [simp]: "restyles (show_error L fld)"
  using restyles_styles(3) [of fld] by (auto simp: restyles_def show_error_def styled_refl)

lemma input_text_styled: "styled s t \<Longrightarrow> input_text L fld t = input_text L fld s"
  by (simp add: styled_def input_text_def)

lemma type_key_run:
  assumes "blocks s"
  obtains t where "type_key L fld key s = (Ok (), t)" and "only_inputs s t" and "blocks t"
    and "\<And>g. ta_core (get_input g t) = (if g = fld then ta_input L key (ta_core (get_input g s)) else ta_core (get_input g s))"
  using assms by (auto simp: type_key_def on_field_def put_input_only blocks_def)


section \<open>The invariant\<close>

text \<open>How many inputs the encryption screen shows besides none: what the tab key counts up to.\<close>

definition encrypt_fields :: "('ta, 'fx, 'w) app \<Rightarrow> u8" where
  "encrypt_fields s =
     (if current_screen s \<noteq> EncryptionInputScreen then 1
      else if display_contract_address_input s \<and> display_password_input s then 3
      else if display_contract_address_input s then 2 else 1)"

definition decrypt_fields :: "('ta, 'fx, 'w) app \<Rightarrow> u8" where
  "decrypt_fields s = (if current_screen s = DecryptScreen \<and> display_password_input s then 2 else 1)"

definition selections_ok :: "('ta, 'fx, 'w) app \<Rightarrow> bool" where
  "selections_ok s \<longleftrightarrow>
     (\<exists>i < length (menu_items s). menu_state s = Some i)
     \<and> (\<exists>i < length (intent_list_items s). intent_list_state s = Some i)
     \<and> encrypt_input_selection s < encrypt_fields s \<and> decrypt_input_selection s < decrypt_fields s"

definition app_wf :: "('ta, 'fx, 'w) app \<Rightarrow> bool" where
  "app_wf s \<longleftrightarrow>
     selections_ok s \<and> length (menu_items s) = 4 \<and> length (intent_list_items s) = 3 \<and> blocks s \<and> app_backend s \<noteq> None
     \<and> (current_screen s = EncryptionInputScreen \<or> current_screen s = IntentSelection \<and> is_encrypt_path s
        \<longrightarrow> file_path s \<noteq> None)"

text \<open>
  The end of an action: with \<open>np\<close> it is not a panic, and when it returns the state has the property.
\<close>

definition safe_end :: "bool \<Rightarrow> ('s \<Rightarrow> bool) \<Rightarrow> ('a, 'e) outcome \<times> 's \<Rightarrow> bool" where
  "safe_end np P r \<longleftrightarrow> (case fst r of Ok _ \<Rightarrow> P (snd r) | Err _ \<Rightarrow> True | Panic _ \<Rightarrow> \<not> np)"

lemma safe_end_simps [simp]:
  "safe_end np P (Ok a, s) \<longleftrightarrow> P s" "safe_end np P (Err e, s)" "safe_end np P (Panic p, s) \<longleftrightarrow> \<not> np"
  by (simp_all add: safe_end_def)

lemma safe_bind:
  assumes "\<And>a t. m s = (Ok a, t) \<Longrightarrow> safe_end np P (f a t)" and "np \<Longrightarrow> \<forall>p. fst (m s) \<noteq> Panic p"
  shows "safe_end np P (bind_action m f s)"
  using assms by (cases "m s"; cases "fst (m s)") (auto simp: bind_action_def)

lemma safe_then:
  assumes "safe_end np Q (m s)" and "\<And>t. Q t \<Longrightarrow> safe_end np P (n t)"
  shows "safe_end np P (then_do m n s)"
  using assms by (cases "m s"; cases "fst (m s)") (auto simp: then_do_def bind_action_def)

lemma safe_going_on: "safe_end np P (m s) \<Longrightarrow> safe_end np P (going_on m s)"
  by (cases "m s"; cases "fst (m s)") (auto simp: going_on_def bind_action_def)

lemma only_inputs_fields:
  assumes "only_inputs s t"
  shows "encrypt_fields t = encrypt_fields s" and "decrypt_fields t = decrypt_fields s"
    and "selections_ok t \<longleftrightarrow> selections_ok s"
proof -
  show e: "encrypt_fields t = encrypt_fields s"
    using assms by (simp only: only_inputs_def encrypt_fields_def)
  show d: "decrypt_fields t = decrypt_fields s"
    using assms by (simp only: only_inputs_def decrypt_fields_def)
  show "selections_ok t \<longleftrightarrow> selections_ok s"
    using assms by (simp only: only_inputs_def selections_ok_def e d)
qed

lemma only_inputs_wf: "only_inputs s t \<Longrightarrow> blocks t \<Longrightarrow> app_wf s \<Longrightarrow> app_wf t"
  by (simp only: app_wf_def only_inputs_fields, simp only: only_inputs_def simp_thms, blast)

lemma restyles_wf:
  assumes "restyles m" and "app_wf s"
  shows "safe_end np app_wf (m s)"
proof -
  have "blocks s" using assms(2) by (simp add: app_wf_def)
  from restylesD [OF assms(1) this] show ?thesis
    using assms(2) by (auto simp: styled_def intro: only_inputs_wf)
qed

lemma type_key_wf:
  assumes "app_wf s"
  shows "safe_end np app_wf (type_key L fld key s)"
proof -
  have "blocks s" using assms by (simp add: app_wf_def)
  then obtain t where "type_key L fld key s = (Ok (), t)" "only_inputs s t" "blocks t"
    by (rule type_key_run)
  then show ?thesis using assms by (simp add: only_inputs_wf)
qed


section \<open>Every handler keeps the invariant\<close>

text \<open>
  What the handlers rely on outside, because they unwrap it: the key store always opens, generates a
  key and then lists one; the file they read the phrase from is there and gives a key; and the nonce
  of every account can be read. The other calls may fail with an error, but do not panic.
\<close>

definition outside_works :: "('ta, 'fx, 'kp, 'w) tui_libs \<Rightarrow> bool" where
  "outside_works L \<longleftrightarrow>
     (\<forall>w. fst (keystore_new L ''tmp/keystore'' w) = Ok ())
     \<and> (\<forall>w. \<exists>w' k ks. keystore_generate L w = (Ok (), w') \<and> keystore_keys L w' = Ok (k # ks))
     \<and> (\<forall>w p. keystore_keys L w \<noteq> Panic p)
     \<and> (\<forall>ev fx p. fst (fx_handle L ev fx) \<noteq> Panic p)
     \<and> (\<forall>c w p. fst (call_encrypt L c w) \<noteq> Panic p) \<and> (\<forall>c w p. fst (call_decrypt L c w) \<noteq> Panic p)
     \<and> (\<forall>w. \<exists>seed rest. dir_files L w ''tmp/keystore'' = Some (Some seed # rest)
          \<and> keypair L (trim_quotes (trim seed)) \<noteq> None)
     \<and> (\<forall>kp b w key. \<exists>n. nonce (update_signer L kp b) w key = Ok n)
     \<and> (\<forall>url w p. backend_connect L url w \<noteq> Panic p)"

lemma list_moves_bounded:
  assumes "items \<noteq> []" and "i < length items"
  shows "list_next items (Some i) < length items" and "list_previous items (Some i) < length items"
  using assms by (auto simp: list_next_def list_previous_def)

text \<open>A change outside, or of a field the invariant does not read, keeps it.\<close>

lemma app_wf_updates [simp]:
  "app_wf (s\<lparr>outside := w\<rparr>) = app_wf s" "app_wf (s\<lparr>menu_title := t\<rparr>) = app_wf s"
  "app_wf (s\<lparr>file_explorer := fx\<rparr>) = app_wf s" "app_wf (s\<lparr>generated_pubkey := k\<rparr>) = app_wf s"
  by (simp_all add: app_wf_def selections_ok_def encrypt_fields_def decrypt_fields_def blocks_iff)

lemma app_wf_backend [simp]: "app_wf s \<Longrightarrow> app_wf (s\<lparr>app_backend := Some b\<rparr>)"
proof -
  have "selections_ok (s\<lparr>app_backend := Some b\<rparr>) = selections_ok s"
    by (simp add: selections_ok_def encrypt_fields_def decrypt_fields_def)
  then show "app_wf s \<Longrightarrow> app_wf (s\<lparr>app_backend := Some b\<rparr>)"
    by (simp add: app_wf_def blocks_iff)
qed

lemma safe_outdoors:
  assumes "app_wf s" and "np \<Longrightarrow> \<forall>p. fst (m (outside s)) \<noteq> Panic p"
  shows "safe_end np app_wf (outdoors m s)"
  using assms by (cases "m (outside s)"; cases "fst (m (outside s))") (auto simp: outdoors_def)

lemmas field_defs = password_field_def filename_field_def contract_field_def token_field_def initialize_input_field_def

lemma fields_blocks [simp]:
  "ta_block (password_field L) \<noteq> None" "ta_block (filename_field L) \<noteq> None"
  "ta_block (contract_field L) \<noteq> None" "ta_block (token_field L) \<noteq> None"
  by (simp_all add: field_defs)

text \<open>Back on the main screen, with nothing selected in the inputs.\<close>

lemma app_wf_home:
  assumes "current_screen s \<noteq> EncryptionInputScreen \<and> current_screen s \<noteq> DecryptScreen \<and> current_screen s \<noteq> IntentSelection"
  shows "app_wf s \<longleftrightarrow>
    (\<exists>i < 4. menu_state s = Some i) \<and> (\<exists>i < 3. intent_list_state s = Some i)
    \<and> encrypt_input_selection s = 0 \<and> decrypt_input_selection s = 0
    \<and> length (menu_items s) = 4 \<and> length (intent_list_items s) = 3 \<and> blocks s \<and> app_backend s \<noteq> None"
  using assms by (auto simp: app_wf_def selections_ok_def encrypt_fields_def decrypt_fields_def)

lemma app_wf_facts:
  assumes "app_wf s"
  shows "\<exists>i < 4. menu_state s = Some i" "\<exists>i < 3. intent_list_state s = Some i"
    "length (menu_items s) = 4" "length (intent_list_items s) = 3" "blocks s" "app_backend s \<noteq> None"
    "current_screen s \<noteq> EncryptionInputScreen \<Longrightarrow> encrypt_input_selection s = 0"
    "current_screen s \<noteq> DecryptScreen \<Longrightarrow> decrypt_input_selection s = 0"
  using assms by (auto simp: app_wf_def selections_ok_def encrypt_fields_def decrypt_fields_def)

lemma encryption_cleanup_wf:
  assumes "app_wf s" and "current_screen s \<noteq> DecryptScreen"
  shows "app_wf (encryption_cleanup L s)"
  using app_wf_facts [OF assms(1)] assms(2)
  by (subst app_wf_home) (simp_all add: encryption_cleanup_def reset_intent_list_def reset_input_fields_def blocks_iff)

lemma decrypt_cleanup_wf:
  assumes "app_wf s" and "current_screen s \<noteq> EncryptionInputScreen"
  shows "app_wf (decrypt_cleanup L s)"
  using app_wf_facts [OF assms(1)] assms(2)
  by (subst app_wf_home) (simp_all add: decrypt_cleanup_def reset_intent_list_def reset_input_fields_def blocks_iff)


text \<open>To another screen than the ones with inputs, from one without.\<close>

lemma app_wf_move:
  assumes "app_wf s" and "current_screen s \<noteq> EncryptionInputScreen" and "current_screen s \<noteq> DecryptScreen"
    and "scr \<noteq> EncryptionInputScreen" and "scr = IntentSelection \<Longrightarrow> is_encrypt_path s \<Longrightarrow> file_path s \<noteq> None"
  shows "app_wf (s\<lparr>current_screen := scr\<rparr>)"
  using app_wf_facts [OF assms(1)] assms(2-)
  by (auto simp: app_wf_def selections_ok_def encrypt_fields_def decrypt_fields_def blocks_iff)

lemma generate_keys_wf:
  assumes "app_wf s" and "current_screen s = Main_Screen" and "np \<Longrightarrow> outside_works L"
  shows "safe_end np app_wf (generate_keys L s)"
proof -
  have wf: "app_wf (show_keys x (s\<lparr>outside := w\<rparr>))" for x w
    using app_wf_move [of "s\<lparr>outside := w, generated_pubkey := Some x\<rparr>" KeyResults] assms(1,2)
    by (simp add: show_keys_def)
  obtain r w where new: "keystore_new L ''tmp/keystore'' (outside s) = (r, w)" by fastforce
  obtain r' w' where gen: "keystore_generate L w = (r', w')" by fastforce
  have calm: "np \<Longrightarrow> r = Ok () \<and> r' = Ok () \<and> (\<exists>k ks. keystore_keys L w' = Ok (k # ks))"
    using assms(3) new gen unfolding outside_works_def by (metis Pair_inject fst_conv)
  show ?thesis
    using calm
    by (cases r; cases r'; cases "keystore_keys L w'")
      (auto simp: generate_keys_def then_do_def unwrapping_def outdoors_def new gen bind_action_def wf changing_def
        split: list.splits)
qed


lemma inspect_keys_wf:
  assumes "app_wf s" and "current_screen s = Main_Screen" and "np \<Longrightarrow> outside_works L"
  shows "safe_end np app_wf (inspect_keys L s)"
proof -
  have wf: "app_wf (show_keys x (s\<lparr>outside := w\<rparr>))" for x w
    using app_wf_move [of "s\<lparr>outside := w, generated_pubkey := Some x\<rparr>" KeyResults] assms(1,2)
    by (simp add: show_keys_def)
  obtain r w where new: "keystore_new L ''tmp/keystore'' (outside s) = (r, w)" by fastforce
  have calm: "np \<Longrightarrow> r = Ok () \<and> (\<forall>p. keystore_keys L w \<noteq> Panic p)"
    using assms(3) new unfolding outside_works_def by (metis fst_conv)
  show ?thesis
    using calm assms(1)
    by (cases r; cases "keystore_keys L w")
      (auto simp: inspect_keys_def then_do_def unwrapping_def outdoors_def new bind_action_def wf split: list.splits)
qed

lemma main_select_wf:
  assumes "app_wf s" and "current_screen s = Main_Screen" and "np \<Longrightarrow> outside_works L"
  shows "safe_end np app_wf (main_select L s)"
proof -
  have sel: "app_wf (s\<lparr>menu_title := x, is_encrypt_path := True, current_screen := EncryptFileSelectScreen\<rparr>)" for x
    using app_wf_facts [OF assms(1)] assms(2) by (subst app_wf_home) (simp_all add: blocks_iff)
  have ints: "app_wf (s\<lparr>menu_title := x, is_encrypt_path := False, current_screen := IntentSelection\<rparr>)" for x
    using app_wf_facts [OF assms(1)] assms(2)
    by (simp add: app_wf_def selections_ok_def encrypt_fields_def decrypt_fields_def blocks_iff)
  have "safe_end np app_wf (generate_keys L (s\<lparr>menu_title := x\<rparr>))"
    and "safe_end np app_wf (inspect_keys L (s\<lparr>menu_title := x\<rparr>))" for x
    using assms by (simp_all add: generate_keys_wf inspect_keys_wf)
  then show ?thesis
    using sel ints assms(1) by (simp add: main_select_def split: option.split)
qed

text \<open>Moving in the two lists.\<close>

lemma list_states_unread [simp]:
  "encrypt_fields (s\<lparr>menu_state := x\<rparr>) = encrypt_fields s" "decrypt_fields (s\<lparr>menu_state := x\<rparr>) = decrypt_fields s"
  "blocks (s\<lparr>menu_state := x\<rparr>) = blocks s"
  "encrypt_fields (s\<lparr>intent_list_state := x\<rparr>) = encrypt_fields s"
  "decrypt_fields (s\<lparr>intent_list_state := x\<rparr>) = decrypt_fields s" "blocks (s\<lparr>intent_list_state := x\<rparr>) = blocks s"
  by (simp_all add: encrypt_fields_def decrypt_fields_def blocks_iff)

lemma menu_moves_wf:
  assumes "app_wf s"
  shows "app_wf (s\<lparr>menu_state := Some (list_next (menu_items s) (menu_state s))\<rparr>)"
    and "app_wf (s\<lparr>menu_state := Some (list_previous (menu_items s) (menu_state s))\<rparr>)"
    and "app_wf (s\<lparr>intent_list_state := Some (list_next (intent_list_items s) (intent_list_state s))\<rparr>)"
    and "app_wf (s\<lparr>intent_list_state := Some (list_previous (intent_list_items s) (intent_list_state s))\<rparr>)"
proof -
  obtain i j where ij: "menu_state s = Some i" "i < length (menu_items s)"
    "intent_list_state s = Some j" "j < length (intent_list_items s)"
    using app_wf_facts(1-4) [OF assms] by metis
  then have ne: "menu_items s \<noteq> []" "intent_list_items s \<noteq> []" by auto
  have "app_wf (s\<lparr>menu_state := Some i'\<rparr>)" if "i' < length (menu_items s)" for i'
    using assms that by (auto simp: app_wf_def selections_ok_def)
  moreover have "app_wf (s\<lparr>intent_list_state := Some j'\<rparr>)" if "j' < length (intent_list_items s)" for j'
    using assms that by (auto simp: app_wf_def selections_ok_def)
  ultimately show "app_wf (s\<lparr>menu_state := Some (list_next (menu_items s) (menu_state s))\<rparr>)"
    and "app_wf (s\<lparr>menu_state := Some (list_previous (menu_items s) (menu_state s))\<rparr>)"
    and "app_wf (s\<lparr>intent_list_state := Some (list_next (intent_list_items s) (intent_list_state s))\<rparr>)"
    and "app_wf (s\<lparr>intent_list_state := Some (list_previous (intent_list_items s) (intent_list_state s))\<rparr>)"
    using ij list_moves_bounded [OF ne(1) ij(2)] list_moves_bounded [OF ne(2) ij(4)] by simp_all
qed

lemma main_input_wf:
  assumes "app_wf s" and "current_screen s = Main_Screen" and "np \<Longrightarrow> outside_works L"
  shows "safe_end np app_wf (main_input L code s)"
proof -
  have "safe_end np app_wf (going_on (main_select L) s)"
    by (rule safe_going_on, rule main_select_wf [OF assms(1,2)]) (rule assms(3))
  moreover have "safe_end np app_wf (going_on (changing (\<lambda>s. s\<lparr>menu_state := Some (list_previous (menu_items s) (menu_state s))\<rparr>)) s)"
    and "safe_end np app_wf (going_on (changing (\<lambda>s. s\<lparr>menu_state := Some (list_next (menu_items s) (menu_state s))\<rparr>)) s)"
    using menu_moves_wf [OF assms(1)] by (auto intro!: safe_going_on simp: changing_def)
  ultimately show ?thesis using assms(1) by (simp add: main_input_def)
qed

lemma file_select_wf:
  assumes "app_wf s" and "current_screen s = EncryptFileSelectScreen" and "np \<Longrightarrow> outside_works L"
  shows "safe_end np app_wf (file_select_input L code ev s)"
proof -
  have home: "app_wf (s\<lparr>current_screen := Main_Screen, generated_pubkey := None\<rparr>)"
    using app_wf_move [of s Main_Screen] assms(1,2) by simp
  have ints: "app_wf (s\<lparr>file_path := Some p, current_screen := IntentSelection, menu_title := x\<rparr>)" for p x
    using app_wf_facts [OF assms(1)] assms(2)
    by (simp add: app_wf_def selections_ok_def encrypt_fields_def decrypt_fields_def blocks_iff)
  have "safe_end np app_wf (fst (fx_handle L ev fx), s\<lparr>file_explorer := snd (fx_handle L ev fx)\<rparr>)" for fx
    using assms(1,3) by (cases "fst (fx_handle L ev fx)") (auto simp: outside_works_def)
  then show ?thesis
    using home ints assms(1) by (simp add: file_select_input_def case_prod_beta)
qed


text \<open>The two screens with inputs.\<close>

lemma selections_unread [simp]:
  "encrypt_fields (s\<lparr>encrypt_input_selection := x\<rparr>) = encrypt_fields s"
  "decrypt_fields (s\<lparr>encrypt_input_selection := x\<rparr>) = decrypt_fields s"
  "blocks (s\<lparr>encrypt_input_selection := x\<rparr>) = blocks s"
  "encrypt_fields (s\<lparr>decrypt_input_selection := x\<rparr>) = encrypt_fields s"
  "decrypt_fields (s\<lparr>decrypt_input_selection := x\<rparr>) = decrypt_fields s"
  "blocks (s\<lparr>decrypt_input_selection := x\<rparr>) = blocks s"
  by (simp_all add: encrypt_fields_def decrypt_fields_def blocks_iff)

lemma selections_wf:
  assumes "app_wf s"
  shows "x < encrypt_fields s \<Longrightarrow> app_wf (s\<lparr>encrypt_input_selection := x\<rparr>)"
    and "x < decrypt_fields s \<Longrightarrow> app_wf (s\<lparr>decrypt_input_selection := x\<rparr>)"
  using assms by (auto simp: app_wf_def selections_ok_def)

lemma mod_bounds: "(x::u8) mod 3 < 3" "(x::u8) mod 2 < 2"
  by (simp_all add: word_mod_less_divisor)

lemma encryption_tab_wf:
  assumes "app_wf s" and "current_screen s = EncryptionInputScreen"
  shows "safe_end np app_wf (encryption_tab s)"
proof -
  obtain v3 v2 where v: "(encrypt_input_selection s + 1) mod 3 = v3" "v3 < 3"
    "(encrypt_input_selection s + 1) mod 2 = v2" "v2 < 2"
    using mod_bounds by blast
  then have "display_contract_address_input s \<Longrightarrow> display_password_input s \<Longrightarrow> app_wf (s\<lparr>encrypt_input_selection := v3\<rparr>)"
    and "display_contract_address_input s \<Longrightarrow> \<not> display_password_input s \<Longrightarrow> app_wf (s\<lparr>encrypt_input_selection := v2\<rparr>)"
    using assms by (auto intro!: selections_wf(1) simp: encrypt_fields_def)
  then show ?thesis
    using assms(1) by (auto simp: encryption_tab_def Let_def v(1,3) intro!: restyles_wf)
qed

lemma decrypt_tab_wf:
  assumes "app_wf s" and "current_screen s = DecryptScreen"
  shows "safe_end np app_wf (decrypt_tab s)"
proof -
  obtain v where v: "(decrypt_input_selection s + 1) mod 2 = v" "v < 2"
    using mod_bounds by blast
  then have "display_password_input s \<Longrightarrow> app_wf (s\<lparr>decrypt_input_selection := v\<rparr>)"
    using assms by (auto intro!: selections_wf(2) simp: decrypt_fields_def)
  then show ?thesis
    using assms(1) by (auto simp: decrypt_tab_def Let_def v(1) intro!: restyles_wf)
qed

lemma restyle_type_wf:
  assumes "app_wf s"
  shows "safe_end np app_wf (then_do (on_field activate fld) (type_key L fld' key) s)"
    and "safe_end np app_wf (then_do (type_key L fld' key) (on_field activate fld) s)"
  by (rule safe_then, rule restyles_wf [OF _ assms], simp, rule type_key_wf, assumption)
    (rule safe_then, rule type_key_wf [OF assms], rule restyles_wf, simp_all)

lemma match_num_chars_wf:
  assumes "app_wf s"
  shows "safe_end np app_wf (match_num_chars L key s)"
proof -
  have zero: "safe_end np app_wf (then_do (on_field activate Token_Field)
      (\<lambda>s. if input_text L Token_Field s \<noteq> [] then type_key L Token_Field key s else (Ok (), s)) s)"
    by (rule safe_then, rule restyles_wf [OF _ assms], simp) (simp add: type_key_wf)
  show ?thesis
    using zero assms by (auto simp: match_num_chars_def restyle_type_wf split: key_code.split)
qed

lemma encryption_type_wf:
  assumes "app_wf s"
  shows "safe_end np app_wf (encryption_type L key s)"
  using assms by (simp add: encryption_type_def restyle_type_wf match_num_chars_wf)

lemma decrypt_type_wf:
  assumes "app_wf s"
  shows "safe_end np app_wf (decrypt_type L key s)"
  using assms by (simp add: decrypt_type_def restyle_type_wf)


text \<open>The calls outside change nothing of the application.\<close>

definition only_outside :: "('ta, 'fx, 'w) app \<Rightarrow> ('ta, 'fx, 'w) app \<Rightarrow> bool" where
  "only_outside s t \<longleftrightarrow> t = s\<lparr>outside := outside t\<rparr>"

lemma only_outside_simps [simp]: "only_outside s s" "only_outside s (s\<lparr>outside := w\<rparr>)"
  by (simp_all add: only_outside_def)

lemma only_outside_wf: "only_outside s t \<Longrightarrow> app_wf s \<Longrightarrow> app_wf t \<and> current_screen t = current_screen s"
  unfolding only_outside_def by (metis app_wf_updates(1) app.select_convs(6) app.surjective app.update_convs(22))

lemma outdoors_dropping:
  assumes "np \<Longrightarrow> \<forall>p. fst (m (outside s)) \<noteq> Panic p"
  shows "safe_end np (only_outside s) (outdoors (dropping m) s)"
  using assms by (cases "m (outside s)"; cases "fst (m (outside s))") (auto simp: outdoors_def dropping_def)

lemma encrypt_file_safe:
  assumes "file_path s \<noteq> None" and "np \<Longrightarrow> outside_works L"
  shows "safe_end np (only_outside s) (encrypt_file L i s)"
proof -
  have "np \<Longrightarrow> \<forall>p. fst (call_encrypt L c w) \<noteq> Panic p" for c w
    using assms(2) by (auto simp: outside_works_def)
  then show ?thesis
    using assms(1) by (auto simp: encrypt_file_def intro!: outdoors_dropping split: option.split)
qed

lemmas handle_encrypt_defs = handle_encrypt_all_def handle_encrypt_psp22_def handle_encrypt_password_def

lemma encryption_enter_wf:
  assumes wf: "app_wf s" and scr: "current_screen s = EncryptionInputScreen" and calm: "np \<Longrightarrow> outside_works L"
  shows "safe_end np app_wf (encryption_enter L s)"
proof -
  have path: "file_path s \<noteq> None" using wf scr by (simp add: app_wf_def)
  have go: "safe_end np app_wf (then_do m (changing (encryption_cleanup L)) s)"
    if "m s = encrypt_file L i s" for m i
  proof (rule safe_then)
    show "safe_end np (only_outside s) (m s)"
      using encrypt_file_safe [OF path] calm that by auto
    fix t assume "only_outside s t"
    with only_outside_wf [OF this wf] show "safe_end np app_wf (changing (encryption_cleanup L) t)"
      by (simp add: changing_def encryption_cleanup_wf scr)
  qed
  have "safe_end np app_wf (then_do (handle_encrypt_all L pw tc tn) (changing (encryption_cleanup L)) s)"
    and "safe_end np app_wf (then_do (handle_encrypt_psp22 L tc tn) (changing (encryption_cleanup L)) s)"
    and "safe_end np app_wf (then_do (handle_encrypt_password L pw) (changing (encryption_cleanup L)) s)" for pw tc tn
    by (rule go, simp add: handle_encrypt_defs)+
  then show ?thesis
    using wf by (simp add: encryption_enter_def Let_def restyles_wf)
qed

lemma encryption_input_wf:
  assumes "app_wf s" and "current_screen s = EncryptionInputScreen" and "np \<Longrightarrow> outside_works L"
  shows "safe_end np app_wf (encryption_input L key s)"
  using assms
  by (simp add: encryption_input_def encryption_tab_wf encryption_enter_wf encryption_type_wf
      changing_def encryption_cleanup_wf split: key_code.split)

text \<open>The list of intents.\<close>

lemma intent_list_wf:
  assumes "app_wf s" and "length xs = 3"
  shows "app_wf (s\<lparr>intent_list_items := xs\<rparr>)"
  using app_wf_facts [OF assms(1)] assms
  by (auto simp: app_wf_def selections_ok_def encrypt_fields_def decrypt_fields_def blocks_iff)

lemma intents_select_wf:
  assumes "app_wf s"
  shows "safe_end np app_wf (intents_select s)"
proof -
  obtain i where "intent_list_state s = Some i" "i < length (intent_list_items s)"
    using app_wf_facts(2,4) [OF assms] by auto
  then show ?thesis
    using intent_list_wf [OF assms] app_wf_facts(4) [OF assms]
    by (auto simp: intents_select_def split: prod.split)
qed

text \<open>The flags, while no screen reads them.\<close>

definition with_flags :: "bool \<Rightarrow> bool \<Rightarrow> bool \<Rightarrow> ('ta, 'fx, 'w) app \<Rightarrow> ('ta, 'fx, 'w) app" where
  "with_flags a b c s = s\<lparr>display_password_input := a, display_contract_address_input := b, sr25519_intent := c\<rparr>"

lemma with_flags_wf:
  assumes "app_wf s" and "current_screen s = IntentSelection"
  shows "app_wf (with_flags a b c s)" and "current_screen (with_flags a b c s) = IntentSelection"
  using assms by (auto simp: with_flags_def app_wf_def selections_ok_def encrypt_fields_def decrypt_fields_def blocks_iff)

lemma intents_enter_run:
  assumes "intent_list_items s = [x, y, z]"
  shows "intents_enter L s = intents_confirmed L (with_flags (snd x) (snd y) (snd z) s)"
  using assms by (simp add: intents_enter_def intent_chosen_def then_do_def changing_def bind_action_def with_flags_def)

lemma app_wf_enter_inputs:
  assumes "app_wf s" and "current_screen s = IntentSelection" and "scr \<in> {EncryptionInputScreen, DecryptScreen}"
    and "scr = EncryptionInputScreen \<Longrightarrow> is_encrypt_path s"
  shows "app_wf (s\<lparr>current_screen := scr, menu_title := x\<rparr>)"
  using app_wf_facts [OF assms(1)] assms
  by (auto simp: app_wf_def selections_ok_def encrypt_fields_def decrypt_fields_def blocks_iff)

lemma intents_confirmed_wf:
  assumes wf: "app_wf s" and scr: "current_screen s = IntentSelection" and calm: "np \<Longrightarrow> outside_works L"
  shows "safe_end np app_wf (intents_confirmed L s)"
proof -
  have path: "is_encrypt_path s \<Longrightarrow> file_path s \<noteq> None" using wf scr by (simp add: app_wf_def)
  have alone: "safe_end np app_wf (then_do (encrypt_file L i)
      (changing (\<lambda>s. (reset_intent_list (s\<lparr>current_screen := Main_Screen, generated_pubkey := None\<rparr>))
         \<lparr>sr25519_intent := False\<rparr>)) s)" if "is_encrypt_path s" for i
  proof (rule safe_then)
    show "safe_end np (only_outside s) (encrypt_file L i s)"
      using encrypt_file_safe [OF path [OF that]] calm by auto
    fix t assume "only_outside s t"
    from only_outside_wf [OF this wf] scr have t: "app_wf t" "current_screen t = IntentSelection" by auto
    show "safe_end np app_wf (changing (\<lambda>s. (reset_intent_list (s\<lparr>current_screen := Main_Screen, generated_pubkey := None\<rparr>))
         \<lparr>sr25519_intent := False\<rparr>) t)"
      using app_wf_facts [OF t(1)] t(2)
      by (simp add: changing_def reset_intent_list_def) (subst app_wf_home, simp_all add: blocks_iff)
  qed
  have inputs: "safe_end np app_wf (then_do m
      (changing (\<lambda>s. s\<lparr>current_screen := EncryptionInputScreen, menu_title := x\<rparr>)) s)"
    if enc: "is_encrypt_path s" and sty: "restyles m" for m x
  proof -
    obtain t where t: "m s = (Ok (), t)" "styled s t"
      using restylesD [OF sty] app_wf_facts(5) [OF wf] by blast
    then have "app_wf t" "current_screen t = IntentSelection" "is_encrypt_path t"
      using only_inputs_wf [OF _ _ wf, of t] scr enc by (simp_all add: styled_def only_inputs_def)
    then show ?thesis
      using t(1) by (simp add: then_do_def changing_def app_wf_enter_inputs del: app_wf_updates)
  qed
  have "app_wf (s\<lparr>menu_title := x, current_screen := DecryptScreen\<rparr>)" for x
  proof -
    have "s\<lparr>menu_title := x, current_screen := DecryptScreen\<rparr> = s\<lparr>current_screen := DecryptScreen, menu_title := x\<rparr>"
      by simp
    then show ?thesis using app_wf_enter_inputs [OF wf scr, of DecryptScreen x] by (simp only:) simp
  qed
  then have dec: "safe_end np app_wf (then_do (changing (\<lambda>s. s\<lparr>menu_title := x, current_screen := DecryptScreen\<rparr>)) m s)"
    if "restyles m" for m x
    using restyles_wf [OF that] by (simp add: then_do_def changing_def bind_action_def)
  show ?thesis
    using alone inputs dec wf by (simp add: intents_confirmed_def)
qed

lemma intents_input_wf:
  assumes wf: "app_wf s" and scr: "current_screen s = IntentSelection" and calm: "np \<Longrightarrow> outside_works L"
  shows "safe_end np app_wf (intents_input L code s)"
proof -
  obtain x y z where "intent_list_items s = [x, y, z]"
    using app_wf_facts(4) [OF wf] by (auto simp: numeral_3_eq_3 length_Suc_conv)
  then have "safe_end np app_wf (intents_enter L s)"
    using with_flags_wf [OF wf scr] calm by (simp add: intents_enter_run intents_confirmed_wf)
  moreover have "app_wf (reset_intent_list (s\<lparr>current_screen := Main_Screen, generated_pubkey := None\<rparr>))"
    using app_wf_facts [OF wf] scr by (subst app_wf_home) (simp_all add: reset_intent_list_def blocks_iff)
  ultimately show ?thesis
    using menu_moves_wf [OF wf] intents_select_wf [OF wf] wf by (simp add: intents_input_def intents_moves changing_def)
qed


section \<open>The witness string\<close>

fun comma_list :: "string list \<Rightarrow> string" where
  "comma_list [] = []"
| "comma_list [x] = x"
| "comma_list (x # y # xs) = x @ '','' @ comma_list (y # xs)"

text \<open>One piece per chosen intent, in the order in which the intents are written.\<close>

definition witness_pieces :: "('ta, 'fx, 'w) app \<Rightarrow> string \<Rightarrow> string \<Rightarrow> string \<Rightarrow> string list" where
  "witness_pieces s password pubkey signature =
     (if display_password_input s then [password] else [])
     @ (if display_contract_address_input s then [pubkey] else [])
     @ (if sr25519_intent s then [pubkey @ signature] else [])"

definition signature_text :: "('ta, 'fx, 'kp, 'w) tui_libs \<Rightarrow> 'kp \<Rightarrow> u32 \<Rightarrow> string" where
  "signature_text L kp n = map char_of_byte (hex_encode (tui_hex L) (kp_sign L kp (u32_to_le_bytes n)))"

lemma signed_nonce_state: "signed_nonce L kp s = (fst (signed_nonce L kp s), s)"
  by (simp add: signed_nonce_def Let_def)

lemma prepare_witness_as:
  assumes "load_mnemonic L ''tmp/keystore'' (outside s) = Ok m" and "keypair L m = Some kp" and "app_backend s = Some b"
    and "signed_nonce L kp (s\<lparr>app_backend := Some (update_signer L kp b)\<rparr>) = (r, s\<lparr>app_backend := Some (update_signer L kp b)\<rparr>)"
  shows "prepare_witness_string L password s =
    (and_then (if sr25519_intent s then r else Ok [])
       (\<lambda>sg. Ok (comma_list (witness_pieces s password (kp_account L kp) sg))),
     s\<lparr>app_backend := Some (update_signer L kp b)\<rparr>)"
proof (cases "sr25519_intent s")
  case True
  with assms show ?thesis
    by (cases r) (simp_all add: prepare_witness_string_def bind_action_def then_do_def changing_def Let_def witness_pieces_def)
next
  case False
  with assms(1-3) show ?thesis
    by (simp add: prepare_witness_string_def bind_action_def then_do_def changing_def Let_def witness_pieces_def)
qed

lemma prepare_witness_run:
  assumes "load_mnemonic L ''tmp/keystore'' (outside s) = Ok m" and "keypair L m = Some kp" and "app_backend s = Some b"
    and "nonce (update_signer L kp b) (outside s) (decode_public_key (tui_ss58 L) (kp_account L kp)) = Ok n"
  shows "prepare_witness_string L password s =
    (Ok (comma_list (witness_pieces s password (kp_account L kp) (signature_text L kp n))),
     s\<lparr>app_backend := Some (update_signer L kp b)\<rparr>)"
proof -
  let ?s = "s\<lparr>app_backend := Some (update_signer L kp b)\<rparr>"
  have "signed_nonce L kp ?s = (Ok (signature_text L kp n), ?s)"
    using assms(4) by (simp add: signed_nonce_def signature_text_def)
  from prepare_witness_as [OF assms(1-3) this] show ?thesis
    by (simp add: witness_pieces_def)
qed

lemma prepare_witness_state:
  "snd (prepare_witness_string L password s) = s
   \<or> (\<exists>b. snd (prepare_witness_string L password s) = s\<lparr>app_backend := Some b\<rparr>)"
proof (cases "load_mnemonic L ''tmp/keystore'' (outside s)")
  case (Ok m)
  show ?thesis
  proof (cases "keypair L m")
    case (Some kp)
    show ?thesis
    proof (cases "app_backend s")
      case b: (Some b)
      from prepare_witness_as [OF Ok Some b signed_nonce_state] show ?thesis by auto
    qed (simp add: prepare_witness_string_def bind_action_def Ok Some)
  qed (simp add: prepare_witness_string_def bind_action_def Ok)
qed (simp_all add: prepare_witness_string_def bind_action_def)

lemma prepare_witness_wf:
  assumes "app_wf s" and "snd (prepare_witness_string L password s) = t"
  shows "app_wf t \<and> current_screen t = current_screen s"
  using prepare_witness_state [of L password s] assms by auto

lemma prepare_witness_works:
  assumes "outside_works L" and "app_wf s"
  shows "\<exists>v. fst (prepare_witness_string L password s) = Ok v"
proof -
  have "\<exists>seed rest. dir_files L (outside s) ''tmp/keystore'' = Some (Some seed # rest)
      \<and> keypair L (trim_quotes (trim seed)) \<noteq> None"
    using assms(1) unfolding outside_works_def by blast
  then obtain seed rest kp where k: "dir_files L (outside s) ''tmp/keystore'' = Some (Some seed # rest)"
    "keypair L (trim_quotes (trim seed)) = Some kp" by auto
  obtain b where b: "app_backend s = Some b" using app_wf_facts(6) [OF assms(2)] by auto
  have "\<exists>n. nonce (update_signer L kp b) (outside s) (decode_public_key (tui_ss58 L) (kp_account L kp)) = Ok n"
    using assms(1) by (simp add: outside_works_def)
  then obtain n where "nonce (update_signer L kp b) (outside s) (decode_public_key (tui_ss58 L) (kp_account L kp)) = Ok n" ..
  from prepare_witness_run [OF _ k(2) b this, of password] k(1) show ?thesis
    by (simp add: load_mnemonic_def)
qed

lemma decrypt_file_wf:
  assumes wf: "app_wf s" and scr: "current_screen s = DecryptScreen" and calm: "np \<Longrightarrow> outside_works L"
  shows "safe_end np app_wf (decrypt_file L f password s)"
proof -
  have "safe_end np app_wf (then_do (\<lambda>s. outdoors (dropping (call_decrypt L (c s))) s) (changing (decrypt_cleanup L)) t)"
    if t: "app_wf t" "current_screen t = DecryptScreen" for c t
  proof (rule safe_then)
    show "safe_end np (only_outside t) (outdoors (dropping (call_decrypt L (c t))) t)"
      by (rule outdoors_dropping) (use calm in \<open>auto simp: outside_works_def\<close>)
    fix u assume "only_outside t u"
    from only_outside_wf [OF this t(1)] show "safe_end np app_wf (changing (decrypt_cleanup L) u)"
      by (simp add: changing_def decrypt_cleanup_wf t(2))
  qed
  moreover obtain r t where r: "prepare_witness_string L password s = (r, t)" by fastforce
  moreover have "app_wf t" "current_screen t = DecryptScreen"
    using prepare_witness_wf [OF wf, of L password t] scr r by simp_all
  moreover have "np \<Longrightarrow> \<exists>v. r = Ok v"
    using prepare_witness_works [OF calm wf, of password] r by simp
  ultimately show ?thesis
    by (cases r) (auto simp: decrypt_file_def bind_action_def expecting_def)
qed


lemma restyles_screen:
  assumes "restyles m" and "app_wf s"
  shows "safe_end np (\<lambda>t. app_wf t \<and> current_screen t = current_screen s) (m s)"
proof -
  obtain t where t: "m s = (Ok (), t)" "styled s t"
    using restylesD [OF assms(1)] app_wf_facts(5) [OF assms(2)] by blast
  then show ?thesis
    using only_inputs_wf [OF _ _ assms(2), of t] by (simp add: styled_def only_inputs_def)
qed

lemma decrypt_enter_wf:
  assumes wf: "app_wf s" and scr: "current_screen s = DecryptScreen" and calm: "np \<Longrightarrow> outside_works L"
  shows "safe_end np app_wf (decrypt_enter L s)"
proof -
  have dec: "safe_end np app_wf (decrypt_file L f pw t)" if "app_wf t \<and> current_screen t = current_screen s" for f pw t
    using that scr calm by (simp add: decrypt_file_wf)
  have "safe_end np app_wf (then_do (show_error L Filename_Field)
      (if c then show_error L Password_Field else decrypt_file L f pw) s)" for c f pw
    by (rule safe_then, rule restyles_screen [OF _ wf], simp) (simp add: dec restyles_wf)
  then show ?thesis
    using dec wf by (simp add: decrypt_enter_def Let_def restyles_wf)
qed

lemma decrypt_input_wf:
  assumes "app_wf s" and "current_screen s = DecryptScreen" and "np \<Longrightarrow> outside_works L"
  shows "safe_end np app_wf (decrypt_input L key s)"
  using assms
  by (simp add: decrypt_input_def decrypt_tab_wf decrypt_enter_wf decrypt_type_wf changing_def decrypt_cleanup_wf
      split: key_code.split)

lemma key_results_wf:
  assumes "app_wf s" and "current_screen s = KeyResults"
  shows "safe_end np app_wf (key_results_input code s)"
proof -
  have "app_wf (s\<lparr>current_screen := Main_Screen, generated_pubkey := None\<rparr>)"
    using app_wf_move [of s Main_Screen] assms by simp
  then show ?thesis using assms(1) by (simp add: key_results_input_def changing_def)
qed

lemma app_event_wf:
  assumes "app_wf s" and "np \<Longrightarrow> outside_works L"
  shows "safe_end np app_wf (app_event L ev s)"
  using assms
  by (simp add: app_event_def main_input_wf key_results_wf file_select_wf encryption_input_wf decrypt_input_wf
      intents_input_wf safe_going_on split: event.split screen.split)

lemma draw_wf [simp]: "app_wf (draw s) = app_wf s"
  by (simp add: draw_def)

lemma run_loop_wf:
  assumes "np \<Longrightarrow> outside_works L"
  shows "app_wf s \<Longrightarrow> safe_end np app_wf (run_loop L ps s)"
proof (induction ps arbitrary: s)
  case (Cons p ps)
  show ?case
  proof (cases p)
    case None
    then show ?thesis using Cons by simp
  next
    case (Some ev)
    have "safe_end np app_wf (app_event L ev (draw s))"
      by (rule app_event_wf) (use Cons.prems assms in simp_all)
    then show ?thesis
      using Some Cons.IH by (cases "app_event L ev (draw s)"; cases "fst (app_event L ev (draw s))") auto
  qed
qed simp

lemma app_run_wf:
  assumes "np \<Longrightarrow> outside_works L"
  shows "safe_end np app_wf (app_run L ps (app_new L fx ticket w))"
  unfolding app_run_def
proof (rule safe_bind)
  show "np \<Longrightarrow> \<forall>p. fst (backend_connect L ''ws://localhost:9944'' (outside (app_new L fx ticket w)), app_new L fx ticket w)
      \<noteq> Panic p"
    using assms by (simp add: outside_works_def)
next
  fix b t
  assume "(backend_connect L ''ws://localhost:9944'' (outside (app_new L fx ticket w)), app_new L fx ticket w) = (Ok b, t)"
  then have "app_wf (t\<lparr>app_backend := Some b\<rparr>)"
    by (subst app_wf_home) (auto simp: app_new_def blocks_iff field_defs)
  then show "safe_end np app_wf (bind_action (changing (\<lambda>s. s\<lparr>app_backend := Some b\<rparr>)) (\<lambda>_. run_loop L ps) t)"
    using run_loop_wf [OF assms] by (simp add: bind_action_def changing_def)
qed

section \<open>Leaving\<close>

lemma run_loop_append:
  "run_loop L (ps @ qs) s =
     (case run_loop L ps s of
        (Ok b, t) \<Rightarrow> if b then run_loop L qs t else (Ok False, t)
      | (Err e, t) \<Rightarrow> (Err e, t)
      | (Panic q, t) \<Rightarrow> (Panic q, t))"
proof (induction ps arbitrary: s)
  case (Cons p ps)
  show ?case
  proof (cases p)
    case (Some ev)
    obtain r t where "app_event L ev (draw s) = (r, t)" by fastforce
    with Some Cons show ?thesis by (cases r) simp_all
  qed (simp add: Cons)
qed simp

definition escape :: "u8 \<Rightarrow> event" where
  "escape modifiers = Key_Event \<lparr>ke_code = Key_Esc, ke_modifiers = modifiers, ke_kind = Press\<rparr>"

lemma escape_ends:
  "current_screen s = Main_Screen \<Longrightarrow> app_event L (escape m) (draw s) = (Ok False, draw s)"
  by (simp add: app_event_def escape_def main_input_def draw_def)

lemma escape_home:
  assumes "current_screen s \<noteq> Main_Screen"
  shows "\<exists>t. app_event L (escape m) (draw s) = (Ok True, t) \<and> current_screen t = Main_Screen"
proof -
  have d: "draw s = s" using assms by (simp add: draw_def)
  show ?thesis
    using assms unfolding d
    by (cases "current_screen s")
      (simp_all add: app_event_def escape_def going_on_def key_results_input_def file_select_input_def
        encryption_input_def decrypt_input_def intents_input_def intents_moves changing_def bind_action_def
        encryption_cleanup_def decrypt_cleanup_def reset_intent_list_def)
qed

lemma two_escapes: "\<exists>t. run_loop L [Some (escape m), Some (escape m')] s = (Ok False, t)"
proof (cases "current_screen s = Main_Screen")
  case False
  then obtain t where t: "app_event L (escape m) (draw s) = (Ok True, t)" "current_screen t = Main_Screen"
    using escape_home by blast
  then show ?thesis by (simp add: escape_ends)
qed (simp add: escape_ends)

end
