(* ===== verification/Tui_Forms.thy ===== *)
theory Tui_Forms
  imports Tui
begin

text \<open>
  What the screens hand on: the call that encrypts a file, the witness string of a decryption, and
  the token amount.
\<close>

section \<open>Pieces of a witness string\<close>

definition alnum_chars :: "char set" where
  "alnum_chars = set ''0123456789abcdefghijklmnopqrstuvwxyzABCDEFGHIJKLMNOPQRSTUVWXYZ''"

definition alnum_text :: "string \<Rightarrow> bool" where
  "alnum_text x \<longleftrightarrow> x \<noteq> [] \<and> set x \<subseteq> alnum_chars"

text \<open>Text that survives being joined with commas, split and trimmed.\<close>

definition piece_ok :: "string \<Rightarrow> bool" where
  "piece_ok x \<longleftrightarrow> x \<noteq> [] \<and> CHR '','' \<notin> set x \<and> ws_free_start white_space x
     \<and> ws_free_start (map rev white_space) (rev x)"

lemma alnum_white:
  "\<forall>c \<in> alnum_chars. c \<notin> hd ` set (filter (\<lambda>w. w \<noteq> []) white_space)
     \<and> c \<notin> hd ` set (filter (\<lambda>w. w \<noteq> []) (map rev white_space))"
  by (simp add: alnum_chars_def white_space_defs)

lemma alnum_piece:
  assumes "alnum_text x"
  shows "piece_ok x"
proof -
  have x: "x \<noteq> []" "set x \<subseteq> alnum_chars" using assms by (simp_all add: alnum_text_def)
  then have "hd x \<in> alnum_chars" "hd (rev x) \<in> alnum_chars"
    using hd_in_set [of x] hd_in_set [of "rev x"] by auto
  moreover have "CHR '','' \<notin> alnum_chars" by (simp add: alnum_chars_def)
  ultimately show ?thesis
    using alnum_white x by (simp only: piece_ok_def ws_free_start_def) blast
qed

lemma alnum_append: "alnum_text x \<Longrightarrow> alnum_text y \<Longrightarrow> alnum_text (x @ y)"
  by (simp add: alnum_text_def)

lemma trim_ends:
  assumes "ws_free_start white_space x" and "ws_free_start (map rev white_space) (rev x)"
  shows "trim x = x"
  by (simp add: trim_def trim_with_stable [OF assms(1)] trim_with_stable [OF assms(2)])

lemma ws_free_append: "x \<noteq> [] \<Longrightarrow> ws_free_start ws (x @ y) = ws_free_start ws x"
  by (simp add: ws_free_start_def)

lemma comma_list_ends:
  assumes "xs \<noteq> []" and "\<forall>x \<in> set xs. piece_ok x"
  shows "ws_free_start white_space (comma_list xs) \<and> ws_free_start (map rev white_space) (rev (comma_list xs))
    \<and> comma_list xs \<noteq> []"
  using assms
proof (induction xs rule: comma_list.induct)
  case (3 x y xs)
  then show ?case by (simp add: piece_ok_def ws_free_append)
qed (simp_all add: piece_ok_def)

lemma split_comma_list:
  "xs \<noteq> [] \<Longrightarrow> \<forall>x \<in> set xs. piece_ok x \<Longrightarrow> split_char CHR '','' (comma_list xs) = xs"
proof (induction xs rule: comma_list.induct)
  case (3 x y xs)
  then have "split_char CHR '','' (x @ CHR '','' # comma_list (y # xs)) = x # (y # xs)"
    by (subst split_char_append) (simp_all add: piece_ok_def)
  then show ?case by simp
qed (simp_all add: piece_ok_def split_char_no)

text \<open>Joining and parsing give the pieces back.\<close>

lemma parse_comma_list:
  assumes "xs \<noteq> []" and "\<forall>x \<in> set xs. piece_ok x"
  shows "parse_witnesses (comma_list xs) = xs"
proof -
  have "trim (comma_list xs) = comma_list xs"
    using comma_list_ends [OF assms] by (simp add: trim_ends)
  moreover have "map trim xs = xs"
    using assms(2) by (intro map_idI) (simp add: piece_ok_def trim_ends)
  ultimately show ?thesis
    by (simp add: parse_witnesses_def split_comma_list [OF assms])
qed


section \<open>The encryption form\<close>

text \<open>The intents that the flags and the inputs stand for.\<close>

definition chosen_intents :: "('ta, 'fx, 'kp, 'w) tui_libs \<Rightarrow> ('ta, 'fx, 'w) app \<Rightarrow> (string \<times> string) list" where
  "chosen_intents L s =
     (if display_password_input s then [(''Password'', input_text L Password_Field s)] else [])
     @ (if display_contract_address_input s
        then [(''Psp22'', input_text L Contract_Field s @ '', '' @ input_text L Token_Field s)] else [])
     @ (if sr25519_intent s then [(''Sr25519'', [])] else [])"

definition form_call :: "('ta, 'fx, 'kp, 'w) tui_libs \<Rightarrow> ('ta, 'fx, 'w) app \<Rightarrow> string \<Rightarrow> encrypt_call" where
  "form_call L s path =
     \<lparr>en_message_path = base_name path, en_filename = base_name path, en_config_path = ''config.txt'',
      en_keystore_path = ''tmp/keystore'', en_intent = render_intents (chosen_intents L s),
      en_contract_addr = store_address, en_ticket = app_ticket s\<rparr>"

lemma encrypt_file_run:
  assumes "file_path s = Some path" and "\<forall>p. fst (call_encrypt L (form_call L s path) (outside s)) \<noteq> Panic p"
  shows "encrypt_file L (render_intents (chosen_intents L s)) s
    = (Ok (), s\<lparr>outside := snd (call_encrypt L (form_call L s path) (outside s))\<rparr>)"
proof -
  obtain r w where "call_encrypt L (form_call L s path) (outside s) = (r, w)" by fastforce
  then show ?thesis
    using assms by (cases r) (simp_all add: encrypt_file_def outdoors_def dropping_def form_call_def)
qed

text \<open>Every input on the form has text.\<close>

definition form_filled :: "('ta, 'fx, 'kp, 'w) tui_libs \<Rightarrow> ('ta, 'fx, 'w) app \<Rightarrow> bool" where
  "form_filled L s \<longleftrightarrow>
     (display_password_input s \<or> display_contract_address_input s)
     \<and> (display_password_input s \<longrightarrow> input_text L Password_Field s \<noteq> [])
     \<and> (display_contract_address_input s
        \<longrightarrow> input_text L Contract_Field s \<noteq> [] \<and> input_text L Token_Field s \<noteq> [])"

lemma encryption_enter_run:
  assumes "form_filled L s" and "file_path s = Some path"
    and "\<forall>p. fst (call_encrypt L (form_call L s path) (outside s)) \<noteq> Panic p"
  shows "encryption_enter L s =
    (Ok (), encryption_cleanup L (s\<lparr>outside := snd (call_encrypt L (form_call L s path) (outside s))\<rparr>))"
proof -
  note run = encrypt_file_run [OF assms(2,3)]
  have "(display_password_input s \<Longrightarrow> display_contract_address_input s \<Longrightarrow>
      handle_encrypt_all L (input_text L Password_Field s) (input_text L Contract_Field s) (input_text L Token_Field s) s
      = encrypt_file L (render_intents (chosen_intents L s)) s)"
    and "(\<not> display_password_input s \<Longrightarrow> display_contract_address_input s \<Longrightarrow>
      handle_encrypt_psp22 L (input_text L Contract_Field s) (input_text L Token_Field s) s
      = encrypt_file L (render_intents (chosen_intents L s)) s)"
    and "(display_password_input s \<Longrightarrow> \<not> display_contract_address_input s \<Longrightarrow>
      handle_encrypt_password L (input_text L Password_Field s) s
      = encrypt_file L (render_intents (chosen_intents L s)) s)"
    by (simp_all add: handle_encrypt_defs chosen_intents_def render_intent_def)
  then show ?thesis
    using assms(1) run
    by (auto simp: encryption_enter_def Let_def form_filled_def then_do_def bind_action_def changing_def)
qed

lemma chosen_intents_wf:
  assumes "form_filled L s"
    and "balanced 0 (input_text L Password_Field s) \<and> \<not> has_delimiter (input_text L Password_Field s)"
    and "balanced 0 (input_text L Contract_Field s @ '', '' @ input_text L Token_Field s)
       \<and> \<not> has_delimiter (input_text L Contract_Field s @ '', '' @ input_text L Token_Field s)"
  shows "chosen_intents L s \<noteq> [] \<and> (\<forall>x \<in> set (chosen_intents L s). well_formed x)"
  using assms by (auto simp: chosen_intents_def form_filled_def well_formed_def ws_free_start_def white_space_defs)


section \<open>The witness of the form\<close>

text \<open>
  Addresses are 48 letters and digits, signatures 64 bytes, and hexadecimal text is letters and
  digits, two for a byte.
\<close>

definition keypair_ok :: "('ta, 'fx, 'kp, 'w) tui_libs \<Rightarrow> bool" where
  "keypair_ok L \<longleftrightarrow>
     (\<forall>kp. alnum_text (kp_account L kp) \<and> length (kp_account L kp) = 48 \<and> (\<forall>m. length (kp_sign L kp m) = 64))
     \<and> hex_ok (tui_hex L)
     \<and> (\<forall>bs. bs \<noteq> [] \<longrightarrow> length (hex_encode (tui_hex L) bs) = 2 * length bs
          \<and> alnum_text (map char_of_byte (hex_encode (tui_hex L) bs)))"

lemma signature_text_ok:
  assumes "keypair_ok L"
  shows "alnum_text (signature_text L kp n) \<and> length (signature_text L kp n) = 128"
proof -
  have "length (kp_sign L kp (u32_to_le_bytes n)) = 64" using assms by (simp add: keypair_ok_def)
  moreover from this have "kp_sign L kp (u32_to_le_bytes n) \<noteq> []" by auto
  ultimately show ?thesis using assms by (simp add: keypair_ok_def signature_text_def)
qed

lemma witness_pieces_ok:
  assumes "keypair_ok L" and "display_password_input s \<Longrightarrow> piece_ok password"
  shows "\<forall>x \<in> set (witness_pieces s password (kp_account L kp) (signature_text L kp n)). piece_ok x"
proof -
  have "alnum_text (kp_account L kp)" using assms(1) by (simp add: keypair_ok_def)
  then have "piece_ok (kp_account L kp)" "piece_ok (kp_account L kp @ signature_text L kp n)"
    using signature_text_ok [OF assms(1)] by (simp_all add: alnum_piece alnum_append)
  then show ?thesis using assms(2) by (auto simp: witness_pieces_def)
qed

text \<open>What the gadget of the node makes of the last piece.\<close>

lemma signed_piece_verified:
  assumes "keypair_ok L" and "from_utf8 (as_bytes (kp_account L kp)) = Some (kp_account L kp)"
    and "get_nonce w (decode_public_key A (kp_account L kp)) = Ok n"
  shows "sr25519_verify A (tui_hex L) verify get_nonce w (as_bytes (kp_account L kp @ signature_text L kp n)) []
    = Ok (verify (kp_sign L kp (u32_to_le_bytes n)) (u32_to_le_bytes n) (decode_public_key A (kp_account L kp)))"
proof -
  have k: "length (kp_account L kp) = 48" "length (kp_sign L kp (u32_to_le_bytes n)) = 64" "hex_ok (tui_hex L)"
    using assms(1) by (simp_all add: keypair_ok_def)
  have "as_bytes (signature_text L kp n) = hex_encode (tui_hex L) (kp_sign L kp (u32_to_le_bytes n))"
    by (simp add: signature_text_def)
  then have "hex_decode (tui_hex L) (drop 48 (as_bytes (kp_account L kp @ signature_text L kp n)))
      = Some (kp_sign L kp (u32_to_le_bytes n))"
    using k by (simp add: as_bytes_append hex_okD)
  moreover have "length (as_bytes (kp_account L kp @ signature_text L kp n)) = 176"
    using signature_text_ok [OF assms(1), of kp n] k(1) by simp
  moreover have "from_utf8 (take 48 (as_bytes (kp_account L kp @ signature_text L kp n))) = Some (kp_account L kp)"
    using assms(2) k(1) by (simp add: as_bytes_append)
  ultimately show ?thesis
    using sr25519_verify_message [where st = "[]" and get_nonce = get_nonce and w = w and n = n and A = A] k(2) assms(3)
    by simp
qed


section \<open>The token amount\<close>

definition digits :: "string set" where
  "digits = {''0'', ''1'', ''2'', ''3'', ''4'', ''5'', ''6'', ''7'', ''8'', ''9''}"

text \<open>Empty, or digits of which the first is not zero.\<close>

definition amount_text :: "string \<Rightarrow> bool" where
  "amount_text x \<longleftrightarrow> set x \<subseteq> set ''0123456789'' \<and> (x \<noteq> [] \<longrightarrow> hd x \<noteq> CHR ''0'')"

text \<open>
  The text input of the library while its cursor is at the end: a digit is appended or ignored,
  backspace removes some of the end.
\<close>

definition area_ok :: "('ta, 'fx, 'kp, 'w) tui_libs \<Rightarrow> ('ta \<Rightarrow> bool) \<Rightarrow> bool" where
  "area_ok L at_end \<longleftrightarrow>
     at_end (ta_default L) \<and> ta_lines L (ta_default L) = [[]]
     \<and> (\<forall>key a c x. ke_code key = Key_Char c \<and> c \<in> digits \<and> at_end a \<and> ta_lines L a = [x] \<longrightarrow>
          at_end (ta_input L key a) \<and> ta_lines L (ta_input L key a) \<in> {[x], [x @ c]})
     \<and> (\<forall>key a x. ke_code key = Key_Backspace \<and> at_end a \<and> ta_lines L a = [x] \<longrightarrow>
          at_end (ta_input L key a) \<and> (\<exists>k. ta_lines L (ta_input L key a) = [take k x]))"

definition amount_field :: "('ta, 'fx, 'kp, 'w) tui_libs \<Rightarrow> ('ta \<Rightarrow> bool) \<Rightarrow> ('ta, 'fx, 'w) app \<Rightarrow> bool" where
  "amount_field L at_end s \<longleftrightarrow> blocks s \<and> at_end (ta_core (token_count_input s))
     \<and> (\<exists>x. ta_lines L (ta_core (token_count_input s)) = [x] \<and> amount_text x)"

lemma amount_append: "amount_text x \<Longrightarrow> c \<in> digits \<Longrightarrow> c \<noteq> ''0'' \<or> x \<noteq> [] \<Longrightarrow> amount_text (x @ c)"
  by (cases x) (auto simp: amount_text_def digits_def)

lemma amount_take: "amount_text x \<Longrightarrow> amount_text (take k x)"
  by (cases x; cases k) (auto simp: amount_text_def dest: in_set_takeD)

lemma amount_styled:
  assumes "styled s t" and "amount_field L at_end s"
  shows "amount_field L at_end t"
proof -
  have "ta_core (token_count_input t) = ta_core (token_count_input s)"
    using assms(1) unfolding styled_def by (metis get_input.simps(4))
  then show ?thesis using assms by (simp add: amount_field_def styled_def)
qed

lemma amount_restyles:
  assumes "restyles m" and "amount_field L at_end s"
  shows "safe_end np (amount_field L at_end) (m s)"
  using restylesD [OF assms(1)] assms(2) amount_styled [OF _ assms(2)] by (fastforce simp: amount_field_def)

text \<open>Typing elsewhere does not touch the amount; a digit or backspace keeps it an amount.\<close>

lemma amount_other:
  assumes "amount_field L at_end s" and "fld \<noteq> Token_Field"
  shows "safe_end np (amount_field L at_end) (type_key L fld key s)"
  using assms by (cases fld) (auto simp: type_key_def on_field_def amount_field_def blocks_iff)

lemma amount_typed:
  assumes "area_ok L at_end" and "amount_field L at_end s"
    and "ke_code key = Key_Backspace
      \<or> (\<exists>c \<in> digits. ke_code key = Key_Char c \<and> (c \<noteq> ''0'' \<or> input_text L Token_Field s \<noteq> []))"
  shows "safe_end np (amount_field L at_end) (type_key L Token_Field key s)"
proof -
  let ?a = "ta_core (token_count_input s)"
  obtain x where x: "ta_lines L ?a = [x]" "amount_text x" "at_end ?a"
    using assms(2) by (auto simp: amount_field_def)
  have "at_end (ta_input L key ?a) \<and> (\<exists>y. ta_lines L (ta_input L key ?a) = [y] \<and> amount_text y)"
  proof (cases "ke_code key = Key_Backspace")
    case True
    with assms(1) x have "at_end (ta_input L key ?a) \<and> (\<exists>k. ta_lines L (ta_input L key ?a) = [take k x])"
      by (simp add: area_ok_def)
    then show ?thesis using amount_take [OF x(2)] by auto
  next
    case False
    then obtain c where c: "c \<in> digits" "ke_code key = Key_Char c" "c \<noteq> ''0'' \<or> x \<noteq> []"
      using assms(3) x(1) by (auto simp: input_text_def)
    with assms(1) x have "at_end (ta_input L key ?a) \<and> ta_lines L (ta_input L key ?a) \<in> {[x], [x @ c]}"
      unfolding area_ok_def by blast
    then show ?thesis using amount_append [OF x(2) c(1,3)] x(2) by auto
  qed
  then show ?thesis
    using assms(2) by (simp add: type_key_def on_field_def amount_field_def blocks_iff)
qed


lemma amount_match_num_chars:
  assumes ok: "area_ok L at_end" and inv: "amount_field L at_end s"
  shows "safe_end np (amount_field L at_end) (match_num_chars L key s)"
proof (cases "ke_code key = Key_Backspace \<or> (\<exists>c \<in> digits. ke_code key = Key_Char c)")
  case True
  have lead: "safe_end np (amount_field L at_end) (on_field activate Token_Field s)"
    by (rule amount_restyles [OF _ inv]) simp
  have zero: "safe_end np (amount_field L at_end) (if input_text L Token_Field t \<noteq> [] then type_key L Token_Field key t else (Ok (), t))"
    if "amount_field L at_end t" "ke_code key = Key_Char ''0''" for t
    using that amount_typed [OF ok that(1)] by (simp add: digits_def)
  have other: "safe_end np (amount_field L at_end) (type_key L Token_Field key t)"
    if "amount_field L at_end t" "ke_code key \<noteq> Key_Char ''0''" for t
    by (rule amount_typed [OF ok that(1)]) (use True that(2) in auto)
  have "safe_end np (amount_field L at_end) (then_do (on_field activate Token_Field)
      (\<lambda>s. if input_text L Token_Field s \<noteq> [] then type_key L Token_Field key s else (Ok (), s)) s)"
    if "ke_code key = Key_Char ''0''"
    by (rule safe_then [where Q = "amount_field L at_end"], rule lead) (use zero that in simp)
  moreover have "safe_end np (amount_field L at_end) (then_do (on_field activate Token_Field) (type_key L Token_Field key) s)"
    if "ke_code key \<noteq> Key_Char ''0''"
    by (rule safe_then [where Q = "amount_field L at_end"], rule lead) (use other that in simp)
  ultimately show ?thesis
    using True by (auto simp: match_num_chars_def digits_def)
next
  case False
  then show ?thesis
    using inv by (auto simp: match_num_chars_def digits_def split: key_code.split)
qed

lemma amount_type:
  assumes ok: "area_ok L at_end" and inv: "amount_field L at_end s"
  shows "safe_end np (amount_field L at_end) (encryption_type L key s)"
proof -
  have "safe_end np (amount_field L at_end) (then_do (on_field activate fld) (type_key L fld key) s)"
    if "fld \<noteq> Token_Field" for fld
    by (rule safe_then, rule amount_restyles [OF _ inv], simp) (simp add: amount_other that)
  then show ?thesis
    using inv amount_match_num_chars [OF ok inv] by (simp add: encryption_type_def)
qed

lemma amount_cleanup: "area_ok L at_end \<Longrightarrow> amount_field L at_end (encryption_cleanup L s)"
  by (simp add: encryption_cleanup_def reset_intent_list_def reset_input_fields_def amount_field_def blocks_iff
      field_defs area_ok_def amount_text_def)

lemma amount_enter:
  assumes ok: "area_ok L at_end" and inv: "amount_field L at_end s"
  shows "safe_end False (amount_field L at_end) (encryption_enter L s)"
proof -
  have "safe_end False (amount_field L at_end) (then_do m (changing (encryption_cleanup L)) s)" for m
    by (rule safe_then [where Q = "\<lambda>_. True"]) (simp_all add: changing_def amount_cleanup [OF ok] safe_end_def split: outcome.split)
  then show ?thesis
    using inv by (simp add: encryption_enter_def Let_def amount_restyles)
qed

lemma amount_tab:
  assumes "amount_field L at_end s"
  shows "safe_end np (amount_field L at_end) (encryption_tab s)"
proof -
  have "amount_field L at_end (s\<lparr>encrypt_input_selection := v\<rparr>)" for v
    using assms by (simp add: amount_field_def)
  then show ?thesis
    using assms by (simp add: encryption_tab_def Let_def amount_restyles)
qed


section \<open>A run of the interface on concrete libraries\<close>

text \<open>
  One line of text as an input, a file explorer that stands on one file, a key store of phrases, and
  the calls that were made as the world outside.
\<close>

record demo_outside =
  do_keys :: "string list"
  do_encrypted :: "encrypt_call list"
  do_decrypted :: "decrypt_call list"

definition demo_address :: string where
  "demo_address = replicate 48 (CHR ''5'')"

definition demo_tui_backend :: "demo_outside substrate_backend" where
  "demo_tui_backend = \<lparr>client = \<lparr>
       api_call = (\<lambda>w call. Ok None),
       submit_call = (\<lambda>call w. (Ok [], w)),
       fetch_nonce = (\<lambda>w key. Ok (Some 7)),
       blake2_256 = (\<lambda>bs. replicate 32 0)\<rparr>,
     signer_account = replicate 32 1\<rparr>"

definition demo_tui :: "(string, unit, string, demo_outside) tui_libs" where
  "demo_tui = \<lparr>ta_default = [],
     ta_input = (\<lambda>key x. case ke_code key of Key_Char c \<Rightarrow> x @ c | Key_Backspace \<Rightarrow> take (length x - 1) x | _ \<Rightarrow> x),
     ta_lines = (\<lambda>x. [x]), fx_handle = (\<lambda>_ fx. (Ok (), fx)), fx_current = (\<lambda>_. (True, ''/tmp/a.txt'')),
     keystore_new = (\<lambda>_ w. (Ok (), w)),
     keystore_generate = (\<lambda>w. (Ok (), w\<lparr>do_keys := do_keys w @ [demo_address]\<rparr>)),
     keystore_keys = (\<lambda>w. Ok (do_keys w)),
     call_encrypt = (\<lambda>c w. (Ok (), w\<lparr>do_encrypted := do_encrypted w @ [c]\<rparr>)),
     call_decrypt = (\<lambda>c w. (Ok (), w\<lparr>do_decrypted := do_decrypted w @ [c]\<rparr>)),
     dir_files = (\<lambda>_ _. Some [Some ''a phrase'']), keypair = Some, kp_account = (\<lambda>_. demo_address),
     kp_sign = (\<lambda>_ m. take 64 (m @ replicate 64 0)), update_signer = (\<lambda>_ _. demo_tui_backend),
     backend_connect = (\<lambda>_ _. Ok demo_tui_backend), tui_ss58 = demo_ss58, tui_hex = demo_hex\<rparr>"

definition demo_app :: "(string, unit, demo_outside) app" where
  "demo_app = app_new demo_tui () ''ticket'' \<lparr>do_keys = [], do_encrypted = [], do_decrypted = []\<rparr>"

lemma demo_works: "outside_works demo_tui"
proof -
  have "\<exists>k ks. xs @ [demo_address] = k # ks" for xs by (cases xs) simp_all
  then show ?thesis by (simp add: outside_works_def demo_tui_def nonce_def demo_tui_backend_def)
qed

lemma demo_area: "area_ok demo_tui (\<lambda>_. True)"
proof -
  have "\<exists>k. take (length x - 1) x = take k x" for x :: string by blast
  then show ?thesis by (simp add: area_ok_def demo_tui_def)
qed

lemma demo_digit_alnum: "n < 16 \<Longrightarrow> char_of_byte (demo_digit n) \<in> alnum_chars"
proof -
  have "list_all (\<lambda>n. char_of_byte (demo_digit n) \<in> alnum_chars) [0..<16]"
    by code_simp
  then show "n < 16 \<Longrightarrow> char_of_byte (demo_digit n) \<in> alnum_chars" by (simp add: list_all_iff)
qed

lemma demo_hex_text:
  "length (demo_hex_enc bs) = 2 * length bs \<and> set (map char_of_byte (demo_hex_enc bs)) \<subseteq> alnum_chars"
proof (induction bs)
  case (Cons b bs)
  have "unat b < 2 ^ LENGTH(8)" by (rule unsigned_less)
  then have "unat b div 16 < 16" by simp
  then show ?case using Cons by (simp add: demo_digit_alnum)
qed simp

lemma demo_keypair: "keypair_ok demo_tui"
proof -
  have "CHR ''5'' \<in> alnum_chars" by (simp add: alnum_chars_def)
  then have "alnum_text demo_address" by (simp add: alnum_text_def demo_address_def)
  moreover have "alnum_text (map char_of_byte (demo_hex_enc bs)) \<and> length (demo_hex_enc bs) = 2 * length bs"
    if "bs \<noteq> []" for bs
    using demo_hex_text [of bs] that by (cases bs) (auto simp: alnum_text_def)
  ultimately show ?thesis
    using demo_hex_ok by (simp add: keypair_ok_def demo_tui_def demo_hex_def demo_address_def min_def)
qed


lemma enter_panics_without_keystore:
  assumes "backend_connect L ''ws://localhost:9944'' w = Ok b"
    and "keystore_new L ''tmp/keystore'' w = (Err e, w')"
  shows "fst (app_run L [Some (Key_Event \<lparr>ke_code = Key_Enter, ke_modifiers = m, ke_kind = Press\<rparr>)]
    (app_new L fx ticket w)) = Panic Unwrap_Err"
  using assms
  by (simp add: app_run_def app_new_def bind_action_def changing_def draw_def app_event_def main_input_def
      going_on_def main_select_def generate_keys_def then_do_def unwrapping_def outdoors_def)


section \<open>Properties\<close>

text \<open>
  C36. The interface panics only over what it unwraps from outside. When the key store opens, generates and
  lists keys, holds a phrase that gives a key, the nonce can be read, and the other outside calls
  (file explorer, encryption, decryption, the chain, listing for inspection) at worst return an
  error, no sequence of events makes any handler panic: no file path, text block, list entry or
  backend is missing when it is unwrapped. The condition is not only that nothing outside
  panics: with a key store that returns an error when it is opened, Enter on the menu's first row is
  a panic.
\<close>

theorem tui_panics_only_outside:
  assumes "outside_works L"
  shows "fst (app_run L polls (app_new L fx ticket w)) \<noteq> Panic p
    \<and> (\<forall>L' b e w'. backend_connect L' ''ws://localhost:9944'' w = Ok b \<longrightarrow>
         keystore_new L' ''tmp/keystore'' w = (Err e, w') \<longrightarrow>
         fst (app_run L' [Some (Key_Event \<lparr>ke_code = Key_Enter, ke_modifiers = m, ke_kind = Press\<rparr>)]
           (app_new L' fx ticket w)) = Panic Unwrap_Err)"
proof (intro conjI allI impI)
  show "fst (app_run L polls (app_new L fx ticket w)) \<noteq> Panic p"
    using app_run_wf [of True L polls fx ticket w] assms
    by (auto simp: safe_end_def split: outcome.splits)
qed (rule enter_panics_without_keystore)

theorem tui_panics_only_outside_witness:
  "fst (app_run demo_tui [Some (escape 0), None] demo_app) \<noteq> Panic Unwrap_None
    \<and> fst (app_run (demo_tui\<lparr>keystore_new := \<lambda>dir w. (Err ''no such directory'', w)\<rparr>)
        [Some (Key_Event \<lparr>ke_code = Key_Enter, ke_modifiers = 0, ke_kind = Press\<rparr>)]
        (app_new (demo_tui\<lparr>keystore_new := \<lambda>dir w. (Err ''no such directory'', w)\<rparr>) () ''ticket''
          \<lparr>do_keys = [], do_encrypted = [], do_decrypted = []\<rparr>)) = Panic Unwrap_Err"
  unfolding demo_app_def
  by (rule conjI [OF conjunct1 [OF tui_panics_only_outside [OF demo_works]]
        conjunct2 [OF tui_panics_only_outside [OF demo_works], rule_format]])
    (simp_all add: demo_tui_def)

text \<open>
  C37. Whatever events came, the selected row of the menu and of the list of intents is a row that
  exists, and the selected input of the encryption and of the decryption screen is one that the
  screen shows: the additions of the tab key stay below 3, 2 or 1 by the inputs shown.
\<close>

theorem tui_selections_in_range:
  "case app_run L polls (app_new L fx ticket w) of
     (Ok _, t) \<Rightarrow>
       (\<exists>i < length (menu_items t). menu_state t = Some i)
       \<and> (\<exists>i < length (intent_list_items t). intent_list_state t = Some i)
       \<and> encrypt_input_selection t < encrypt_fields t \<and> decrypt_input_selection t < decrypt_fields t
   | _ \<Rightarrow> True"
proof -
  have "safe_end False app_wf (app_run L polls (app_new L fx ticket w))" by (rule app_run_wf) simp
  then show ?thesis
    by (auto simp: safe_end_def app_wf_def selections_ok_def split: prod.split outcome.splits)
qed

text \<open>
  C39. The loop can always be left: from every state, whatever the screen and the inputs, two presses
  of escape end it, and after no sequence of events does it still run once they are pressed.
\<close>

theorem tui_escape_quits:
  "(\<exists>t. run_loop L [Some (escape m), Some (escape m')] s = (Ok False, t))
   \<and> fst (run_loop L (polls @ [Some (escape m), Some (escape m')]) s) \<noteq> Ok True"
proof -
  obtain r t where "run_loop L polls s = (r, t)" by fastforce
  moreover obtain u where "run_loop L [Some (escape m), Some (escape m')] t = (Ok False, u)"
    using two_escapes by blast
  ultimately have "fst (run_loop L (polls @ [Some (escape m), Some (escape m')]) s) \<noteq> Ok True"
    by (cases r) (auto simp only: run_loop_append split: if_splits prod.splits outcome.splits, auto)
  then show ?thesis using two_escapes [of L m m' s] by blast
qed

text \<open>
  C40. The token amount is always a numeral: whatever key is pressed on the encryption screen, the
  input holds one line that is empty or a number without leading zero, provided the library's input
  appends digits at its cursor, which stays at the end, and backspace removes from there.
\<close>

theorem tui_amount_is_numeral:
  assumes "area_ok L at_end" and "amount_field L at_end s" and "encryption_input L key s = (Ok (), t)"
  shows "amount_field L at_end t"
proof -
  have "safe_end False (amount_field L at_end) (encryption_input L key s)"
    using amount_cleanup [OF assms(1), of s] amount_tab [OF assms(2)] amount_enter [OF assms(1,2)]
      amount_type [OF assms(1,2)]
    by (simp add: encryption_input_def changing_def split: key_code.split)
  then show ?thesis using assms(3) by simp
qed

theorem tui_amount_is_numeral_witness:
  "amount_field demo_tui (\<lambda>_. True)
     (demo_app\<lparr>display_contract_address_input := True, encrypt_input_selection := 1,
        token_count_input := (token_field demo_tui)\<lparr>ta_core := ''70'', ta_cursor_line_style := With Underlined\<rparr>\<rparr>)"
proof -
  let ?s = "demo_app\<lparr>display_contract_address_input := True, encrypt_input_selection := 1,
      token_count_input := (token_field demo_tui)\<lparr>ta_core := ''7''\<rparr>\<rparr>"
  have inv: "amount_field demo_tui (\<lambda>_. True) ?s"
    by (simp add: amount_field_def blocks_iff demo_app_def app_new_def field_defs amount_text_def demo_tui_def)
  have run: "encryption_input demo_tui \<lparr>ke_code = Key_Char ''0'', ke_modifiers = 0, ke_kind = Press\<rparr> ?s
    = (Ok (), demo_app\<lparr>display_contract_address_input := True, encrypt_input_selection := 1,
        token_count_input := (token_field demo_tui)\<lparr>ta_core := ''70'', ta_cursor_line_style := With Underlined\<rparr>\<rparr>)"
    by (simp add: encryption_input_def encryption_type_def match_num_chars_def demo_app_def app_new_def
        then_do_def bind_action_def on_field_def activate_def input_text_def type_key_def field_defs demo_tui_def)
  show ?thesis by (rule tui_amount_is_numeral [OF demo_area inv run])
qed

text \<open>
  C34. Pressing enter on a filled encryption form encrypts the chosen file, by its base name, with an
  intent string that parses to exactly the chosen intents with the texts of the inputs, and leads
  back to the main screen with everything reset, as long as the texts keep their parentheses
  balanced and have no \<open>&&\<close>.
\<close>

theorem tui_encrypts_chosen_intents:
  assumes "nom_ok N" and "form_filled L s" and "file_path s = Some path"
    and "\<forall>p. fst (call_encrypt L (form_call L s path) (outside s)) \<noteq> Panic p"
    and "balanced 0 (input_text L Password_Field s)" and "\<not> has_delimiter (input_text L Password_Field s)"
    and "balanced 0 (input_text L Contract_Field s @ '', '' @ input_text L Token_Field s)"
    and "\<not> has_delimiter (input_text L Contract_Field s @ '', '' @ input_text L Token_Field s)"
  shows "encryption_enter L s =
      (Ok (), encryption_cleanup L (s\<lparr>outside := snd (call_encrypt L (form_call L s path) (outside s))\<rparr>))
    \<and> parse_intent_string N (en_intent (form_call L s path)) = Ok (chosen_intents L s)"
proof -
  have "chosen_intents L s \<noteq> [] \<and> (\<forall>x \<in> set (chosen_intents L s). well_formed x)"
    using assms(2,5-8) by (intro chosen_intents_wf) simp_all
  then have "parse_intent_string N (en_intent (form_call L s path)) = Ok (chosen_intents L s)"
    using parse_render [OF assms(1)] by (simp add: form_call_def)
  then show ?thesis using encryption_enter_run [OF assms(2-4)] by simp
qed

theorem tui_encrypts_chosen_intents_witness:
  "parse_intent_string demo_nom ''Password(pw) && Sr25519()'' = Ok [(''Password'', ''pw''), (''Sr25519'', [])]"
proof -
  let ?s = "demo_app\<lparr>display_password_input := True, sr25519_intent := True, file_path := Some ''/tmp/a.txt'',
      password_input := (password_field demo_tui)\<lparr>ta_core := ''pw''\<rparr>\<rparr>"
  have t: "input_text demo_tui Password_Field ?s = ''pw''" "input_text demo_tui Contract_Field ?s = []"
    "input_text demo_tui Token_Field ?s = []"
    by (simp_all add: input_text_def demo_app_def app_new_def field_defs demo_tui_def)
  have f: "display_password_input ?s" "\<not> display_contract_address_input ?s" "sr25519_intent ?s"
    by (simp_all add: demo_app_def app_new_def)
  have c: "chosen_intents demo_tui ?s = [(''Password'', ''pw''), (''Sr25519'', [])]"
    using t f by (simp add: chosen_intents_def)
  have "parse_intent_string demo_nom (en_intent (form_call demo_tui ?s ''/tmp/a.txt'')) = Ok (chosen_intents demo_tui ?s)"
  proof (rule conjunct2 [OF tui_encrypts_chosen_intents [OF demo_nom_ok]])
    show "form_filled demo_tui ?s" using t f by (simp add: form_filled_def)
    show "\<forall>p. fst (call_encrypt demo_tui (form_call demo_tui ?s ''/tmp/a.txt'') (outside ?s)) \<noteq> Panic p"
      by (simp add: demo_tui_def)
  qed (simp_all only: t, simp_all)
  then show ?thesis by (simp add: form_call_def c render_intent_def)
qed

text \<open>
  C35. The decryption form gives the node one witness for each chosen intent, in the order in which the
  encryption form writes the intents: split at the commas, the witness string is the password, the
  address and the address with a signature, and the last is text on which the Sr25519 gadget checks
  the signature of exactly the nonce that was signed, for a password without comma or white space
  around it.
\<close>

theorem tui_witness_per_intent:
  assumes "keypair_ok L"
    and "load_mnemonic L ''tmp/keystore'' (outside s) = Ok m" and "keypair L m = Some kp" and "app_backend s = Some b"
    and "nonce (update_signer L kp b) (outside s) (decode_public_key (tui_ss58 L) (kp_account L kp)) = Ok n"
    and "from_utf8 (as_bytes (kp_account L kp)) = Some (kp_account L kp)"
    and "piece_ok password" and "witness_pieces s [] [] [] \<noteq> []"
  shows "\<exists>text. fst (prepare_witness_string L password s) = Ok text
    \<and> parse_witnesses text = witness_pieces s password (kp_account L kp) (signature_text L kp n)
    \<and> sr25519_verify (tui_ss58 L) (tui_hex L) verify (nonce (update_signer L kp b)) (outside s)
        (as_bytes (kp_account L kp @ signature_text L kp n)) []
      = Ok (verify (kp_sign L kp (u32_to_le_bytes n)) (u32_to_le_bytes n)
          (decode_public_key (tui_ss58 L) (kp_account L kp)))"
proof -
  let ?ps = "witness_pieces s password (kp_account L kp) (signature_text L kp n)"
  have "?ps \<noteq> []" using assms(8) by (simp add: witness_pieces_def split: if_splits)
  then have "parse_witnesses (comma_list ?ps) = ?ps"
    using parse_comma_list witness_pieces_ok [OF assms(1,7)] by blast
  then show ?thesis
    using prepare_witness_run [OF assms(2-5), of password]
      signed_piece_verified [OF assms(1,6), where get_nonce = "nonce (update_signer L kp b)" and A = "tui_ss58 L", OF assms(5)]
    by simp
qed

theorem tui_witness_per_intent_witness:
  "\<exists>text. fst (prepare_witness_string demo_tui ''pw''
       (demo_app\<lparr>app_backend := Some demo_tui_backend, display_password_input := True, sr25519_intent := True\<rparr>)) = Ok text
     \<and> parse_witnesses text = [''pw'', demo_address @ signature_text demo_tui ''a phrase'' 7]"
proof -
  let ?s = "demo_app\<lparr>app_backend := Some demo_tui_backend, display_password_input := True, sr25519_intent := True\<rparr>"
  have "load_mnemonic demo_tui ''tmp/keystore'' (outside ?s) = Ok (trim_quotes (trim ''a phrase''))"
    by (simp add: load_mnemonic_def demo_tui_def)
  moreover have "trim_quotes (trim ''a phrase'') = ''a phrase''"
    by (simp add: trim_quotes_def trim_def white_space_defs starts_with_def trim_with.simps)
  ultimately have m: "load_mnemonic demo_tui ''tmp/keystore'' (outside ?s) = Ok ''a phrase''" by simp
  have k: "keypair demo_tui ''a phrase'' = Some ''a phrase''" "app_backend ?s = Some demo_tui_backend"
    by (simp_all add: demo_tui_def)
  have n: "nonce (update_signer demo_tui ''a phrase'' demo_tui_backend) (outside ?s)
      (decode_public_key (tui_ss58 demo_tui) (kp_account demo_tui ''a phrase'')) = Ok 7"
    by (simp add: demo_tui_def nonce_def demo_tui_backend_def)
  have u: "from_utf8 (as_bytes (kp_account demo_tui ''a phrase'')) = Some (kp_account demo_tui ''a phrase'')"
  proof (rule from_utf8_as_bytes)
    have "byte_of_char (CHR ''5'') \<le> 0x7F" by code_simp
    then show "valid_utf8 (as_bytes (kp_account demo_tui ''a phrase''))"
      by (intro valid_utf8_ascii) (simp add: demo_tui_def demo_address_def as_bytes_def)
  qed
  have "alnum_text ''pw''" by (simp add: alnum_text_def alnum_chars_def)
  then have p: "piece_ok ''pw''" by (rule alnum_piece)
  have w: "witness_pieces ?s a b c = [a, b @ c]" for a b c
    by (simp add: witness_pieces_def demo_app_def app_new_def)
  have "kp_account demo_tui ''a phrase'' = demo_address" by (simp add: demo_tui_def)
  with tui_witness_per_intent [OF demo_keypair m k n u p, where verify = "\<lambda>_ _ _. True"] show ?thesis
    unfolding w by auto
qed

end
