(* ===== verification/Tui_View.thy ===== *)
theory Tui_View
  imports Tui_Forms
begin

text \<open>
  What the terminal interface draws: \<open>render\<close> of \<open>entmoot/src/main.rs\<close> and the \<open>render\<close> functions of the
  screens under \<open>menus/\<close>. A frame is the list of widgets in the order in which they are drawn, each
  with its area; splitting an area by constraints is the library's. The last sections show what the
  user can rely on: the cursor is in the input that typing changes, and passwords are masked.
\<close>

section \<open>Widgets\<close>

datatype direction = Vertical | Horizontal

datatype layout_constraint =
    Length_Of "16 word"
  | Min_Of "16 word"
  | Max_Of "16 word"
  | Percentage_Of "16 word"

datatype borders = No_Borders | Bottom_Border | All_Borders

datatype border_type = Plain_Border | Rounded_Border | Double_Border

datatype padding = No_Padding | Uniform_Padding "16 word" | Horizontal_Padding "16 word"

record block =
  bk_title :: string
  bk_title_centered :: bool
  bk_borders :: borders
  bk_border_type :: border_type
  bk_border_color :: "color option"
  bk_padding :: padding

text \<open>The default block has no title, no border and no padding.\<close>

definition block_default :: block where
  "block_default = \<lparr>bk_title = [], bk_title_centered = False, bk_borders = No_Borders, bk_border_type = Plain_Border,
     bk_border_color = None, bk_padding = No_Padding\<rparr>"

record text_paragraph =
  pg_text :: string
  pg_fg :: "color option"
  pg_bg :: "color option"
  pg_centered :: bool
  pg_wrap_trim :: bool
  pg_block :: "block option"

definition paragraph_new :: "string \<Rightarrow> text_paragraph" where
  "paragraph_new content = \<lparr>pg_text = content, pg_fg = None, pg_bg = None, pg_centered = False, pg_wrap_trim = False,
     pg_block = None\<rparr>"

record list_widget =
  lw_items :: "(string \<times> color) list"
  lw_block :: block
  lw_highlight :: "color \<times> color \<times> bool"
  lw_highlight_symbol :: string

datatype ('ta, 'fx) widget =
    Draw_Block block
  | Draw_Paragraph text_paragraph
  | Draw_List list_widget "nat option"
  | Draw_Input "'ta text_area"
  | Draw_Explorer 'fx

type_synonym ('r, 'ta, 'fx) frame = "('r \<times> ('ta, 'fx) widget) list"

text \<open>The parts of an area \<open>'r\<close>. The library makes one for each constraint, as the code's patterns expect.\<close>

type_synonym 'r layout_lib = "direction \<Rightarrow> layout_constraint list \<Rightarrow> 'r \<Rightarrow> 'r list"

text \<open>The characters outside ASCII, as UTF-8.\<close>

definition key_sign :: string where "key_sign = [CHR 0xF0, CHR 0x9F, CHR 0x94, CHR 0x91]"
definition bullet :: string where "bullet = [CHR 0xE2, CHR 0x80, CHR 0xA2]"
definition triangle :: string where "triangle = [CHR 0xE2, CHR 0x96, CHR 0xB6]"
definition left_arrow :: string where "left_arrow = [CHR 0xE2, CHR 0x86, CHR 0x90]"
definition up_arrow :: string where "up_arrow = [CHR 0xE2, CHR 0x86, CHR 0x91]"
definition right_arrow :: string where "right_arrow = [CHR 0xE2, CHR 0x86, CHR 0x92]"
definition down_arrow :: string where "down_arrow = [CHR 0xE2, CHR 0x86, CHR 0x93]"
definition bar :: string where "bar = [CHR 0xE2, CHR 0x94, CHR 0x82]"

definition footer_widget :: "string \<Rightarrow> ('ta, 'fx) widget" where
  "footer_widget content = Draw_Paragraph ((paragraph_new content)\<lparr>pg_fg := Some DarkGray, pg_centered := True\<rparr>)"

text \<open>The frame of the menu and of the list of intents, and how they show the selected row.\<close>

definition menu_widget :: "(string \<times> color) list \<Rightarrow> string \<Rightarrow> list_widget" where
  "menu_widget items title =
     \<lparr>lw_items = items,
      lw_block = block_default\<lparr>bk_borders := All_Borders, bk_border_type := Rounded_Border, bk_border_color := Some Cyan,
        bk_title := title, bk_title_centered := True\<rparr>,
      lw_highlight = (Black, Cyan, True), lw_highlight_symbol = triangle @ '' ''\<rparr>"

text \<open>The centred area of a list of that many rows.\<close>

definition centered_menu :: "'r layout_lib \<Rightarrow> nat \<Rightarrow> 'r \<Rightarrow> 'r" where
  "centered_menu R rows area =
     (let menu_area = R Vertical [Percentage_Of 30, Length_Of (of_nat (rows * 3)), Percentage_Of 30] area ! 1
      in R Horizontal [Percentage_Of 25, Percentage_Of 50, Percentage_Of 25] menu_area ! 1)"


section \<open>The main screen\<close>

definition logo :: string where
  "logo = join_lines [
      ''  '',
      ''             _                         _   '',
      ''            | |                       | |  '',
      ''   ___ _ __ | |_ _ __ ___   ___   ___ | |_ '',
      ''  / _ '' @ [CHR 0x5C] @ '' '' @ [CHR 0x27] @ ''_ '' @ [CHR 0x5C] @ ''| __| '' @ [CHR 0x27] @ ''_ '' @ [CHR 0x60] @ '' _ '' @ [CHR 0x5C] @ '' / _ '' @ [CHR 0x5C] @ '' / _ '' @ [CHR 0x5C] @ ''| __|'',
      '' |  __/ | | | |_| | | | | | (_) | (_) | |_ '',
      ''  '' @ [CHR 0x5C] @ ''___|_| |_|'' @ [CHR 0x5C] @ ''__|_| |_| |_|'' @ [CHR 0x5C] @ ''___/ '' @ [CHR 0x5C] @ ''___/ '' @ [CHR 0x5C] @ ''__|'',
      ''                               by Ideal Labs'',
      ''  '']"

definition render_title :: "'r \<Rightarrow> ('r, 'ta, 'fx) frame" where
  "render_title title_area =
     [(title_area, Draw_Paragraph ((paragraph_new logo)\<lparr>pg_fg := Some Cyan, pg_centered := True\<rparr>))]"

text \<open>Every row of the menu has the same icon up to the fourth, then a bullet.\<close>

definition render_menu :: "'r layout_lib \<Rightarrow> 'r \<Rightarrow> string list \<Rightarrow> nat option \<Rightarrow> ('r, 'ta, 'fx) frame" where
  "render_menu R area items state =
     [(centered_menu R (length items) area,
       Draw_List (menu_widget (map (\<lambda>(i, item). (''  '' @ (if i \<le> 3 then ''>'' else bullet) @ ''  '' @ item, White))
         (enumerate 0 items)) '' Main Menu '') state)]"

definition main_footer :: string where
  "main_footer = up_arrow @ down_arrow @ ''/j/k: Navigate  '' @ bar @ ''  Enter: Select  '' @ bar @ ''  Esc/q: Quit''"

definition render_main_screen ::
  "'r layout_lib \<Rightarrow> 'r \<Rightarrow> ('ta, 'fx, 'w) app \<Rightarrow> ('r, 'ta, 'fx) frame \<times> ('ta, 'fx, 'w) app" where
  "render_main_screen R area s =
     (let s = s\<lparr>menu_title := '' Main Menu ''\<rparr>;
          areas = R Vertical [Length_Of 10, Min_Of 10, Length_Of 3] area
      in (render_title (areas ! 0) @ render_menu R (areas ! 1) (menu_items s) (menu_state s)
            @ [(areas ! 2, footer_widget main_footer)], s))"


section \<open>The other screens\<close>

definition render_key_results_screen ::
  "'r layout_lib \<Rightarrow> 'r \<Rightarrow> ('ta, 'fx, 'w) app \<Rightarrow> ('r, 'ta, 'fx) frame" where
  "render_key_results_screen R area s =
     (let areas = R Vertical [Length_Of 3, Min_Of 5, Length_Of 3] area;
          key_content = (case generated_pubkey s of Some k \<Rightarrow> k | None \<Rightarrow> ''Error: Keys not found.'');
          button_layout = R Horizontal [Percentage_Of 100] (areas ! 2)
      in [(areas ! 0, Draw_Block (block_default\<lparr>bk_title := '' '' @ key_sign @ '' Generated Keys '',
             bk_title_centered := True, bk_borders := Bottom_Border, bk_border_color := Some Cyan\<rparr>)),
          (areas ! 1, Draw_Paragraph ((paragraph_new key_content)\<lparr>pg_wrap_trim := True,
             pg_block := Some (block_default\<lparr>bk_padding := Uniform_Padding 1\<rparr>)\<rparr>)),
          (button_layout ! 0, Draw_Paragraph ((paragraph_new '' [ C / Esc: Close ] '')\<lparr>pg_fg := Some Black,
             pg_bg := Some Red, pg_centered := True,
             pg_block := Some (block_default\<lparr>bk_padding := Horizontal_Padding 1\<rparr>)\<rparr>))])"

definition render_file_explorer_screen ::
  "'r layout_lib \<Rightarrow> 'r \<Rightarrow> ('ta, 'fx, 'w) app \<Rightarrow> ('r, 'ta, 'fx) frame" where
  "render_file_explorer_screen R area s =
     (let areas = R Vertical [Length_Of 3, Min_Of 10, Length_Of 3] area
      in [(areas ! 0, Draw_Paragraph ((paragraph_new ''Select a file and press Enter'')\<lparr>pg_fg := Some Cyan,
             pg_centered := True,
             pg_block := Some (block_default\<lparr>bk_borders := Bottom_Border, bk_border_color := Some DarkGray\<rparr>)\<rparr>)),
          (areas ! 1, Draw_Explorer (file_explorer s)),
          (areas ! 2, footer_widget (up_arrow @ down_arrow @ '': Navigate  '' @ bar @ ''  '' @ left_arrow @ '' ''
             @ right_arrow @ '': Dirs  '' @ bar @ ''  Enter: Select  '' @ bar @ ''  Esc: Back''))])"

text \<open>The password comes above the contract and the amount, which share a row.\<close>

definition render_encryption_inputs ::
  "'r layout_lib \<Rightarrow> 'r \<Rightarrow> ('ta, 'fx, 'w) app \<Rightarrow> ('r, 'ta, 'fx) frame" where
  "render_encryption_inputs R area s =
     (let areas = R Vertical [Max_Of 4, Max_Of 10, Max_Of 10, Length_Of 3] area;
          contract_split = R Horizontal [Max_Of 5, Min_Of 10, Max_Of 30, Max_Of 5] (areas ! 2);
          password_split = R Horizontal [Max_Of 5, Min_Of 5, Max_Of 5] (areas ! 1)
      in (if display_contract_address_input s
          then [(contract_split ! 1, Draw_Input (contract_address_input s)),
                (contract_split ! 2, Draw_Input (token_count_input s))]
          else [])
         @ (if display_password_input s then [(password_split ! 1, Draw_Input (password_input s))] else [])
         @ [(areas ! 3, footer_widget (''Tab: Change input | Enter: Submit  '' @ bar @ ''  Esc: Back''))])"

definition render_decrypt_info ::
  "'r layout_lib \<Rightarrow> 'r \<Rightarrow> ('ta, 'fx, 'w) app \<Rightarrow> ('r, 'ta, 'fx) frame" where
  "render_decrypt_info R area s =
     (let areas = R Vertical [Max_Of 4, Max_Of 10, Max_Of 10, Length_Of 3] area;
          row = (\<lambda>r. R Horizontal [Max_Of 5, Min_Of 5, Max_Of 5] r ! 1)
      in [(row (areas ! 1), Draw_Input (filename_input s))]
         @ (if display_password_input s then [(row (areas ! 2), Draw_Input (password_input s))] else [])
         @ [(areas ! 3, footer_widget (''Tab: Change Input  '' @ bar @ ''  Enter: Submit  '' @ bar @ ''  Esc: Back''))])"

definition intent_rows :: "(string \<times> bool) list \<Rightarrow> (string \<times> color) list" where
  "intent_rows items =
     map (\<lambda>(i, item, item_selected). (''  '' @ (if i \<le> 2 then ''>'' else bullet) @ ''  '' @ item,
       if item_selected then LightGreen else White)) (enumerate 0 items)"

definition render_intents_screen ::
  "'r layout_lib \<Rightarrow> 'r \<Rightarrow> ('ta, 'fx, 'w) app \<Rightarrow> ('r, 'ta, 'fx) frame" where
  "render_intents_screen R area s =
     (let areas = R Vertical [Max_Of 1, Min_Of 10, Length_Of 3] area
      in [(centered_menu R (length (intent_list_items s)) (areas ! 1),
             Draw_List (menu_widget (intent_rows (intent_list_items s)) '' Intents '') (intent_list_state s)),
          (areas ! 2, footer_widget (up_arrow @ down_arrow @ '': Navigate  '' @ bar
             @ ''  Space: Select/Deselect | Enter: Submit  '' @ bar @ ''  Esc/q: Quit''))])"

text \<open>The screen, then the outer border with the title.\<close>

definition render ::
  "'r layout_lib \<Rightarrow> 'r \<Rightarrow> ('ta, 'fx, 'w) app \<Rightarrow> ('r, 'ta, 'fx) frame \<times> ('ta, 'fx, 'w) app" where
  "render R area s =
     (case (case current_screen s of
              Main_Screen \<Rightarrow> render_main_screen R area s
            | KeyResults \<Rightarrow> (render_key_results_screen R area s, s)
            | EncryptFileSelectScreen \<Rightarrow> (render_file_explorer_screen R area s, s)
            | EncryptionInputScreen \<Rightarrow> (render_encryption_inputs R area s, s)
            | DecryptScreen \<Rightarrow> (render_decrypt_info R area s, s)
            | IntentSelection \<Rightarrow> (render_intents_screen R area s, s)) of
        (widgets, s) \<Rightarrow>
          (widgets @ [(area, Draw_Block (block_default\<lparr>bk_borders := All_Borders, bk_border_type := Double_Border,
             bk_border_color := Some Cyan, bk_title := menu_title s\<rparr>))], s))"

text \<open>\<open>draw\<close> is what rendering does to the application.\<close>

lemma render_draw: "snd (render R area s) = draw s"
  by (simp add: render_def render_main_screen_def draw_def Let_def split: screen.split)


section \<open>The inputs of a screen\<close>

text \<open>In the order of the tab key.\<close>

definition shown_fields :: "('ta, 'fx, 'w) app \<Rightarrow> input_field list" where
  "shown_fields s =
     (case current_screen s of
        EncryptionInputScreen \<Rightarrow>
          (if display_password_input s then [Password_Field] else [])
          @ (if display_contract_address_input s then [Contract_Field, Token_Field] else [])
      | DecryptScreen \<Rightarrow> Filename_Field # (if display_password_input s then [Password_Field] else [])
      | _ \<Rightarrow> [])"

definition typing_field :: "('ta, 'fx, 'w) app \<Rightarrow> input_field" where
  "typing_field s = shown_fields s !
     unat (if current_screen s = DecryptScreen then decrypt_input_selection s else encrypt_input_selection s)"

definition cursor_shown :: "'ta text_area \<Rightarrow> bool" where
  "cursor_shown t \<longleftrightarrow> ta_cursor_style t \<noteq> With Hidden"

definition drawn_inputs :: "('r, 'ta, 'fx) frame \<Rightarrow> 'ta text_area list" where
  "drawn_inputs f = List.map_filter (\<lambda>(_, w). case w of Draw_Input t \<Rightarrow> Some t | _ \<Rightarrow> None) f"

definition no_cursor :: "('ta, 'fx, 'w) app \<Rightarrow> input_field set" where
  "no_cursor s = {fld. \<not> cursor_shown (get_input fld s)}"

text \<open>One of the inputs shown has the cursor, the one the selection points at, and passwords are masked.\<close>

definition look_ok :: "('ta, 'fx, 'w) app \<Rightarrow> bool" where
  "look_ok s \<longleftrightarrow> ta_masked (password_input s)
     \<and> (current_screen s \<in> {EncryptionInputScreen, DecryptScreen} \<longrightarrow>
          shown_fields s \<noteq> [] \<and> set (shown_fields s) - no_cursor s = {typing_field s})"

lemma drawn_inputs_simps [simp]:
  "drawn_inputs [] = []" "drawn_inputs ((r, Draw_Input t) # f) = t # drawn_inputs f"
  "drawn_inputs ((r, Draw_Block b) # f) = drawn_inputs f" "drawn_inputs ((r, Draw_Paragraph p) # f) = drawn_inputs f"
  "drawn_inputs ((r, footer_widget c) # f) = drawn_inputs f"
  "drawn_inputs (f @ g) = drawn_inputs f @ drawn_inputs g"
  by (simp_all add: drawn_inputs_def footer_widget_def List.map_filter_def)

lemma drawn_inputs_forms:
  "current_screen s = EncryptionInputScreen \<Longrightarrow> drawn_inputs (fst (render R area s)) =
     (if display_contract_address_input s then [contract_address_input s, token_count_input s] else [])
     @ (if display_password_input s then [password_input s] else [])"
  "current_screen s = DecryptScreen \<Longrightarrow> drawn_inputs (fst (render R area s)) =
     filename_input s # (if display_password_input s then [password_input s] else [])"
  by (simp_all add: render_def render_encryption_inputs_def render_decrypt_info_def Let_def)

lemma u8_below:
  "(x::u8) < 1 \<Longrightarrow> x = 0" "(x::u8) < 2 \<Longrightarrow> x = 0 \<or> x = 1" "(x::u8) < 3 \<Longrightarrow> x = 0 \<or> x = 1 \<or> x = 2"
  by (simp_all add: word_less_nat_alt word_unat_eq_iff) linarith+

text \<open>What is selected on a form, case by case.\<close>

lemma typing_field_encrypt:
  assumes "app_wf s" and "current_screen s = EncryptionInputScreen"
  shows "display_password_input s \<Longrightarrow> display_contract_address_input s \<Longrightarrow>
      encrypt_input_selection s = 0 \<and> typing_field s = Password_Field
      \<or> encrypt_input_selection s = 1 \<and> typing_field s = Contract_Field
      \<or> encrypt_input_selection s = 2 \<and> typing_field s = Token_Field"
    and "\<not> display_password_input s \<Longrightarrow> display_contract_address_input s \<Longrightarrow>
      encrypt_input_selection s = 0 \<and> typing_field s = Contract_Field
      \<or> encrypt_input_selection s = 1 \<and> typing_field s = Token_Field"
    and "\<not> display_contract_address_input s \<Longrightarrow> display_password_input s \<Longrightarrow> typing_field s = Password_Field"
  using assms u8_below [of "encrypt_input_selection s"]
  by (auto simp: app_wf_def selections_ok_def encrypt_fields_def typing_field_def shown_fields_def)

lemma typing_field_decrypt:
  assumes "app_wf s" and "current_screen s = DecryptScreen"
  shows "display_password_input s \<Longrightarrow>
      decrypt_input_selection s = 0 \<and> typing_field s = Filename_Field
      \<or> decrypt_input_selection s = 1 \<and> typing_field s = Password_Field"
    and "\<not> display_password_input s \<Longrightarrow> typing_field s = Filename_Field"
  using assms u8_below [of "decrypt_input_selection s"]
  by (auto simp: app_wf_def selections_ok_def decrypt_fields_def typing_field_def shown_fields_def)

lemma cursor_drawn_once:
  assumes "app_wf s" and "look_ok s" and "current_screen s \<in> {EncryptionInputScreen, DecryptScreen}"
  shows "filter cursor_shown (drawn_inputs (fst (render R area s))) = [get_input (typing_field s) s]"
proof (cases "current_screen s = DecryptScreen")
  case True
  have "cursor_shown (get_input fld s) \<longleftrightarrow> fld = typing_field s" if "fld \<in> set (shown_fields s)" for fld
    using assms(2,3) that by (auto simp: look_ok_def no_cursor_def)
  from this [of Filename_Field] this [of Password_Field] show ?thesis
    using typing_field_decrypt [OF assms(1) True] True
    by (cases "display_password_input s") (auto simp: drawn_inputs_forms shown_fields_def)
next
  case False
  then have scr: "current_screen s = EncryptionInputScreen" using assms(3) by simp
  have ne: "display_password_input s \<or> display_contract_address_input s"
    using assms(2) scr by (auto simp: look_ok_def shown_fields_def split: if_splits)
  have "cursor_shown (get_input fld s) \<longleftrightarrow> fld = typing_field s" if "fld \<in> set (shown_fields s)" for fld
    using assms(2,3) that by (auto simp: look_ok_def no_cursor_def)
  from this [of Password_Field] this [of Contract_Field] this [of Token_Field] show ?thesis
    using typing_field_encrypt [OF assms(1) scr] scr ne
    by (cases "display_password_input s"; cases "display_contract_address_input s")
      (auto simp: drawn_inputs_forms shown_fields_def)
qed


section \<open>Every handler keeps the cursor in place\<close>

text \<open>What an action on the inputs does to the set of inputs without cursor, and to nothing else.\<close>

definition looks :: "(input_field set \<Rightarrow> input_field set) \<Rightarrow> ('ta, 'fx, 'w) tui_action \<Rightarrow> bool" where
  "looks F m \<longleftrightarrow> (\<forall>s. blocks s \<longrightarrow> (\<exists>t. m s = (Ok (), t) \<and> only_inputs s t \<and> blocks t
     \<and> no_cursor t = F (no_cursor s) \<and> ta_masked (password_input t) = ta_masked (password_input s)))"

lemma looks_field:
  assumes "\<And>t. ta_block t \<noteq> None \<Longrightarrow> \<exists>u. f t = Ok u \<and> ta_block u \<noteq> None \<and> ta_masked u = ta_masked t
      \<and> cursor_shown u = h (cursor_shown t)"
    and "\<And>X. F X = {g. if g = fld then \<not> h (g \<notin> X) else g \<in> X}"
  shows "looks F (on_field f fld)"
  unfolding looks_def
proof (intro allI impI)
  fix s :: "('a, 'b, 'c) app"
  assume b: "blocks s"
  then obtain u where u: "f (get_input fld s) = Ok u" "ta_block u \<noteq> None" "ta_masked u = ta_masked (get_input fld s)"
    "cursor_shown u = h (cursor_shown (get_input fld s))"
    using assms(1) [of "get_input fld s"] by (auto simp: blocks_def)
  have "no_cursor (put_input fld u s) = F (no_cursor s)"
    using u(4) by (auto simp: no_cursor_def assms(2))
  moreover have "ta_masked (password_input (put_input fld u s)) = ta_masked (password_input s)"
    using u(3) by (cases fld) simp_all
  ultimately show "\<exists>t. on_field f fld s = (Ok (), t) \<and> only_inputs s t \<and> blocks t
      \<and> no_cursor t = F (no_cursor s) \<and> ta_masked (password_input t) = ta_masked (password_input s)"
    using u(1,2) b by (auto simp: on_field_def put_input_only blocks_def)
qed

lemma looks_styles:
  "looks (\<lambda>X. X - {fld}) (on_field activate fld)" "looks (insert fld) (on_field inactivate fld)"
  "looks (\<lambda>X. X) (on_field indicate_error fld)" "looks (\<lambda>X. X) (type_key L fld key)"
  unfolding type_key_def
  by (rule looks_field [where h = "\<lambda>_. True"], auto simp: activate_def cursor_shown_def)
    (rule looks_field [where h = "\<lambda>_. False"], auto simp: inactivate_def cursor_shown_def,
     (rule looks_field [where h = "\<lambda>b. b"], auto simp: indicate_error_def cursor_shown_def)+)

lemma looks_skip: "looks (\<lambda>X. X) (pure_action (Ok ()))" "looks (\<lambda>X. X) (\<lambda>s. (Ok (), s))"
  by (auto simp: looks_def)

lemma looks_if: "looks F m \<Longrightarrow> looks F n \<Longrightarrow> looks F (\<lambda>s. if c s then m s else n s)"
  unfolding looks_def by presburger

lemma looks_then:
  assumes "looks F m" and "looks G n"
  shows "looks (\<lambda>X. G (F X)) (then_do m n)"
  unfolding looks_def
proof (intro allI impI)
  fix s :: "('a, 'b, 'c) app"
  assume "blocks s"
  then obtain t where t: "m s = (Ok (), t)" "only_inputs s t" "blocks t" "no_cursor t = F (no_cursor s)"
    "ta_masked (password_input t) = ta_masked (password_input s)"
    using assms(1) unfolding looks_def by blast
  then obtain u where "n t = (Ok (), u)" "only_inputs t u" "blocks u" "no_cursor u = G (no_cursor t)"
    "ta_masked (password_input u) = ta_masked (password_input t)"
    using assms(2) unfolding looks_def by blast
  with t show "\<exists>u. then_do m n s = (Ok (), u) \<and> only_inputs s u \<and> blocks u
      \<and> no_cursor u = G (F (no_cursor s)) \<and> ta_masked (password_input u) = ta_masked (password_input s)"
    by (auto simp: then_do_def intro: only_inputs_trans)
qed

lemma looks_show_error: "looks (\<lambda>X. X) (show_error L fld)"
  unfolding show_error_def by (rule looks_if [OF looks_styles(3) looks_skip(2)])

lemmas looks_intros = looks_then [OF looks_styles(1)] looks_then [OF looks_styles(2)] looks_then [OF looks_styles(4)]
  looks_then [OF looks_show_error] looks_styles looks_skip looks_show_error

lemma only_inputs_shown:
  assumes "only_inputs s t"
  shows "shown_fields t = shown_fields s" and "typing_field t = typing_field s" and "current_screen t = current_screen s"
proof -
  show f: "shown_fields t = shown_fields s"
    using assms by (simp only: only_inputs_def shown_fields_def)
  show "typing_field t = typing_field s"
    using assms unfolding typing_field_def f by (simp only: only_inputs_def)
  show "current_screen t = current_screen s"
    using assms by (simp only: only_inputs_def)
qed

text \<open>An action that leaves the cursor with the input that is typed in keeps the invariant.\<close>

lemma looks_ok:
  assumes "looks F m" and "blocks s" and "ta_masked (password_input s)"
    and "current_screen s \<in> {EncryptionInputScreen, DecryptScreen} \<Longrightarrow>
      shown_fields s \<noteq> [] \<and> set (shown_fields s) - F (no_cursor s) = {typing_field s}"
  shows "safe_end np look_ok (m s)"
proof -
  obtain t where "m s = (Ok (), t)" "only_inputs s t" "no_cursor t = F (no_cursor s)"
    "ta_masked (password_input t) = ta_masked (password_input s)"
    using assms(1,2) unfolding looks_def by blast
  then show ?thesis
    using assms(3,4) by (simp add: look_ok_def only_inputs_shown)
qed

lemma looks_kept:
  assumes "looks (\<lambda>X. X) m" and "app_wf s" and "look_ok s"
  shows "safe_end np look_ok (m s)"
  by (rule looks_ok [OF assms(1) app_wf_facts(5) [OF assms(2)]]) (use assms(3) in \<open>simp_all add: look_ok_def\<close>)

text \<open>Activating the input that is typed in changes nothing about the cursor.\<close>

lemma looks_typed:
  assumes "looks (\<lambda>X. X - {typing_field s}) m" and "app_wf s" and "look_ok s"
  shows "safe_end np look_ok (m s)"
  by (rule looks_ok [OF assms(1) app_wf_facts(5) [OF assms(2)]]) (use assms(3) in \<open>auto simp: look_ok_def\<close>)

lemma looks_type: "looks (\<lambda>X. X - {fld}) (then_do (on_field activate fld) (type_key L fld key))"
  using looks_then [OF looks_styles(1) looks_styles(4)] .

lemma looks_type': "looks (\<lambda>X. X - {fld}) (then_do (type_key L fld key) (on_field activate fld))"
  using looks_then [OF looks_styles(4) looks_styles(1)] .

lemma looks_match_num_chars:
  "looks (\<lambda>X. X - {Token_Field}) (match_num_chars L key) \<or> looks (\<lambda>X. X) (match_num_chars L key)"
proof -
  have "looks (\<lambda>X. X - {Token_Field}) (then_do (on_field activate Token_Field)
      (\<lambda>s. if input_text L Token_Field s \<noteq> [] then type_key L Token_Field key s else (Ok (), s)))"
    by (rule looks_then [OF looks_styles(1) looks_if [OF looks_styles(4) looks_skip(2)]])
  then show ?thesis
    using looks_type [of Token_Field L key] looks_skip
    by (auto simp: match_num_chars_def split: key_code.split)
qed

lemma look_encryption_type:
  assumes wf: "app_wf s" and scr: "current_screen s = EncryptionInputScreen" and look: "look_ok s"
  shows "safe_end np look_ok (encryption_type L key s)"
proof -
  have ne: "display_password_input s \<or> display_contract_address_input s"
    using look scr by (auto simp: look_ok_def shown_fields_def split: if_splits)
  have typed: "safe_end np look_ok (then_do (on_field activate fld) (type_key L fld key) s)" if "typing_field s = fld" for fld
    by (rule looks_typed [OF _ wf look]) (simp add: that looks_type)
  have num: "safe_end np look_ok (match_num_chars L key s)" if "typing_field s = Token_Field"
    using looks_match_num_chars [of L key] looks_typed [OF _ wf look, of "match_num_chars L key"]
      looks_kept [OF _ wf look, of "match_num_chars L key"] unfolding that by blast
  show ?thesis
    using typing_field_encrypt [OF wf scr] ne typed num look
    by (cases "display_password_input s"; cases "display_contract_address_input s") (auto simp: encryption_type_def)
qed

lemma look_decrypt_type:
  assumes wf: "app_wf s" and scr: "current_screen s = DecryptScreen" and look: "look_ok s"
  shows "safe_end np look_ok (decrypt_type L key s)"
proof -
  have typed: "safe_end np look_ok (then_do (type_key L fld key) (on_field activate fld) s)" if "typing_field s = fld" for fld
    by (rule looks_typed [OF _ wf look]) (simp add: that looks_type')
  show ?thesis
    using typing_field_decrypt [OF wf scr] typed [of Filename_Field] typed [of Password_Field]
    by (auto simp: decrypt_type_def)
qed

text \<open>The tab key moves the selection and the cursor together.\<close>

lemma selection_shown [simp]:
  "shown_fields (s\<lparr>encrypt_input_selection := v\<rparr>) = shown_fields s"
  "shown_fields (s\<lparr>decrypt_input_selection := v\<rparr>) = shown_fields s"
  "current_screen s = EncryptionInputScreen \<Longrightarrow>
     typing_field (s\<lparr>encrypt_input_selection := v\<rparr>) = shown_fields s ! unat v"
  "current_screen s = DecryptScreen \<Longrightarrow> typing_field (s\<lparr>decrypt_input_selection := v\<rparr>) = shown_fields s ! unat v"
  by (simp_all add: shown_fields_def typing_field_def)

lemma look_encryption_tab:
  assumes wf: "app_wf s" and scr: "current_screen s = EncryptionInputScreen" and look: "look_ok s"
  shows "safe_end np look_ok (encryption_tab s)"
proof -
  have b: "blocks s" "ta_masked (password_input s)" using app_wf_facts(5) [OF wf] look by (simp_all add: look_ok_def)
  have step: "safe_end np look_ok (m (s\<lparr>encrypt_input_selection := v\<rparr>))"
    if "looks F m" "set (shown_fields s) - F (no_cursor (s\<lparr>encrypt_input_selection := v\<rparr>)) = {shown_fields s ! unat v}"
      "shown_fields s \<noteq> []" for F m v
    by (rule looks_ok [OF that(1)]) (use b that(2,3) scr in simp_all)
  have three: "safe_end np look_ok (then_do m (then_do m' m'') (s\<lparr>encrypt_input_selection := v\<rparr>))"
    if "looks F m" "looks F' m'" "looks F'' m''"
      "set (shown_fields s) - F'' (F' (F (no_cursor (s\<lparr>encrypt_input_selection := v\<rparr>)))) = {shown_fields s ! unat v}"
      "shown_fields s \<noteq> []" for F F' F'' m m' m'' v
    by (rule step [OF looks_then [OF that(1) looks_then [OF that(2,3)]] that(4,5)])
  note activated = looks_styles(1) and inactivated = looks_styles(2)
  obtain v3 v2 where v: "(encrypt_input_selection s + 1) mod 3 = v3" "v3 < 3"
    "(encrypt_input_selection s + 1) mod 2 = v2" "v2 < 2"
    using mod_bounds by blast
  consider "display_password_input s" "display_contract_address_input s"
    | "\<not> display_password_input s" "display_contract_address_input s" | "\<not> display_contract_address_input s"
    by blast
  then show ?thesis
  proof cases
    case 1
    then have f: "shown_fields s = [Password_Field, Contract_Field, Token_Field]" by (simp add: shown_fields_def scr)
    from u8_below(3) [OF v(2)] show ?thesis
      using 1 three [OF activated [of Password_Field] inactivated [of Contract_Field] inactivated [of Token_Field], where v = 0]
        three [OF inactivated [of Password_Field] activated [of Contract_Field] inactivated [of Token_Field], where v = 1]
        three [OF inactivated [of Password_Field] inactivated [of Contract_Field] activated [of Token_Field], where v = 2]
      by (auto simp: encryption_tab_def Let_def v(1) f)
  next
    case 2
    then have f: "shown_fields s = [Contract_Field, Token_Field]" by (simp add: shown_fields_def scr)
    from u8_below(2) [OF v(4)] show ?thesis
      using 2 step [OF looks_then [OF activated [of Contract_Field] inactivated [of Token_Field]], where v = 0]
        step [OF looks_then [OF inactivated [of Contract_Field] activated [of Token_Field]], where v = 1]
      by (auto simp: encryption_tab_def Let_def v(3) f)
  qed (use look in \<open>simp add: encryption_tab_def\<close>)
qed

lemma look_decrypt_tab:
  assumes wf: "app_wf s" and scr: "current_screen s = DecryptScreen" and look: "look_ok s"
  shows "safe_end np look_ok (decrypt_tab s)"
proof -
  have b: "blocks s" "ta_masked (password_input s)" using app_wf_facts(5) [OF wf] look by (simp_all add: look_ok_def)
  have step: "safe_end np look_ok (m (s\<lparr>decrypt_input_selection := v\<rparr>))"
    if "looks F m" "set (shown_fields s) - F (no_cursor (s\<lparr>decrypt_input_selection := v\<rparr>)) = {shown_fields s ! unat v}"
      "shown_fields s \<noteq> []" for F m v
    by (rule looks_ok [OF that(1)]) (use b that(2,3) scr in simp_all)
  obtain v2 where v: "(decrypt_input_selection s + 1) mod 2 = v2" "v2 < 2"
    using mod_bounds by blast
  show ?thesis
  proof (cases "display_password_input s")
    case True
    then have f: "shown_fields s = [Filename_Field, Password_Field]" by (simp add: shown_fields_def scr)
    have "{Password_Field} - (insert Filename_Field X - {Password_Field}) = {Password_Field}"
      "{Filename_Field, Password_Field} - insert Password_Field (X - {Filename_Field}) = {Filename_Field}" for X
      by auto
    with u8_below(2) [OF v(2)] show ?thesis
      using True step [OF looks_then [OF looks_styles(1) [of Filename_Field] looks_styles(2) [of Password_Field]], where v = 0]
        step [OF looks_then [OF looks_styles(2) [of Filename_Field] looks_styles(1) [of Password_Field]], where v = 1]
      by (auto simp: decrypt_tab_def Let_def v(1) f)
  qed (use look in \<open>simp add: decrypt_tab_def\<close>)
qed

text \<open>Off the two forms only the mask matters.\<close>

lemma look_home:
  "current_screen s \<notin> {EncryptionInputScreen, DecryptScreen} \<Longrightarrow> look_ok s \<longleftrightarrow> ta_masked (password_input s)"
  by (simp add: look_ok_def)

lemma look_masked: "look_ok s \<Longrightarrow> ta_masked (password_input s)"
  by (simp add: look_ok_def)

lemma look_cleanups [simp]: "look_ok (encryption_cleanup L s)" "look_ok (decrypt_cleanup L s)"
  by (simp_all add: look_home encryption_cleanup_def decrypt_cleanup_def reset_intent_list_def reset_input_fields_def field_defs)

lemma safe_changed: "(\<And>t. P (f t)) \<Longrightarrow> safe_end False P (then_do m (changing f) s)"
  by (rule safe_then [where Q = "\<lambda>_. True"]) (simp_all add: safe_end_def changing_def split: outcome.split)

lemma look_encryption_enter:
  assumes "app_wf s" and "look_ok s"
  shows "safe_end False look_ok (encryption_enter L s)"
  using looks_kept [OF _ assms] assms(2)
  by (simp add: encryption_enter_def Let_def safe_changed looks_intros)

lemma look_encryption_input:
  assumes "app_wf s" and "current_screen s = EncryptionInputScreen" and "look_ok s"
  shows "safe_end False look_ok (encryption_input L key s)"
  using assms
  by (simp add: encryption_input_def look_encryption_tab look_encryption_enter look_encryption_type changing_def
      split: key_code.split)

lemma look_decrypt_enter:
  assumes "app_wf s" and "look_ok s"
  shows "safe_end False look_ok (decrypt_enter L s)"
proof -
  have dec: "safe_end False look_ok (decrypt_file L f pw t)" for f pw t
    unfolding decrypt_file_def by (rule safe_bind) (simp_all add: safe_changed)
  obtain t where "show_error L Filename_Field s = (Ok (), t)" "only_inputs s t" "blocks t"
    "no_cursor t = no_cursor s" "ta_masked (password_input t) = ta_masked (password_input s)"
    using looks_show_error [of L Filename_Field] app_wf_facts(5) [OF assms(1)] unfolding looks_def by blast
  moreover from this have "app_wf t" "look_ok t"
    using assms by (simp_all add: only_inputs_wf look_ok_def only_inputs_shown)
  ultimately show ?thesis
    using dec looks_kept [OF looks_show_error [of L Password_Field], of t False]
      looks_kept [OF looks_show_error [of L Filename_Field] assms, of False]
    by (simp add: decrypt_enter_def Let_def then_do_def)
qed

lemma look_decrypt_input:
  assumes "app_wf s" and "current_screen s = DecryptScreen" and "look_ok s"
  shows "safe_end False look_ok (decrypt_input L key s)"
  using assms
  by (simp add: decrypt_input_def look_decrypt_tab look_decrypt_enter look_decrypt_type changing_def
      split: key_code.split)

text \<open>The forms open with the cursor in their first input.\<close>

lemma no_cursor_moved [simp]:
  "no_cursor (s\<lparr>current_screen := x, menu_title := y\<rparr>) = no_cursor s"
  "no_cursor (s\<lparr>menu_title := y, current_screen := x\<rparr>) = no_cursor s"
proof -
  have "get_input fld (s\<lparr>current_screen := x, menu_title := y\<rparr>) = get_input fld s"
    and "get_input fld (s\<lparr>menu_title := y, current_screen := x\<rparr>) = get_input fld s" for fld
    by (cases fld; simp)+
  then show "no_cursor (s\<lparr>current_screen := x, menu_title := y\<rparr>) = no_cursor s"
    and "no_cursor (s\<lparr>menu_title := y, current_screen := x\<rparr>) = no_cursor s"
    by (simp_all add: no_cursor_def)
qed

lemma look_opened:
  assumes wf: "app_wf s" and scr: "current_screen s = IntentSelection" and "ta_masked (password_input s)"
    and "looks F m"
    and "scr \<in> {EncryptionInputScreen, DecryptScreen}"
    and "shown_fields (s\<lparr>current_screen := scr\<rparr>) = fld # fs" and "(set (fld # fs)) - F (no_cursor s) = {fld}"
  shows "safe_end np look_ok (then_do m (changing (\<lambda>s. s\<lparr>current_screen := scr, menu_title := x\<rparr>)) s)"
proof -
  obtain t where t: "m s = (Ok (), t)" "only_inputs s t" "no_cursor t = F (no_cursor s)"
    "ta_masked (password_input t) = ta_masked (password_input s)"
    using assms(4) app_wf_facts(5) [OF wf] unfolding looks_def by blast
  let ?t = "t\<lparr>current_screen := scr, menu_title := x\<rparr>"
  have "encrypt_input_selection t = 0" "decrypt_input_selection t = 0"
    using app_wf_facts(7,8) [OF wf] scr t(2) by (simp_all add: only_inputs_def)
  moreover have f: "shown_fields ?t = fld # fs"
    using assms(6) t(2) by (simp add: shown_fields_def only_inputs_def cong: screen.case_cong)
  ultimately have "typing_field ?t = fld"
    by (simp add: typing_field_def f)
  then show ?thesis
    using t(1,3,4) assms(3,7) f by (simp add: then_do_def changing_def look_ok_def)
qed

lemma look_intents_confirmed:
  assumes wf: "app_wf s" and scr: "current_screen s = IntentSelection" and look: "ta_masked (password_input s)"
  shows "safe_end False look_ok (intents_confirmed L s)"
proof -
  note opened = look_opened [OF wf scr look]
  have stay: "look_ok s" using scr look by (simp add: look_home)
  have alone: "safe_end False look_ok (then_do (encrypt_file L i)
      (changing (\<lambda>s. (reset_intent_list (s\<lparr>current_screen := Main_Screen, generated_pubkey := None\<rparr>))
         \<lparr>sr25519_intent := False\<rparr>)) s)" if "is_encrypt_path s" for i
  proof (rule safe_then)
    show "safe_end False (only_outside s) (encrypt_file L i s)"
      by (rule encrypt_file_safe) (use wf scr that in \<open>auto simp: app_wf_def\<close>)
    fix t assume "only_outside s t"
    then obtain w where "t = s\<lparr>outside := w\<rparr>" by (auto simp: only_outside_def)
    then have "password_input t = password_input s" by simp
    then show "safe_end False look_ok (changing (\<lambda>s. (reset_intent_list (s\<lparr>current_screen := Main_Screen, generated_pubkey := None\<rparr>))
         \<lparr>sr25519_intent := False\<rparr>) t)"
      using look by (simp add: changing_def reset_intent_list_def look_home)
  qed
  have pw: "safe_end False look_ok (then_do (then_do (on_field activate Password_Field)
      (then_do (on_field inactivate Contract_Field) (on_field inactivate Token_Field)))
      (changing (\<lambda>s. s\<lparr>current_screen := EncryptionInputScreen, menu_title := x\<rparr>)) s)" if "display_password_input s" for x
    by (rule opened [OF looks_then [OF looks_styles(1) looks_then [OF looks_styles(2) looks_styles(2)]]])
      (use that in \<open>auto simp: shown_fields_def\<close>)
  have ct: "safe_end False look_ok (then_do (then_do (on_field activate Contract_Field) (on_field inactivate Token_Field))
      (changing (\<lambda>s. s\<lparr>current_screen := EncryptionInputScreen, menu_title := x\<rparr>)) s)"
    if "\<not> display_password_input s" "display_contract_address_input s" for x
    by (rule opened [OF looks_then [OF looks_styles(1) looks_styles(2)]])
      (use that in \<open>auto simp: shown_fields_def\<close>)
  have dec: "safe_end False look_ok (then_do (changing (\<lambda>s. s\<lparr>menu_title := x, current_screen := DecryptScreen\<rparr>))
      (then_do (on_field activate Filename_Field)
        (if display_password_input s then on_field inactivate Password_Field else pure_action (Ok ()))) s)" for x
  proof -
    let ?s = "s\<lparr>menu_title := x, current_screen := DecryptScreen\<rparr>"
    have b: "blocks ?s" "ta_masked (password_input ?s)" using app_wf_facts(5) [OF wf] look by (simp_all add: blocks_iff)
    have "decrypt_input_selection s = 0" using app_wf_facts(8) [OF wf] scr by simp
    then have f: "shown_fields ?s = Filename_Field # (if display_password_input s then [Password_Field] else [])"
      "typing_field ?s = Filename_Field"
      by (simp_all add: shown_fields_def typing_field_def)
    have "safe_end False look_ok (then_do (on_field activate Filename_Field)
        (if display_password_input s then on_field inactivate Password_Field else pure_action (Ok ())) ?s)"
      using f looks_ok [OF looks_then [OF looks_styles(1) [of Filename_Field] looks_styles(2) [of Password_Field]] b, of False]
        looks_ok [OF looks_then [OF looks_styles(1) [of Filename_Field] looks_skip(1)] b, of False]
      by (cases "display_password_input s") auto
    then show ?thesis by (simp add: then_do_def changing_def)
  qed
  show ?thesis
    using alone pw ct dec stay by (auto simp: intents_confirmed_def)
qed

lemma look_intents_input:
  assumes wf: "app_wf s" and scr: "current_screen s = IntentSelection" and look: "look_ok s"
  shows "safe_end False look_ok (intents_input L code s)"
proof -
  obtain x y z where "intent_list_items s = [x, y, z]"
    using app_wf_facts(4) [OF wf] by (auto simp: numeral_3_eq_3 length_Suc_conv)
  then have "safe_end False look_ok (intents_enter L s)"
    using with_flags_wf [OF wf scr] look_masked [OF look]
    by (simp add: intents_enter_run look_intents_confirmed) (simp add: look_intents_confirmed with_flags_def)
  moreover have "safe_end False look_ok (intents_select s)"
    using scr look_masked [OF look] look
    by (auto simp: intents_select_def look_home split: option.split prod.split)
  ultimately show ?thesis
    using scr look_masked [OF look] look by (simp add: intents_input_def intents_moves changing_def look_home reset_intent_list_def)
qed

text \<open>The menu and the file explorer show no form.\<close>

definition no_form :: "('ta, 'fx, 'w) app \<Rightarrow> bool" where
  "no_form s \<longleftrightarrow> current_screen s \<notin> {EncryptionInputScreen, DecryptScreen} \<and> ta_masked (password_input s)"

lemma no_form_simps [simp]:
  "no_form (s\<lparr>outside := w\<rparr>) = no_form s" "no_form (s\<lparr>menu_title := x\<rparr>) = no_form s"
  "no_form (s\<lparr>menu_state := i\<rparr>) = no_form s" "no_form (s\<lparr>file_explorer := fx\<rparr>) = no_form s"
  "no_form s \<Longrightarrow> no_form (show_keys k s)"
  by (simp_all add: no_form_def show_keys_def)

lemma no_form_outdoors: "no_form s \<Longrightarrow> safe_end False no_form (unwrapping (outdoors m) s)"
  by (cases "m (outside s)"; cases "fst (m (outside s))") (auto simp: unwrapping_def outdoors_def)

lemma no_form_main:
  assumes "no_form s"
  shows "safe_end False no_form (main_input L code s)"
proof -
  have "no_form (show_keys k (t\<lparr>outside := w\<rparr>))" if "no_form t" for k t w
    using that by simp
  then have keys: "safe_end False no_form (generate_keys L t)" "safe_end False no_form (inspect_keys L t)" if "no_form t" for t
    using that
    by (auto simp: generate_keys_def inspect_keys_def then_do_def unwrapping_def outdoors_def bind_action_def changing_def
        safe_end_def split: prod.splits outcome.splits list.splits)
  have "safe_end False no_form (main_select L s)"
    using assms keys by (auto simp: main_select_def no_form_def split: option.split)
  then show ?thesis
    using assms by (simp add: main_input_def safe_going_on changing_def)
qed

lemma no_form_look: "safe_end False no_form r \<Longrightarrow> safe_end False look_ok r"
  by (auto simp: safe_end_def no_form_def look_home split: outcome.splits)

lemma look_event:
  assumes "app_wf s" and "look_ok s"
  shows "safe_end False look_ok (app_event L ev s)"
proof (cases ev)
  case (Key_Event key)
  have "no_form s" if "current_screen s \<notin> {EncryptionInputScreen, DecryptScreen}"
    using assms(2) that by (simp add: no_form_def look_home)
  then have menu: "current_screen s = Main_Screen \<Longrightarrow> safe_end False look_ok (main_input L (ke_code key) s)"
    by (intro no_form_look no_form_main) simp
  have res: "current_screen s = KeyResults \<Longrightarrow> safe_end False look_ok (key_results_input (ke_code key) s)"
    and sel: "current_screen s = EncryptFileSelectScreen \<Longrightarrow> safe_end False look_ok (file_select_input L (ke_code key) ev s)"
    using look_masked [OF assms(2)] assms(2)
    by (simp_all add: key_results_input_def file_select_input_def changing_def look_home safe_end_def split: prod.split outcome.split)
  have "safe_end False look_ok (going_on (encryption_input L key) s)" if "current_screen s = EncryptionInputScreen"
    by (rule safe_going_on, rule look_encryption_input [OF assms(1) that assms(2)])
  moreover have "safe_end False look_ok (going_on (decrypt_input L key) s)" if "current_screen s = DecryptScreen"
    by (rule safe_going_on, rule look_decrypt_input [OF assms(1) that assms(2)])
  moreover have "safe_end False look_ok (going_on (intents_input L (ke_code key)) s)" if "current_screen s = IntentSelection"
    by (rule safe_going_on, rule look_intents_input [OF assms(1) that assms(2)])
  moreover have "safe_end False look_ok (going_on (key_results_input (ke_code key)) s)" if "current_screen s = KeyResults"
    by (rule safe_going_on, rule res [OF that])
  moreover have "safe_end False look_ok (going_on (file_select_input L (ke_code key) ev) s)"
    if "current_screen s = EncryptFileSelectScreen"
    by (rule safe_going_on, rule sel [OF that])
  moreover note menu
  ultimately show ?thesis
    using assms(2) Key_Event by (cases "current_screen s") (simp_all add: app_event_def)
qed (use assms in \<open>simp add: app_event_def\<close>)

lemma look_draw [simp]: "look_ok (draw s) = look_ok s"
  by (simp add: draw_def look_home)

lemma look_run_loop: "app_wf s \<Longrightarrow> look_ok s \<Longrightarrow> safe_end False (\<lambda>t. app_wf t \<and> look_ok t) (run_loop L ps s)"
proof (induction ps arbitrary: s)
  case (Cons p ps)
  show ?case
  proof (cases p)
    case (Some ev)
    have "safe_end False app_wf (app_event L ev (draw s))" "safe_end False look_ok (app_event L ev (draw s))"
      using Cons.prems by (simp_all add: app_event_wf look_event)
    then show ?thesis
      using Some Cons.IH by (cases "app_event L ev (draw s)"; cases "fst (app_event L ev (draw s))") auto
  qed (use Cons in simp)
qed simp

lemma look_app_run: "safe_end False (\<lambda>t. app_wf t \<and> look_ok t) (app_run L ps (app_new L fx ticket w))"
  unfolding app_run_def
proof (rule safe_bind)
  fix b t
  assume "(backend_connect L ''ws://localhost:9944'' (outside (app_new L fx ticket w)), app_new L fx ticket w) = (Ok b, t)"
  then have t: "t = app_new L fx ticket w" by simp
  have "app_wf (t\<lparr>app_backend := Some b\<rparr>)"
    unfolding t by (subst app_wf_home) (auto simp: app_new_def blocks_iff field_defs)
  moreover have "look_ok (t\<lparr>app_backend := Some b\<rparr>)"
    unfolding t by (simp add: look_home app_new_def field_defs)
  ultimately show "safe_end False (\<lambda>t. app_wf t \<and> look_ok t)
      (bind_action (changing (\<lambda>s. s\<lparr>app_backend := Some b\<rparr>)) (\<lambda>_. run_loop L ps) t)"
    using look_run_loop by (simp add: bind_action_def changing_def)
qed simp


section \<open>Typing\<close>

definition others_kept :: "input_field \<Rightarrow> ('ta, 'fx, 'w) app \<Rightarrow> ('ta, 'fx, 'w) app \<Rightarrow> bool" where
  "others_kept fld s t \<longleftrightarrow> blocks t \<and> (\<forall>g. g \<noteq> fld \<longrightarrow> ta_core (get_input g t) = ta_core (get_input g s))"

lemma typed_others:
  assumes "blocks s"
  shows "safe_end False (others_kept fld s) (type_key L fld key s)"
  by (rule type_key_run [OF assms, of L fld key]) (simp add: others_kept_def)

lemma activated_others:
  assumes "blocks s"
  shows "safe_end False (others_kept fld s) (on_field activate f s)"
  using restylesD [OF restyles_styles(1) [of f] assms] by (auto simp: others_kept_def styled_def)

lemma others_kept_then:
  assumes "blocks s" and "safe_end False (others_kept fld s) (m s)"
    and "\<And>t. blocks t \<Longrightarrow> safe_end False (others_kept fld t) (n t)"
  shows "safe_end False (others_kept fld s) (then_do m n s)"
proof (rule safe_then, rule assms(2))
  fix t assume "others_kept fld s t"
  moreover from this have "safe_end False (others_kept fld t) (n t)" by (simp add: others_kept_def assms(3))
  ultimately show "safe_end False (others_kept fld s) (n t)"
    by (auto simp: safe_end_def others_kept_def split: outcome.splits)
qed

lemma typed_elsewhere:
  assumes "blocks s"
  shows "safe_end False (others_kept fld s) (then_do (on_field activate fld) (type_key L fld key) s)"
    and "safe_end False (others_kept fld s) (then_do (type_key L fld key) (on_field activate fld) s)"
  by (rule others_kept_then, rule assms, rule activated_others, rule assms, rule typed_others, assumption)
    (rule others_kept_then, rule assms, rule typed_others, rule assms, rule activated_others, assumption)

lemma typed_number:
  assumes "blocks s"
  shows "safe_end False (others_kept Token_Field s) (match_num_chars L key s)"
proof -
  have "safe_end False (others_kept Token_Field s) (then_do (on_field activate Token_Field)
      (\<lambda>s. if input_text L Token_Field s \<noteq> [] then type_key L Token_Field key s else (Ok (), s)) s)"
    by (rule others_kept_then, rule assms, rule activated_others, rule assms) (simp add: typed_others, simp add: others_kept_def)
  then show ?thesis
    using typed_elsewhere(1) [OF assms, of Token_Field L key] assms
    by (simp add: match_num_chars_def others_kept_def split: key_code.split)
qed

lemma typing_changes_one:
  assumes "app_wf s" and "look_ok s" and "current_screen s \<in> {EncryptionInputScreen, DecryptScreen}"
    and "ke_code key \<notin> {Key_Esc, Key_Enter, Key_Tab}"
  shows "safe_end False (others_kept (typing_field s) s) (app_event L (Key_Event key) s)"
proof (cases "current_screen s = DecryptScreen")
  have self: "others_kept fld s s" for fld
    using app_wf_facts(5) [OF assms(1)] by (simp add: others_kept_def)
  case True
  have "decrypt_input L key = decrypt_type L key"
    using assms(4) by (auto simp: decrypt_input_def split: key_code.split)
  then show ?thesis
    using typing_field_decrypt [OF assms(1) True] typed_elsewhere(2) [OF app_wf_facts(5) [OF assms(1)]] True
    by (cases "display_password_input s") (auto simp: app_event_def decrypt_type_def self intro!: safe_going_on)
next
  have self: "others_kept fld s s" for fld
    using app_wf_facts(5) [OF assms(1)] by (simp add: others_kept_def)
  case False
  then have scr: "current_screen s = EncryptionInputScreen" using assms(3) by simp
  have ne: "display_password_input s \<or> display_contract_address_input s"
    using assms(2) scr by (auto simp: look_ok_def shown_fields_def split: if_splits)
  have "encryption_input L key = encryption_type L key"
    using assms(4) by (auto simp: encryption_input_def split: key_code.split)
  then show ?thesis
    using typing_field_encrypt [OF assms(1) scr] ne scr typed_elsewhere(1) [OF app_wf_facts(5) [OF assms(1)]]
      typed_number [OF app_wf_facts(5) [OF assms(1)]]
    by (cases "display_password_input s"; cases "display_contract_address_input s")
      (auto simp: app_event_def encryption_type_def self intro!: safe_going_on)
qed


section \<open>Properties\<close>

text \<open>
  C38. What is typed shows where the cursor is: after any events, when the encryption or the decryption
  form is on screen, exactly one of the inputs drawn has a visible cursor, it is the selected one, and
  a key other than escape, enter and tab changes the text of no other input; the password is drawn
  masked.
\<close>

theorem tui_cursor_where_typed:
  assumes "app_run L polls (app_new L fx ticket w) = (Ok b, s)"
    and "current_screen s \<in> {EncryptionInputScreen, DecryptScreen}"
  shows "filter cursor_shown (drawn_inputs (fst (render R area s))) = [get_input (typing_field s) s]
    \<and> ta_masked (password_input s)
    \<and> (\<forall>key c t fld. ke_code key \<notin> {Key_Esc, Key_Enter, Key_Tab} \<longrightarrow>
         app_event L (Key_Event key) s = (Ok c, t) \<longrightarrow> fld \<noteq> typing_field s \<longrightarrow>
         ta_core (get_input fld t) = ta_core (get_input fld s))"
proof -
  have ok: "app_wf s" "look_ok s"
    using look_app_run [of L polls fx ticket w] assms(1) by simp_all
  have "ta_core (get_input fld t) = ta_core (get_input fld s)"
    if "ke_code key \<notin> {Key_Esc, Key_Enter, Key_Tab}" "app_event L (Key_Event key) s = (Ok c, t)" "fld \<noteq> typing_field s"
    for key c t fld
    using typing_changes_one [OF ok assms(2) that(1), of L] that(2,3) by (simp add: others_kept_def)
  then show ?thesis
    by (intro conjI allI impI, intro cursor_drawn_once ok assms(2)) (simp_all add: look_masked [OF ok(2)])
qed

definition press :: "key_code \<Rightarrow> event option" where
  "press code = Some (Key_Event \<lparr>ke_code = code, ke_modifiers = 0, ke_kind = Press\<rparr>)"

theorem tui_cursor_where_typed_witness:
  "\<exists>s. app_run demo_tui [press Key_Up, press Key_Enter, press (Key_Char '' ''), press Key_Enter, press Key_Tab] demo_app
      = (Ok True, s)
    \<and> filter cursor_shown (drawn_inputs (fst (render (\<lambda>d cs r. map (\<lambda>_. r) cs) () s))) = [password_input s]"
proof -
  let ?r = "app_run demo_tui [press Key_Up, press Key_Enter, press (Key_Char '' ''), press Key_Enter, press Key_Tab] demo_app"
  have "fst ?r = Ok True" "current_screen (snd ?r) = DecryptScreen" "display_password_input (snd ?r)"
    "decrypt_input_selection (snd ?r) = 1"
    by code_simp+
  then obtain s where run: "?r = (Ok True, s)"
    and s: "current_screen s = DecryptScreen" "display_password_input s" "decrypt_input_selection s = 1"
    by (metis prod.collapse)
  then have "typing_field s = Password_Field" by (simp add: typing_field_def shown_fields_def)
  moreover have "filter cursor_shown (drawn_inputs (fst (render (\<lambda>d cs r. map (\<lambda>_. r) cs) () s))) = [get_input (typing_field s) s]"
    by (rule conjunct1 [OF tui_cursor_where_typed [OF run [unfolded demo_app_def]]]) (simp add: s(1))
  ultimately show ?thesis using run by simp
qed

end
