(* ===== verification/Tui_Main.thy ===== *)
theory Tui_Main
  imports Tui_View Networking
begin

text \<open>
  How the terminal interface comes up: \<open>main\<close> and \<open>build_node\<close> of \<open>entmoot/src/main.rs\<close>, from parsed
  arguments. The node is built by a function that the present \<open>fangorn\<close> crate does not have in this
  form, so that building it is a parameter; connecting it is the crate's.
\<close>

section \<open>The program\<close>

record cli =
  cli_ticket :: string
  cli_bootstrap_pubkey :: string
  cli_bootstrap_rpc :: string

text \<open>
  The network and the world of the interface are one state \<open>'w\<close>. \<open>em_install\<close> sets up the error reports
  of the terminal, \<open>em_explorer\<close> is the file explorer that \<open>App::new\<close> makes.
\<close>

record ('s, 'k, 'w, 'e, 'a, 'x, 'ta, 'fx, 'kp) entmoot_env =
  em_install :: "(unit, string) outcome"
  em_net :: "('s, 'k, 'w, 'e, 'a, 'x) net_lib"
  em_node_build :: "16 word \<Rightarrow> nat \<Rightarrow> ('w, 'e, string) action"
  em_explorer :: 'fx
  em_tui :: "('ta, 'fx, 'kp, 'w) tui_libs"

definition entmoot_node ::
  "('s, 'k, 'w, 'e, 'a, 'x, 'ta, 'fx, 'kp) entmoot_env \<Rightarrow> 'a list \<Rightarrow> ('w, 'e, string) action" where
  "entmoot_node X bootstrap_peers =
     bind_action (em_node_build X 4000 0) (\<lambda>node.
     bind_action (unwrapping (try_connect_peers (em_net X) node (Some bootstrap_peers))) (\<lambda>_.
       pure_action (Ok node)))"

text \<open>
  For a list of polls; the result is whether the interface still runs after them, with the application
  once it has been made.
\<close>

definition entmoot_main ::
  "('s, 'k, 'w, 'e, 'a, 'x, 'ta, 'fx, 'kp) entmoot_env \<Rightarrow> cli \<Rightarrow> event option list \<Rightarrow> 'w
   \<Rightarrow> (bool, string) outcome \<times> ('ta, 'fx, 'w) app option" where
  "entmoot_main X args polls w =
     (case and_then (em_install X) (\<lambda>_.
           and_then (unwrap_option (key_of_str (em_net X) (cli_bootstrap_pubkey args))) (\<lambda>pubkey.
           and_then (unwrap_option (socket_of_str (em_net X) (cli_bootstrap_rpc args))) (\<lambda>socket.
             Ok (addr_new (em_net X) pubkey socket)))) of
        Ok boot \<Rightarrow>
          (case entmoot_node X [boot] w of
             (Ok _, w) \<Rightarrow>
               (case expecting ''An error occurred running the UI'' (app_run (em_tui X) polls)
                   (app_new (em_tui X) (em_explorer X) (cli_ticket args) w) of
                  (r, s) \<Rightarrow> (r, Some s))
           | (Err e, _) \<Rightarrow> (Err e, None)
           | (Panic p, _) \<Rightarrow> (Panic p, None))
      | Err e \<Rightarrow> (Err e, None)
      | Panic p \<Rightarrow> (Panic p, None))"


section \<open>What a running interface has behind it\<close>

lemma entmoot_node_Ok:
  "entmoot_node X ps w = (Ok node, w') \<longleftrightarrow>
     (\<exists>w1. em_node_build X 4000 0 w = (Ok node, w1) \<and> try_connect_peers (em_net X) node (Some ps) w1 = (Ok (), w'))"
  by (auto simp: entmoot_node_def outcome_simps)

text \<open>
  While the interface runs, its node accepted the connections to the bootstrap peer that the arguments
  name, and the application is one that \<open>app_run\<close> reaches.
\<close>

lemma entmoot_main_runs:
  assumes "entmoot_main X args polls w = (Ok b, app)"
  shows "\<exists>pubkey socket node w1 w2 s.
      key_of_str (em_net X) (cli_bootstrap_pubkey args) = Some pubkey
      \<and> socket_of_str (em_net X) (cli_bootstrap_rpc args) = Some socket
      \<and> em_node_build X 4000 0 w = (Ok node, w1)
      \<and> try_connect_peers (em_net X) node (Some [addr_new (em_net X) pubkey socket]) w1 = (Ok (), w2)
      \<and> app_run (em_tui X) polls (app_new (em_tui X) (em_explorer X) (cli_ticket args) w2) = (Ok b, s) \<and> app = Some s"
  using assms
  by (auto simp: entmoot_main_def entmoot_node_Ok expecting_def outcome_simps split: outcome.splits prod.splits)

text \<open>An interface that comes up keeps the cursor of its forms where the typing goes.\<close>

lemma entmoot_main_look:
  assumes "entmoot_main X args polls w = (Ok b, Some s)"
  shows "app_wf s \<and> look_ok s"
proof -
  obtain w2 where "app_run (em_tui X) polls (app_new (em_tui X) (em_explorer X) (cli_ticket args) w2) = (Ok b, s)"
    using entmoot_main_runs [OF assms] by blast
  then show ?thesis
    using look_app_run [of "em_tui X" polls "em_explorer X" "cli_ticket args" w2] by simp
qed

end
