(* ===== verification/Spec2Isabelle.thy ===== *)
theory Spec2Isabelle
  imports Pool_Table Pool_Service Psp22_Token Roots_Cli Quickbeam Tui_Main
begin

text \<open>
  A verification development for Fangorn: a network of nodes that hold shares of a decryption key and
  release them for a file only to whoever satisfies the file's intents.

  \<^bold>\<open>The program.\<close> A client encrypts a file under intents (a password, a token balance, a signature),
  puts the ciphertext into a shared document and registers the name, the identifier of the ciphertext
  and the intents in the predicate registry, a contract. To decrypt, a client adds a request with its
  witnesses to the request pool, another contract. Every node polls the pool, verifies the witnesses
  against the registered intents with its gadgets, makes its partial decryption, sends it to the
  requester and attests in the pool. Nodes agree on the config and collect each other's public keys
  through announcements in the shared document. The key vaults hold the keys; \<open>roots\<close>, \<open>quickbeam\<close>,
  \<open>fangorn\<close> and \<open>entmoot\<close> are the programs a user starts.

  \<^bold>\<open>The theories\<close> and the files under \<open>src/\<close> they model; definitions keep the names of the functions.
  \<^item> \<open>Prelude\<close>: outcomes (a value, an error or a panic), actions on a state, the locales
    \<open>transition_system\<close>, \<open>write_once_map\<close>, \<open>growing_log\<close> and \<open>machine_refinement\<close>. \<open>Rust_Str\<close>: the
    string and number functions of Rust's library that the code calls. \<open>Libraries\<close>: the interfaces of
    third-party crates as records of functions, each with the documented behaviour the code relies on
    (\<open>codec_ok\<close>, \<open>hex_ok\<close>, \<open>ss58_ok\<close>, ...) and an instance that shows it can hold.
  \<^item> \<open>Predicate_Registry\<close> (\<open>contract/predicate-registry/lib.rs\<close>) with its refinement of a finite map;
    \<open>Request_Pool\<close> (\<open>contract/pool/lib.rs\<close>) with its invariant, and \<open>Pool_Table\<close>, the table that its
    five mappings, list and counter implement; \<open>Psp22_Token\<close> (\<open>contract/psp22/lib.rs\<close>).
  \<^item> \<open>Intent_Parser\<close>, \<open>Gadget_Registry\<close>, \<open>Gadgets\<close> (\<open>fangorn/src/gadget/\<close>): the syntax of intents, the
    dispatch to gadgets and verification, the three gadgets.
  \<^item> \<open>Substrate_Backend\<close> (\<open>backend/substrate.rs\<close>, \<open>utils.rs\<close>), \<open>Intent_Store\<close>
    (\<open>storage/contract_store.rs\<close>) and \<open>Pool_Client\<close> (\<open>pool/pool.rs\<close>, \<open>pool/contract_pool.rs\<close>): the
    chain as clients see it, on a chain that hosts the modelled contracts.
  \<^item> \<open>Doc_Store\<close> (\<open>backend/iroh.rs\<close>, \<open>storage/local_store.rs\<close>, \<open>storage/iroh_docstore.rs\<close>), \<open>Node_State\<close>
    (\<open>types.rs\<close>), \<open>Doc_Service\<close> (the document and the synchronization of \<open>node/service.rs\<close>).
  \<^item> \<open>Pool_Watcher\<close> (\<open>pool/watcher.rs\<close>), \<open>Worker\<close> (\<open>process_decryption_request\<close>) and \<open>Pool_Service\<close> (the
    two tasks of \<open>spawn_pool_watcher\<close> as a step relation, beside a chain that moves).
  \<^item> \<open>Crypto_Client\<close> (\<open>crypto/encrypt.rs\<close>, \<open>decrypt.rs\<close>, \<open>cipher.rs\<close> and the protocol handler of
    \<open>client/node.rs\<close>), \<open>Key_Vault\<close> (\<open>crypto/keyvault.rs\<close>), \<open>Networking\<close> (\<open>node/node.rs\<close>, \<open>client/node.rs\<close>,
    \<open>build_full_service\<close>, \<open>main.rs\<close> and \<open>node/cli.rs\<close>), \<open>Roots_Cli\<close> (\<open>roots/src/main.rs\<close>), \<open>Quickbeam\<close>
    (\<open>quickbeam/src/main.rs\<close>).
  \<^item> \<open>Tui_App\<close>, \<open>Tui_Screens\<close>, \<open>Tui\<close>, \<open>Tui_Forms\<close>, \<open>Tui_View\<close>, \<open>Tui_Main\<close> (\<open>entmoot/src/\<close>): the state of
    the terminal interface, the key handlers, the event loop with its invariant, what the forms
    submit, what is drawn, and how the program comes up.
  \<^item> This theory: the node that the service makes, and the two properties that go through the whole
    system, from the client that encrypts to the node that serves and back to the reader.

  \<^bold>\<open>How state and effects are modelled.\<close> A structure is a record, an enumeration a datatype, a fallible
  call an \<open>outcome\<close> in which a panic is a value of its own (\<open>Unwrap_None\<close> and \<open>Unwrap_Err\<close> tell which
  kind of unwrap failed), a stateful call an \<open>action\<close>. A chain, a document, a disk and a network are
  states of abstract type that the calls are given. A vault is both a value, which the node of
  \<open>Networking\<close> clones for its second key vault as \<open>node.rs\<close> does, and the files behind it, which its
  operations read and write; how \<open>rust_vault\<close> opens, clones and creates vaults is a parameter.
  Connections of the peer-to-peer endpoint are no state: \<open>node.rs\<close> drops each at once, so that only
  whether the dial succeeded is left of them.
  Machine integers are words (\<open>u8\<close>, \<open>u32\<close>, \<open>u64\<close>, \<open>u128\<close>), bytes are \<open>8 word\<close>, a \<open>string\<close> holds the bytes
  of the UTF-8 text as characters.

  \<^bold>\<open>What the lemmas show.\<close> Each contract has an invariant that every message keeps and that every
  reachable storage has (\<open>transition_system\<close>); the registry is a \<open>write_once_map\<close>, the pool and the
  worker's work are \<open>growing_log\<close>s, both contracts are shown by \<open>machine_refinement\<close> to answer like
  their abstract machine in every sequence of calls. The stores have round trips, the gadgets exact
  outcomes with every error and panic, the vaults what they hold after a key was made. The services
  compose them: clients with contracts, watcher with worker, two nodes through the document, the
  handler of the requester with the worker's message. Many properties also say where the code fails:
  the manifest's findings name them. The terminal interface is shown not to panic of its own; what it
  needs from the key store and the chain, because it unwraps their results, is the predicate
  \<open>outside_works\<close>.

  \<^bold>\<open>Bounds and fuel.\<close> No definition needs fuel. Loops that run until something outside happens take
  the list of what they meet, and their properties hold for every list, that is for every finite
  piece of an execution: rounds of the watcher, turns of the worker, events of the document, polls of
  the interface; that the loops make progress is shown on such pieces (\<open>service_catches_up\<close>,
  \<open>tui_escape_quits\<close>). The depth of parentheses in an intent is an \<open>i32\<close> in the code and an integer
  here; it stays below the length of the text plus two, so that no text below two gigabytes makes a
  difference. A blob is read at most three times after the
  first, as in the code. A wait without a time-out returns an option, in which \<open>None\<close> is a wait that
  never ends: \<open>quickbeam_decrypt\<close> waits so for its endpoint to come online, \<open>handle_decrypt\<close> for a share
  (on the program's own nodes the channel of shares is closed, and it panics at once). Selections of inputs are \<open>u8\<close>, taken modulo the number of inputs.

  \<^bold>\<open>Not modelled.\<close> The messages of the token contract are default implementations of the pendzl
  library, the dialogues of iroh, subxt, ratatui, rust_vault, the threshold encryption and clap's
  parsing are other crates: parameters throughout. Traits without code, tests, and what is commented
  out (most of \<open>pool/pool.rs\<close>, the local intent store, \<open>local_testnet_setup\<close>, \<open>fangorn/src/test.rs\<close>)
  has nothing to be modelled; \<open>Intent::to_bytes\<close> and its converse are one call of serde each and are
  called by nobody. Of \<open>entmoot/src/main.rs\<close>, which holds two sides of a merge, the second is modelled.
  Logging is left out, and so is time: sleeps and time-outs appear as the order of steps. Tasks of one
  node other than the watcher and the worker are modelled one by one and not interleaved.
\<close>

section \<open>The node of the service\<close>

text \<open>
  What \<open>build_full_service\<close> hands to the pool watcher: the registry of the three gadgets, the shared
  document, the registry contract and the pool contract; \<open>vault\<close> makes the node's partial
  decryptions, \<open>attest\<close> is the pool's.
\<close>

definition service_node ::
  "hex_lib \<Rightarrow> bytes list codec \<Rightarrow> partial_decryption_message codec \<Rightarrow> gadget_libs
   \<Rightarrow> ('crs, 'lag, 'sk, 'ak, 'ek, 'g2, 'ct, 'pd) tenc_lib \<Rightarrow> ('c, 'd) iroh_env \<Rightarrow> ('c, 'w) intent_env
   \<Rightarrow> 'w substrate_backend \<Rightarrow> ('ct \<Rightarrow> ('pd, string) outcome) \<Rightarrow> (bytes \<Rightarrow> 'a option)
   \<Rightarrow> (bytes \<Rightarrow> bytes \<Rightarrow> ('w, unit, string) action) \<Rightarrow> (decryption_request \<Rightarrow> bytes) \<Rightarrow> nat
   \<Rightarrow> ('d, 'w, 'c, 'a, 'ct, 'pd) node_env" where
  "service_node X C MC L T D J B vault addr attest ident index =
     \<lparr>ne_hex = X, ne_witnesses = C, ne_registry = default_registry L B, ne_fetch = iroh_fetch D,
      ne_get_intent = contract_get_intent J, ne_des_ct = des_ct T, ne_partial_decryption = vault,
      ne_ser_pd = ser_pd T, ne_message = MC, ne_addr = addr, ne_attest = attest, ne_request_id = ident,
      ne_index = index\<rparr>"

lemma service_node_simps [simp]:
  "ne_hex (service_node X C MC L T D J B vault addr attest ident i) = X"
  "ne_witnesses (service_node X C MC L T D J B vault addr attest ident i) = C"
  "ne_registry (service_node X C MC L T D J B vault addr attest ident i) = default_registry L B"
  "ne_fetch (service_node X C MC L T D J B vault addr attest ident i) = iroh_fetch D"
  "ne_get_intent (service_node X C MC L T D J B vault addr attest ident i) = contract_get_intent J"
  "ne_des_ct (service_node X C MC L T D J B vault addr attest ident i) = des_ct T"
  "ne_partial_decryption (service_node X C MC L T D J B vault addr attest ident i) = vault"
  "ne_ser_pd (service_node X C MC L T D J B vault addr attest ident i) = ser_pd T"
  "ne_message (service_node X C MC L T D J B vault addr attest ident i) = MC"
  "ne_addr (service_node X C MC L T D J B vault addr attest ident i) = addr"
  "ne_index (service_node X C MC L T D J B vault addr attest ident i) = i"
  by (simp_all add: service_node_def)


section \<open>From the client that encrypts to the node that serves\<close>

text \<open>What the registry holds for a file that was encrypted under a list of passwords.\<close>

lemma password_file_registered:
  assumes "nom_ok N" and "iroh_env_ok D" and "intent_env_ok J"
    and "ec_app_store ec = testnet_store D J" and "ec_registry ec = default_registry L B"
    and "ps \<noteq> []" and "\<forall>p \<in> set ps. balanced 0 p \<and> \<not> has_delimiter p"
    and "client_encrypt T N ec plaintext f (render_intents (map (Pair ''Password'') ps)) w = (Ok (), w')"
  obtains c ct where "encrypt_inner T ec plaintext = Ok ct"
    and "contract_get_intent J (world_chain w') f = Ok (Some (c, map detach (password_intents L ps)))"
    and "iroh_fetch D (world_docs w') c = Ok (Some ct)"
  using client_encrypt_stores [OF assms(2-4,8)] parse_password_intents [OF assms(1,6,7), of L B]
  by (auto simp: assms(5))

text \<open>
  C1. Passwords protect a file across the system: take a file that a client encrypted under a list of
  passwords, with the shared document and the registry contract behind its stores. A node whose
  chain keeps that registration only ever writes a message to a peer for a request it handled, to
  the address in that request, and the message is a share of the ciphertext registered for the
  file the request names; and when that is the protected file, the witness of the request decodes
  to as many byte strings as there are passwords, each with the hash of the password in its place.
\<close>

theorem password_protects_file:
  assumes "nom_ok N" and "iroh_env_ok D" and "intent_env_ok J"
    and "ec_app_store ec = testnet_store D J" and "ec_registry ec = default_registry L B"
    and "ps \<noteq> []" and "\<forall>p \<in> set ps. balanced 0 p \<and> \<not> has_delimiter p"
    and "client_encrypt T N ec plaintext f (render_intents (map (Pair ''Password'') ps)) w = (Ok (), w')"
    and "E = service_node X C MC L T' D J B' vault addr attest ident i"
    and "\<forall>(t, req) \<in> set rs. contract_get_intent J (tn_chain t) f = contract_get_intent J (world_chain w') f"
    and "x \<in> set (delivered (snd (worker_loop E rs worker_start)))"
  shows "\<exists>t req c. (t, req) \<in> set rs \<and> share_of E t req c (snd x)
    \<and> ne_addr E (addr_bytes (dr_location req)) = Some (fst x)
    \<and> (dr_filename req = f \<longrightarrow>
         contract_get_intent J (world_chain w') f = Ok (Some (c, map detach (password_intents L ps)))
         \<and> (\<exists>witness xs rest. hex_decode (ne_hex E) (dr_witness_hex req) = Some witness
              \<and> dec (ne_witnesses E) witness = Some (xs, rest)
              \<and> map (lib_sha256 L) xs = map (\<lambda>p. lib_sha256 L (as_bytes p)) ps))"
proof -
  obtain c' ct where reg: "contract_get_intent J (world_chain w') f = Ok (Some (c', map detach (password_intents L ps)))"
    using password_file_registered [OF assms(1-8)] .
  obtain t req c where req: "(t, req) \<in> set rs" and auth: "authorised E t req c"
    and share: "share_of E t req c (snd x)" and addr: "ne_addr E (addr_bytes (dr_location req)) = Some (fst x)"
    using worker_loop_log [OF assms(11)] by (auto simp: worker_start_def)
  have "contract_get_intent J (world_chain w') f = Ok (Some (c, map detach (password_intents L ps)))
      \<and> (\<exists>witness xs rest. hex_decode (ne_hex E) (dr_witness_hex req) = Some witness
           \<and> dec (ne_witnesses E) witness = Some (xs, rest)
           \<and> map (lib_sha256 L) xs = map (\<lambda>p. lib_sha256 L (as_bytes p)) ps)" if f: "dr_filename req = f"
  proof -
    have get: "ne_get_intent E (tn_chain t) (dr_filename req) = Ok (Some (c', map detach (password_intents L ps)))"
      using assms(10) req reg by (auto simp: assms(9) f)
    have "c = c' \<and> (\<exists>witness xs rest. hex_decode (ne_hex E) (dr_witness_hex req) = Some witness
        \<and> dec (ne_witnesses E) witness = Some (xs, rest)
        \<and> map (lib_sha256 L) xs = map (\<lambda>p. lib_sha256 L (as_bytes p)) ps)"
      using auth [unfolded authorised_registered [OF get]]
      unfolding assms(9) service_node_simps password_intents_accept .
    with reg show ?thesis by blast
  qed
  with req share addr show ?thesis by blast
qed

text \<open>
  The threshold encryption that one share opens: the node's partial decryption of a ciphertext that
  the client's settings produced is small enough to be sent in one message and decrypts, in the
  slot of the first position of the aggregate key, to the plaintext.
\<close>

definition one_share_opens ::
  "('crs, 'lag, 'sk, 'ak, 'ek, 'g2, 'ct, 'pd) tenc_lib \<Rightarrow> ('crs, 'lag) config \<Rightarrow> 'sk \<Rightarrow> u8
   \<Rightarrow> ('ct \<Rightarrow> ('pd, string) outcome) \<Rightarrow> (bytes \<Rightarrow> bool) \<Rightarrow> bool" where
  "one_share_opens T cfg sys threshold vault fits \<longleftrightarrow>
     (let (ak, ek) = aggregate_key T sys [0, unat threshold] (crs cfg) (lag_polys cfg)
      in lag_positions T ak \<noteq> [] \<and> hd (lag_positions T ak) < length (lag_positions T ak)
         \<and> (\<forall>gamma m ct. te_encrypt T ek (unat threshold) (crs cfg) gamma m = Ok ct \<longrightarrow>
              (\<exists>pd pdb. vault ct = Ok pd \<and> ser_pd T pd = Some pdb \<and> fits pdb
                 \<and> agg_dec T ((replicate (length (lag_positions T ak)) (pd_zero T))[hd (lag_positions T ak) := pd])
                     ct [True, False] ak (crs cfg) = Ok m)))"

lemma encrypted_opens:
  assumes "one_share_opens T (ec_config ec) (ec_system_keys ec) (ec_threshold ec) vault fits"
    and "tenc_ok T" and "encrypt_inner T ec plaintext = Ok bs"
    and "ak = fst (aggregate_key T (ec_system_keys ec) [0, unat (ec_threshold ec)] (crs (ec_config ec))
           (lag_polys (ec_config ec)))"
  obtains p ps ct pd pdb where "lag_positions T ak = p # ps" and "p < length (p # ps)" and "des_ct T bs = Some ct"
    and "vault ct = Ok pd" and "ser_pd T pd = Some pdb" and "fits pdb" and "des_pd T pdb = Some pd"
    and "agg_dec T ((replicate (length (p # ps)) (pd_zero T))[p := pd]) ct [True, False] ak (crs (ec_config ec))
           = Ok plaintext"
proof -
  obtain ek where ag: "aggregate_key T (ec_system_keys ec) [0, unat (ec_threshold ec)] (crs (ec_config ec))
      (lag_polys (ec_config ec)) = (ak, ek)"
    using assms(4) by (cases "aggregate_key T (ec_system_keys ec) [0, unat (ec_threshold ec)] (crs (ec_config ec))
      (lag_polys (ec_config ec))") simp
  obtain gamma ct where ct: "te_encrypt T ek (unat (ec_threshold ec)) (crs (ec_config ec)) gamma plaintext = Ok ct"
    and ser: "ser_ct T ct = Some bs"
    using assms(3) by (auto simp: encrypt_inner_def Let_def ag outcome_simps)
  obtain pd pdb where pd: "vault ct = Ok pd" "ser_pd T pd = Some pdb" "fits pdb"
    "agg_dec T ((replicate (length (lag_positions T ak)) (pd_zero T))[hd (lag_positions T ak) := pd])
       ct [True, False] ak (crs (ec_config ec)) = Ok plaintext"
    using assms(1) ct unfolding one_share_opens_def ag Let_def prod.case by blast
  obtain p ps where "lag_positions T ak = p # ps" "p < length (p # ps)"
    using assms(1) unfolding one_share_opens_def ag by (cases "lag_positions T ak") auto
  moreover have "des_ct T bs = Some ct" "des_pd T pdb = Some pd"
    using assms(2) ser pd(2) unfolding tenc_ok_def by blast+
  ultimately show ?thesis
    using pd that by simp
qed

text \<open>The request that carries the passwords, and what the node does with it.\<close>

definition password_request :: "hex_lib \<Rightarrow> bytes list codec \<Rightarrow> string \<Rightarrow> string list \<Rightarrow> bytes \<Rightarrow> decryption_request" where
  "password_request X C f ps loc = \<lparr>dr_filename = as_bytes f, dr_witness_hex = hex_encode X (enc C (map as_bytes ps)),
     dr_location = OpaqueEndpointAddr loc\<rparr>"

lemma password_request_delivered:
  assumes "hex_ok X" and "codec_ok C" and "E = service_node X C MC L T D J B vault addr attest ident i" and "i < 256"
    and "contract_get_intent J (tn_chain t) (as_bytes f) = Ok (Some (c, map detach (password_intents L ps)))"
    and "iroh_fetch D (tn_docs t) c = Ok (Some bs)" and "des_ct T bs = Some ct" and "vault ct = Ok pd"
    and "ser_pd T pd = Some pdb" and "addr loc = Some a"
    and "tn_peer t a (enc MC \<lparr>pd_filename = as_bytes f, pd_index = of_nat i, pd_bytes = pdb\<rparr>) = Response r"
  shows "delivered (snd (process_decryption_request E t (password_request X C f ps loc) s))
    = delivered s @ [(a, enc MC \<lparr>pd_filename = as_bytes f, pd_index = of_nat i, pd_bytes = pdb\<rparr>)]"
proof -
  let ?req = "password_request X C f ps loc"
  let ?m = "enc MC \<lparr>pd_filename = as_bytes f, pd_index = of_nat i, pd_bytes = pdb\<rparr>"
  have "request_verdict E t ?req = Ok (c, Ok True)"
    using password_verdict [OF assms(2), of L B "tn_verify t" ps "map as_bytes ps"]
    by (simp add: request_verdict_def password_request_def assms(3,5) hex_okD [OF assms(1)] comp_def)
  moreover have "share_message E t ?req c = Ok (Some ?m)"
    using assms(4) by (simp add: share_message_def password_request_def assms(3,6-9))
  ultimately have "process_decryption_request E t ?req s = deliver E t ?req ?m s"
    by (simp add: process_decryption_request_def)
  then show ?thesis
    using assms(10) by (simp add: deliver_def password_request_def assms(3,11) opaque_into_addr_def Let_def
        split: outcome.split)
qed

text \<open>
  C2. A reader who knows the passwords gets the file: after a client encrypted a file under a list of
  passwords, the request that \<open>request_decrypt\<close> makes of these passwords leads the node to write one
  message to the requester; the handler that a client's node mounts accepts that message, and from
  what it queues the client writes the original plaintext to its disk, under the file's name. (The
  command line's \<open>handle_decrypt\<close> runs on a node that does not mount this handler, which is the subject
  of the theory \<open>Quickbeam\<close>.)
\<close>

theorem reader_gets_plaintext:
  assumes "nom_ok N" and "iroh_env_ok D" and "intent_env_ok J"
    and "ec_app_store ec = testnet_store D J" and "ec_registry ec = default_registry L B"
    and "ps \<noteq> []" and "\<forall>p \<in> set ps. balanced 0 p \<and> \<not> has_delimiter p"
    and "client_encrypt T N ec plaintext (as_bytes f) (render_intents (map (Pair ''Password'') ps)) w = (Ok (), w1)"
    and libs: "hex_ok X" "codec_ok C" "codec_ok MC" "tenc_ok T"
    and node: "E = service_node X C MC L T D J B' vault addr attest ident i" "i < 256"
    and opens: "one_share_opens T (ec_config ec) (ec_system_keys ec) (ec_threshold ec) vault
      (\<lambda>pdb. length (enc MC \<lparr>pd_filename = as_bytes f, pd_index = of_nat i, pd_bytes = pdb\<rparr>) \<le> 1024 * 1024)"
    and client: "dc_config dc = ec_config ec" "dc_system_keys dc = ec_system_keys ec"
      "dc_threshold dc = ec_threshold ec" "dc_app_store dc = testnet_store D J" "dc_location dc = Some loc"
    and turn: "contract_get_intent J (tn_chain t) = contract_get_intent J (world_chain w1)"
      "iroh_fetch D (tn_docs t) = iroh_fetch D (world_docs w1)" "addr loc = Some a"
      "tn_peer t a = (\<lambda>m. case (pd_accept T MC m :: (_, string) outcome) of Ok (_, reply) \<Rightarrow> Response reply | _ \<Rightarrow> Stream_Failed [])"
    and later: "contract_get_intent J (world_chain w2) = contract_get_intent J (world_chain w1)"
      "iroh_fetch D (world_docs w2) = iroh_fetch D (world_docs w1)"
      "write_plaintext ''tmp/plaintexts/'' f plaintext (world_disk w2) = (Ok (), d3)"
    and utf8: "valid_utf8 (as_bytes f)"
  shows "\<exists>req m raw w3.
    request_decrypt X C dc f ps ch =
      (case dc_pool_add dc req ch of (Panic p, ch') \<Rightarrow> (Panic p, ch') | (_, ch') \<Rightarrow> (Ok (), ch'))
    \<and> delivered (snd (process_decryption_request E t req s)) = delivered s @ [(a, m)]
    \<and> pd_accept T MC m = (Ok (raw, m) :: (_, string) outcome)
    \<and> handle_partial T dc raw w2 = (Ok (), w3)
    \<and> read_plaintext (''tmp/plaintexts/'' @ f) (world_disk w3) = Ok plaintext"
proof -
  obtain c bs where enc: "encrypt_inner T ec plaintext = Ok bs"
    and reg: "contract_get_intent J (world_chain w1) (as_bytes f) = Ok (Some (c, map detach (password_intents L ps)))"
    and doc: "iroh_fetch D (world_docs w1) c = Ok (Some bs)"
    by (rule password_file_registered [OF assms(1-8)])
  let ?ak = "fst (aggregate_key T (ec_system_keys ec) [0, unat (ec_threshold ec)] (crs (ec_config ec))
    (lag_polys (ec_config ec)))"
  let ?req = "password_request X C f ps loc"
  obtain p qs ct pd pdb where op: "lag_positions T ?ak = p # qs" "p < length (p # qs)" "des_ct T bs = Some ct"
    "vault ct = Ok pd" "ser_pd T pd = Some pdb"
    "length (enc MC \<lparr>pd_filename = as_bytes f, pd_index = of_nat i, pd_bytes = pdb\<rparr>) \<le> 1024 * 1024"
    "des_pd T pdb = Some pd"
    "agg_dec T ((replicate (length (p # qs)) (pd_zero T))[p := pd]) ct [True, False] ?ak (crs (ec_config ec)) = Ok plaintext"
    by (rule encrypted_opens [OF opens libs(4) enc refl])
  have seen: "contract_get_intent J (tn_chain t) (as_bytes f) = Ok (Some (c, map detach (password_intents L ps)))"
    "iroh_fetch D (tn_docs t) c = Ok (Some bs)"
    unfolding turn(1,2) by (rule reg, rule doc)
  let ?pd = "\<lparr>pd_filename = as_bytes f, pd_index = of_nat i, pd_bytes = pdb\<rparr>"
  let ?raw = "\<lparr>raw_filename = as_bytes f, raw_index = of_nat i, raw_partial_decryption = pd\<rparr>"
  have accept: "pd_accept T MC (enc MC ?pd) = (Ok (?raw, enc MC ?pd) :: (_, string) outcome)"
    using pd_accept_encoded [OF libs(3) op(6)] op(7) by simp
  have "delivered (snd (process_decryption_request E t ?req s)) = delivered s @ [(a, enc MC ?pd)]"
    using turn(4) accept
    by (intro password_request_delivered [OF libs(1,2) node seen op(3-5) turn(3)]) simp
  moreover have "handle_partial T dc ?raw w2 = (Ok (), w2\<lparr>world_disk := d3\<rparr>)"
    by (subst handle_partial_writes [where c = c and bs = bs and ct = ct and name = f and plain = plaintext
          and p = p and ps = qs and intents = "map detach (password_intents L ps)"])
      (use op later reg doc utf8 in \<open>simp_all add: client testnet_store_def from_utf8_as_bytes
        unwrapping_def on_disk_def\<close>)
  moreover have "read_plaintext (''tmp/plaintexts/'' @ f) d3 = Ok plaintext"
    by (rule write_plaintext_Ok [OF later(3)])
  ultimately show ?thesis
    using request_decrypt_Ok [OF client(5), of X C f ps ch, folded password_request_def] accept
    by (intro exI [of _ ?req] exI [of _ "enc MC ?pd"] exI [of _ ?raw] exI [of _ "w2\<lparr>world_disk := d3\<rparr>"]) simp
qed


section \<open>A concrete system\<close>

text \<open>
  For the witnesses: the demonstration client, registry and document, and a node whose partial
  decryptions are empty, which the demonstration crate accepts.
\<close>

definition demo_messages :: "partial_decryption_message codec" where
  "demo_messages = pd_message_codec demo_bytes_codec demo_u8"

lemma demo_messages_ok: "codec_ok demo_messages"
  unfolding demo_messages_def by (rule pd_message_codec_ok [OF demo_bytes_codec_ok demo_u8_ok])

definition demo_service_node :: "(bytes \<rightharpoonup> bytes, registry, bytes, bytes, bytes, bytes) node_env" where
  "demo_service_node = service_node demo_hex (demo_list_codec demo_bytes_codec) demo_messages demo_libs demo_tenc
     demo_iroh_env demo_intent_env \<lparr>client = demo_chain, signer_account = []\<rparr> (\<lambda>_. Ok []) Some
     (\<lambda>i p w. (Err ''reverted'', w)) (\<lambda>req. dr_filename req) 1"

definition demo_service_turn :: "(bytes \<rightharpoonup> bytes, registry) world \<Rightarrow> (bytes \<rightharpoonup> bytes, registry, bytes) turn" where
  "demo_service_turn w = \<lparr>tn_chain = world_chain w, tn_verify = (\<lambda>_. world_chain w), tn_docs = world_docs w,
     tn_peer = (\<lambda>a m. case (pd_accept demo_tenc demo_messages m :: (_, string) outcome) of
         Ok (_, reply) \<Rightarrow> Response reply | _ \<Rightarrow> Stream_Failed []),
     tn_attest = world_chain w\<rparr>"

lemma demo_system:
  "hex_ok demo_hex" "codec_ok (demo_list_codec demo_bytes_codec)" "tenc_ok demo_tenc" "nom_ok demo_nom"
  "ec_app_store demo_ec = testnet_store demo_iroh_env demo_intent_env"
  "ec_registry demo_ec = default_registry demo_libs \<lparr>client = demo_chain, signer_account = []\<rparr>"
  "[''ab''] \<noteq> []" "\<forall>p \<in> set [''ab'']. balanced 0 p \<and> \<not> has_delimiter p"
  "render_intents (map (Pair ''Password'') [''ab'']) = ''Password(ab)''"
  "as_bytes ''f'' = [102]"
  by (simp_all add: demo_hex_ok demo_list_codec_ok [OF demo_bytes_codec_ok] demo_nom_ok demo_ec_def render_intent_def)
    (simp_all add: tenc_ok_def demo_tenc_def as_bytes_def byte_of_char_def)

lemma demo_encrypted:
  obtains w1 where "client_encrypt demo_tenc demo_nom demo_ec [1, 2] [102] ''Password(ab)'' demo_world = (Ok (), w1)"
    and "world_disk w1 = world_disk demo_world"
proof -
  obtain w1 where "client_encrypt demo_tenc demo_nom demo_ec [1, 2] [102] ''Password(ab)'' demo_world = (Ok (), w1)"
    using demo_encrypts by blast
  moreover from this have "world_disk w1 = world_disk demo_world"
    unfolding client_encrypt_Ok_iff by auto
  ultimately show ?thesis by (rule that)
qed

definition demo_reader :: "(bytes, unit, bytes list, bytes \<rightharpoonup> bytes, registry, bytes) decryption_client" where
  "demo_reader = \<lparr>dc_config = ec_config demo_ec, dc_system_keys = ec_system_keys demo_ec,
     dc_threshold = ec_threshold demo_ec, dc_app_store = testnet_store demo_iroh_env demo_intent_env,
     dc_pool_add = (\<lambda>req w. (Ok (), w)), dc_location = Some [7]\<rparr>"

theorem reader_gets_plaintext_witness:
  "\<exists>w1 m raw w3. client_encrypt demo_tenc demo_nom demo_ec [1, 2] [102] ''Password(ab)'' demo_world = (Ok (), w1)
    \<and> pd_accept demo_tenc demo_messages m = (Ok (raw, m) :: (_, string) outcome)
    \<and> handle_partial demo_tenc demo_reader raw w1 = (Ok (), w3)
    \<and> read_plaintext ''tmp/plaintexts/f'' (world_disk w3) = Ok [1, 2]"
proof -
  obtain w1 where run: "client_encrypt demo_tenc demo_nom demo_ec [1, 2] [102] ''Password(ab)'' demo_world = (Ok (), w1)"
    and disk: "world_disk w1 = world_disk demo_world"
    by (rule demo_encrypted)
  have enc: "client_encrypt demo_tenc demo_nom demo_ec [1, 2] (as_bytes ''f'') (render_intents (map (Pair ''Password'') [''ab'']))
      demo_world = (Ok (), w1)"
    unfolding demo_system(9,10) by (rule run)
  have opens: "one_share_opens demo_tenc (ec_config demo_ec) (ec_system_keys demo_ec) (ec_threshold demo_ec) (\<lambda>_. Ok [])
      (\<lambda>pdb. length (enc demo_messages \<lparr>pd_filename = as_bytes ''f'', pd_index = of_nat 1, pd_bytes = pdb\<rparr>) \<le> 1024 * 1024)"
    unfolding demo_system(10)
    by (simp add: one_share_opens_def demo_tenc_def demo_messages_def pd_message_codec_def map_codec_def
        pair_codec_def demo_bytes_codec_def demo_u8_def)
  have reader: "dc_config demo_reader = ec_config demo_ec" "dc_system_keys demo_reader = ec_system_keys demo_ec"
    "dc_threshold demo_reader = ec_threshold demo_ec"
    "dc_app_store demo_reader = testnet_store demo_iroh_env demo_intent_env" "dc_location demo_reader = Some [7]"
    by (simp_all add: demo_reader_def)
  have turn: "contract_get_intent demo_intent_env (tn_chain (demo_service_turn w1)) = contract_get_intent demo_intent_env (world_chain w1)"
    "iroh_fetch demo_iroh_env (tn_docs (demo_service_turn w1)) = iroh_fetch demo_iroh_env (world_docs w1)"
    "Some [7] = Some [7 :: byte]"
    "tn_peer (demo_service_turn w1) [7] = (\<lambda>m. case (pd_accept demo_tenc demo_messages m :: (_, string) outcome) of
         Ok (_, reply) \<Rightarrow> Response reply | _ \<Rightarrow> Stream_Failed [])"
    by (simp_all add: demo_service_turn_def)
  obtain d3 where wr: "write_plaintext ''tmp/plaintexts/'' ''f'' [1, 2] (world_disk w1) = (Ok (), d3)"
    by (simp add: disk demo_world_def write_plaintext_def ensure_dir_def create_dir_all_def write_file_def
        bind_action_def Let_def)
  have one: "(1 :: nat) < 256" and utf8: "valid_utf8 (as_bytes ''f'')"
    by (simp_all add: demo_system(10))
  from reader_gets_plaintext [OF demo_system(4) demo_iroh_env_ok demo_intent_env_ok demo_system(5-8) enc
      demo_system(1,2) demo_messages_ok demo_system(3) demo_service_node_def one opens reader turn refl refl wr utf8,
      of reg_new worker_start]
  show ?thesis
    using run by auto
qed

definition demo_password_request :: decryption_request where
  "demo_password_request = password_request demo_hex (demo_list_codec demo_bytes_codec) ''f'' [''ab''] [7]"

theorem password_protects_file_witness:
  "\<exists>w1 x c. client_encrypt demo_tenc demo_nom demo_ec [1, 2] [102] ''Password(ab)'' demo_world = (Ok (), w1)
    \<and> x \<in> set (delivered (snd (worker_loop demo_service_node [(demo_service_turn w1, demo_password_request)] worker_start)))
    \<and> share_of demo_service_node (demo_service_turn w1) demo_password_request c (snd x)
    \<and> contract_get_intent demo_intent_env (world_chain w1) [102]
        = Ok (Some (c, map detach (password_intents demo_libs [''ab''])))"
proof -
  obtain w1 where run: "client_encrypt demo_tenc demo_nom demo_ec [1, 2] [102] ''Password(ab)'' demo_world = (Ok (), w1)"
    by (rule demo_encrypted)
  have enc: "client_encrypt demo_tenc demo_nom demo_ec [1, 2] (as_bytes ''f'') (render_intents (map (Pair ''Password'') [''ab'']))
      demo_world = (Ok (), w1)"
    unfolding demo_system(9,10) by (rule run)
  obtain c bs where reg: "contract_get_intent demo_intent_env (world_chain w1) (as_bytes ''f'')
      = Ok (Some (c, map detach (password_intents demo_libs [''ab''])))"
    and doc: "iroh_fetch demo_iroh_env (world_docs w1) c = Ok (Some bs)"
    by (rule password_file_registered [OF demo_system(4) demo_iroh_env_ok demo_intent_env_ok demo_system(5-8) enc])
  let ?m = "enc demo_messages \<lparr>pd_filename = as_bytes ''f'', pd_index = of_nat 1, pd_bytes = []\<rparr>"
  have "pd_accept demo_tenc demo_messages ?m = (Ok (\<lparr>raw_filename = as_bytes ''f'', raw_index = of_nat 1,
      raw_partial_decryption = []\<rparr>, ?m) :: (_, string) outcome)"
    unfolding demo_system(10)
    by (subst pd_accept_encoded [OF demo_messages_ok])
      (simp_all add: demo_tenc_def demo_messages_def pd_message_codec_def map_codec_def pair_codec_def
        demo_bytes_codec_def demo_u8_def)
  then have peer: "tn_peer (demo_service_turn w1) [7] ?m = Response ?m"
    by (simp add: demo_service_turn_def)
  have "des_ct demo_tenc bs = Some bs" "ser_pd demo_tenc [] = Some []"
    by (simp_all add: demo_tenc_def)
  note sent = password_request_delivered [OF demo_system(1,2) demo_service_node_def _ _ _ this(1) refl this(2) refl peer,
      where s = worker_start and ps = "[''ab'']", folded demo_password_request_def]
  have "delivered (snd (process_decryption_request demo_service_node (demo_service_turn w1) demo_password_request worker_start))
      = [([7], ?m)]"
    by (subst sent) (use reg doc in \<open>simp_all add: demo_service_turn_def worker_start_def\<close>)
  then have x: "([7], ?m) \<in> set (delivered (snd (worker_loop demo_service_node
      [(demo_service_turn w1, demo_password_request)] worker_start)))"
    by (simp only: worker_loop_one) simp
  have "\<forall>(t, req) \<in> set [(demo_service_turn w1, demo_password_request)].
      contract_get_intent demo_intent_env (tn_chain t) (as_bytes ''f'') = contract_get_intent demo_intent_env (world_chain w1) (as_bytes ''f'')"
    by (simp add: demo_service_turn_def)
  from password_protects_file [OF demo_system(4) demo_iroh_env_ok demo_intent_env_ok demo_system(5-8) enc
      demo_service_node_def this x]
  have "\<exists>c. share_of demo_service_node (demo_service_turn w1) demo_password_request c ?m
      \<and> contract_get_intent demo_intent_env (world_chain w1) (as_bytes ''f'')
          = Ok (Some (c, map detach (password_intents demo_libs [''ab''])))"
    by (auto simp: demo_password_request_def password_request_def)
  with run x show ?thesis
    unfolding demo_system(10) by auto
qed

end
